(* ===== verification/Go_Prelude.thy ===== *)
theory Go_Prelude
  imports Main "HOL-Library.Word" "HOL-Library.Sublist"
begin

text \<open>
  Shared vocabulary of the development: Go values (errors, panics, sized integers) and the
  functions of the Go standard library that the fluxqueue sources call (\<open>strconv\<close>,
  \<open>strings\<close>, \<open>path\<close>, the \<open>%d\<close> verb of \<open>fmt\<close>), with the facts about them
  that the components share. Nothing here models a file under \<open>src/\<close>.
\<close>

section \<open>Errors, panics and sized integers\<close>

named_theorems go_simps \<open>evaluation rules of the standard library functions\<close>
named_theorems effect_frame \<open>what an operation leaves untouched\<close>
named_theorems wf_intros \<open>every operation keeps its component's invariant\<close>

text \<open>
  A Go \<open>error\<close>: a plain message, the Kubernetes not-found error that
  \<open>errors.IsNotFound\<close> recognises, the Postgres unique violation, and the wrapper
  \<open>river.JobCancel\<close> that tells the worker queue not to run a job again.
\<close>

datatype go_error =
    Errorf string
  | NotFound string
  | UniqueViolation string
  | JobCancel go_error

fun isNotFound :: "go_error \<Rightarrow> bool" where
  "isNotFound (NotFound _) = True"
| "isNotFound _ = False"

text \<open>\<open>err.Error()\<close>, up to the library's own wording.\<close>

fun error_text :: "go_error \<Rightarrow> string" where
  "error_text (Errorf m) = m"
| "error_text (NotFound n) = n @ '' not found''"
| "error_text (UniqueViolation i) = ''duplicate key value violates unique constraint '' @ i"
| "error_text (JobCancel e) = ''JobCancelError: '' @ error_text e"

text \<open>A computation that may panic (index out of range, nil dereference, write to a nil map).\<close>

datatype 'a go = Ret 'a | Panic string

type_synonym 'a result = "go_error + 'a"
type_synonym int32 = "32 word"
type_synonym int64 = "64 word"
type_synonym labels = "string \<rightharpoonup> string"

section \<open>Decimal integers: fmt and strconv\<close>

definition digit_char :: "nat \<Rightarrow> char" where
  "digit_char d = char_of (d + 48)"

definition char_digit :: "char \<Rightarrow> nat option" where
  "char_digit c = (let k = of_char c :: nat in if 48 \<le> k \<and> k \<le> 57 then Some (k - 48) else None)"

fun nat_dec :: "nat \<Rightarrow> string" where
  "nat_dec n = (if n < 10 then [digit_char n] else nat_dec (n div 10) @ [digit_char (n mod 10)])"

declare nat_dec.simps [simp del]

text \<open>\<open>fmt.Sprintf("%d", i)\<close> and \<open>strconv.FormatInt(i, 10)\<close>.\<close>

definition itoa :: "int \<Rightarrow> string" where
  "itoa i = (if i < 0 then CHR ''-'' # nat_dec (nat (- i)) else nat_dec (nat i))"

datatype num_error = ErrSyntax | ErrRange

text \<open>
  The loop of \<open>strconv.ParseUint\<close> in base 10: a character that is no digit is a syntax
  error with value 0, the first digit that takes the value over \<open>max\<close> a range error with
  value \<open>max\<close>.
\<close>

fun parse_digits :: "nat \<Rightarrow> nat \<Rightarrow> string \<Rightarrow> nat \<times> num_error option" where
  "parse_digits mx n [] = (n, None)"
| "parse_digits mx n (c # cs) =
     (case char_digit c of
        None \<Rightarrow> (0, Some ErrSyntax)
      | Some d \<Rightarrow> (if n * 10 + d > mx then (mx, Some ErrRange)
                  else parse_digits mx (n * 10 + d) cs))"

definition parseUint :: "nat \<Rightarrow> string \<Rightarrow> nat \<times> num_error option" where
  "parseUint bits s = (if s = [] then (0, Some ErrSyntax) else parse_digits (2 ^ bits - 1) 0 s)"

text \<open>\<open>strconv.ParseInt(s, 10, bits)\<close>: the value returned beside the error, as in Go.\<close>

definition parseInt :: "string \<Rightarrow> nat \<Rightarrow> int \<times> num_error option" where
  "parseInt s bits =
     (if s = [] then (0, Some ErrSyntax)
      else
        let neg = (hd s = CHR ''-'');
            body = (if hd s = CHR ''+'' \<or> hd s = CHR ''-'' then tl s else s);
            (un, err) = parseUint bits body;
            cutoff = 2 ^ (bits - 1)
        in if err = Some ErrSyntax then (0, Some ErrSyntax)
           else if \<not> neg \<and> un \<ge> cutoff then (int cutoff - 1, Some ErrRange)
           else if neg \<and> un > cutoff then (- int cutoff, Some ErrRange)
           else (if neg then - int un else int un, None))"

text \<open>\<open>strconv.Atoi\<close> on a 64-bit platform.\<close>

definition atoi :: "string \<Rightarrow> int \<times> num_error option" where
  "atoi s = parseInt s 64"

lemma char_digit_digit_char [simp]: "d < 10 \<Longrightarrow> char_digit (digit_char d) = Some d"
  by (simp add: char_digit_def digit_char_def)

lemma digit_char_neq_sign [simp]:
  "d < 10 \<Longrightarrow> digit_char d \<noteq> CHR ''-''" "d < 10 \<Longrightarrow> digit_char d \<noteq> CHR ''+''"
  "d < 10 \<Longrightarrow> digit_char d \<noteq> CHR ''/''" "d < 10 \<Longrightarrow> digit_char d \<noteq> CHR ''.''"
  "d < 10 \<Longrightarrow> digit_char d \<noteq> CHR ''_''"
proof -
  have *: "\<And>c. d < 10 \<Longrightarrow> of_char c < (48::nat) \<or> 57 < (of_char c :: nat) \<Longrightarrow> digit_char d \<noteq> c"
    unfolding digit_char_def by auto
  show "d < 10 \<Longrightarrow> digit_char d \<noteq> CHR ''-''" "d < 10 \<Longrightarrow> digit_char d \<noteq> CHR ''+''"
    "d < 10 \<Longrightarrow> digit_char d \<noteq> CHR ''/''" "d < 10 \<Longrightarrow> digit_char d \<noteq> CHR ''.''"
    "d < 10 \<Longrightarrow> digit_char d \<noteq> CHR ''_''"
    by (rule *; simp)+
qed

lemma nat_dec_nonempty [simp]: "nat_dec n \<noteq> []"
  by (subst nat_dec.simps) simp

lemma nat_dec_digits: "c \<in> set (nat_dec n) \<Longrightarrow> \<exists>d<10. c = digit_char d"
proof (induction n rule: nat_dec.induct)
  case (1 n)
  show ?case
  proof (cases "n < 10")
    case True
    with 1(2) show ?thesis by (subst (asm) nat_dec.simps) auto
  next
    case False
    with 1(2) have "c \<in> set (nat_dec (n div 10)) \<or> c = digit_char (n mod 10)"
      by (subst (asm) nat_dec.simps) auto
    moreover have "n mod 10 < 10" by simp
    ultimately show ?thesis using 1(1)[OF False] by blast
  qed
qed

lemma nat_dec_no_sep [simp]:
  "CHR ''-'' \<notin> set (nat_dec n)" "CHR ''+'' \<notin> set (nat_dec n)" "CHR ''/'' \<notin> set (nat_dec n)"
  "CHR ''.'' \<notin> set (nat_dec n)" "CHR ''_'' \<notin> set (nat_dec n)"
  using nat_dec_digits by (metis digit_char_neq_sign)+

lemma parse_digits_append:
  "parse_digits mx n (xs @ ys) =
     (case parse_digits mx n xs of (m, None) \<Rightarrow> parse_digits mx m ys | (m, Some e) \<Rightarrow> (m, Some e))"
  by (induction xs arbitrary: n) (auto split: option.splits)

lemma parse_digits_nat_dec: "n \<le> mx \<Longrightarrow> parse_digits mx 0 (nat_dec n) = (n, None)"
proof (induction n rule: nat_dec.induct)
  case (1 n)
  show ?case
  proof (cases "n < 10")
    case True
    with "1.prems" show ?thesis by (subst nat_dec.simps) simp
  next
    case False
    have "n div 10 \<le> mx" using "1.prems" by (meson div_le_dividend le_trans)
    with 1(1)[OF False] have "parse_digits mx 0 (nat_dec (n div 10)) = (n div 10, None)" .
    moreover have "n div 10 * 10 + n mod 10 = n" by simp
    ultimately show ?thesis using False "1.prems"
      by (subst nat_dec.simps) (simp add: parse_digits_append)
  qed
qed

lemma hd_nat_dec_not_sign [simp]: "hd (nat_dec n) \<noteq> CHR ''-''" "hd (nat_dec n) \<noteq> CHR ''+''"
  using nat_dec_no_sep hd_in_set[OF nat_dec_nonempty] by metis+

text \<open>Printing and parsing are inverse on the signed integers of the given width.\<close>

lemma parseInt_itoa:
  assumes "0 < bits" "- (2 ^ (bits - 1)) \<le> i" "i < 2 ^ (bits - 1)"
  shows "parseInt (itoa i) bits = (i, None)"
proof -
  have dbl: "(2::nat) ^ bits = 2 * 2 ^ (bits - 1)" using assms(1)
    by (metis One_nat_def Suc_pred power_Suc)
  have pow: "(1::nat) \<le> 2 ^ (bits - 1)" by simp
  have le: "nat \<bar>i\<bar> \<le> 2 ^ (bits - 1)"
    using assms(2,3) by (simp add: nat_le_iff abs_le_iff)
  then have "nat \<bar>i\<bar> \<le> 2 ^ bits - 1" using pow dbl by linarith
  then have pd: "parseUint bits (nat_dec (nat \<bar>i\<bar>)) = (nat \<bar>i\<bar>, None)"
    by (simp add: parseUint_def parse_digits_nat_dec)
  show ?thesis
  proof (cases "i < 0")
    case True
    with pd le show ?thesis by (simp add: parseInt_def itoa_def Let_def)
  next
    case False
    with assms(3) have "nat \<bar>i\<bar> < 2 ^ (bits - 1)" by (simp add: nat_less_iff)
    with pd False show ?thesis by (simp add: parseInt_def itoa_def Let_def)
  qed
qed

lemma nat_dec_inject [simp]: "nat_dec m = nat_dec n \<longleftrightarrow> m = n"
  using parse_digits_nat_dec[of m "max m n"] parse_digits_nat_dec[of n "max m n"]
  by (metis max.cobounded1 max.cobounded2 prod.inject)

lemma itoa_inject [simp]: "itoa i = itoa j \<longleftrightarrow> i = j"
proof -
  have "\<And>a b. CHR ''-'' # nat_dec a \<noteq> nat_dec b"
    by (metis list.set_intros(1) nat_dec_no_sep(1))
  then show ?thesis by (auto simp: itoa_def) (metis \<open>\<And>a b. CHR ''-'' # nat_dec a \<noteq> nat_dec b\<close>)
qed

lemma itoa_nonempty [simp]: "itoa i \<noteq> []"
  by (simp add: itoa_def)

lemma itoa_no_sep [simp]:
  "CHR ''/'' \<notin> set (itoa i)" "CHR ''.'' \<notin> set (itoa i)" "CHR ''_'' \<notin> set (itoa i)"
  by (auto simp: itoa_def)

section \<open>strings\<close>

text \<open>\<open>strings.Join\<close>.\<close>

fun join :: "string list \<Rightarrow> string \<Rightarrow> string" where
  "join [] sep = []"
| "join [x] sep = x"
| "join (x # y # xs) sep = x @ sep @ join (y # xs) sep"

text \<open>
  \<open>strings.Split\<close> for a separator that is not empty (the only use in the sources): the
  leftmost occurrences cut, without overlap.
\<close>

fun split_acc :: "string \<Rightarrow> string \<Rightarrow> string \<Rightarrow> string list" where
  "split_acc sep acc [] = [rev acc]"
| "split_acc sep acc (c # cs) =
     (if prefix sep (c # cs) then rev acc # split_acc sep [] (drop (length sep - 1) cs)
      else split_acc sep (c # acc) cs)"

definition split :: "string \<Rightarrow> string \<Rightarrow> string list" where
  "split s sep = split_acc sep [] s"

fun contains :: "string \<Rightarrow> string \<Rightarrow> bool" where
  "contains [] sub = (sub = [])"
| "contains (c # cs) sub = (prefix sub (c # cs) \<or> contains cs sub)"

lemma join_Cons: "xs \<noteq> [] \<Longrightarrow> join (x # xs) sep = x @ sep @ join xs sep"
  by (cases xs) auto

lemma split_acc_free:
  assumes "sep \<noteq> []" "hd sep \<notin> set xs"
  shows "split_acc sep acc xs = [rev acc @ xs]"
  using assms(2)
proof (induction xs arbitrary: acc)
  case (Cons c cs)
  then have "\<not> prefix sep (c # cs)" using assms(1) by (cases sep) auto
  with Cons show ?case by simp
qed simp

lemma split_acc_sep:
  assumes "sep \<noteq> []" "hd sep \<notin> set xs"
  shows "split_acc sep acc (xs @ sep @ ys) = (rev acc @ xs) # split_acc sep [] ys"
  using assms(2)
proof (induction xs arbitrary: acc)
  case Nil
  obtain c cs where sep: "sep = c # cs" using assms(1) by (cases sep) auto
  then have "drop (length sep - 1) (cs @ ys) = ys" by simp
  with sep show ?case by simp
next
  case (Cons c cs)
  then have "\<not> prefix sep (c # cs @ sep @ ys)" using assms(1) by (cases sep) auto
  with Cons show ?case by simp
qed

text \<open>
  Joining and splitting are inverse on a list that is not empty when no element holds the
  separator's first character.
\<close>

lemma split_join:
  assumes "xs \<noteq> []" "sep \<noteq> []" "\<And>x. x \<in> set xs \<Longrightarrow> hd sep \<notin> set x"
  shows "split (join xs sep) sep = xs"
  using assms(1,3)
proof (induction xs)
  case (Cons x xs)
  show ?case
  proof (cases "xs = []")
    case True
    with Cons.prems assms(2) show ?thesis by (simp add: split_def split_acc_free)
  next
    case False
    with Cons assms(2) show ?thesis by (simp add: split_def join_Cons split_acc_sep)
  qed
qed simp

section \<open>path.Clean\<close>

text \<open>
  \<open>path.Clean\<close>, by its documented rules on the slash-separated elements: empty and
  \<open>.\<close> elements go, \<open>..\<close> removes the element before it, and at the root of a rooted
  path it is dropped.
\<close>

definition clean_step :: "bool \<Rightarrow> string \<Rightarrow> string list \<Rightarrow> string list" where
  "clean_step rooted c st =
     (if c = [] \<or> c = ''.'' then st
      else if c = ''..'' then
        (case st of
           [] \<Rightarrow> (if rooted then [] else [''..''])
         | x # xs \<Rightarrow> (if x = ''..'' then ''..'' # st else xs))
      else c # st)"

definition path_Clean :: "string \<Rightarrow> string" where
  "path_Clean s =
     (if s = [] then ''.''
      else
        let rooted = (hd s = CHR ''/'');
            out = join (rev (fold (clean_step rooted) (split s ''/'') [])) ''/''
        in if rooted then CHR ''/'' # out else if out = [] then ''.'' else out)"

text \<open>An element that cleaning keeps: not empty, no slash, neither \<open>.\<close> nor \<open>..\<close>.\<close>

definition plain_elem :: "string \<Rightarrow> bool" where
  "plain_elem c \<longleftrightarrow> c \<noteq> [] \<and> CHR ''/'' \<notin> set c \<and> c \<noteq> ''.'' \<and> c \<noteq> ''..''"

lemma fold_clean_plain:
  "\<forall>c\<in>set cs. plain_elem c \<Longrightarrow> fold (clean_step r) cs st = rev cs @ st"
  by (induction cs arbitrary: st) (auto simp: clean_step_def plain_elem_def)

lemma path_Clean_plain:
  assumes "cs \<noteq> []" "\<And>c. c \<in> set cs \<Longrightarrow> plain_elem c"
  shows "path_Clean (CHR ''/'' # join cs ''/'') = CHR ''/'' # join cs ''/''"
proof -
  have "split (CHR ''/'' # join cs ''/'') ''/'' = [] # split (join cs ''/'') ''/''"
    using split_acc_sep[of "''/''" "[]" "[]" "join cs ''/''"] by (simp add: split_def)
  also have "split (join cs ''/'') ''/'' = cs"
    using assms by (intro split_join) (auto simp: plain_elem_def)
  finally show ?thesis
    using assms(2) by (simp add: path_Clean_def clean_step_def fold_clean_plain Let_def)
qed

lemma plain_elem_indexed: "CHR ''/'' \<notin> set name \<Longrightarrow> plain_elem (name @ itoa i)"
proof -
  assume a: "CHR ''/'' \<notin> set name"
  have "last (name @ itoa i) \<in> set (itoa i)" by simp
  then have "last (name @ itoa i) \<noteq> CHR ''.''" by (metis itoa_no_sep(2))
  then have "name @ itoa i \<noteq> ''.''" "name @ itoa i \<noteq> ''..''" by force+
  with a show ?thesis by (simp add: plain_elem_def)
qed

section \<open>Lists\<close>

lemma append_sep_inject:
  "c \<notin> set xs \<Longrightarrow> c \<notin> set ys \<Longrightarrow> xs @ c # a = ys @ c # b \<longleftrightarrow> xs = ys \<and> a = b"
proof (induction xs arbitrary: ys)
  case Nil
  then show ?case by (cases ys) auto
next
  case (Cons x xs)
  then show ?case by (cases ys) auto
qed

lemma filter_all_removed: "(\<And>x. x \<in> set xs \<Longrightarrow> \<not> P x) \<Longrightarrow> filter P xs = []"
  by (simp add: filter_empty_conv)

end
