(* ===== verification/Kube_Types.thy ===== *)
theory Kube_Types
  imports Go_Prelude
begin

text \<open>
  The Kubernetes objects the program handles, restricted to the fields its sources read or
  write. The type variable \<open>'q\<close> stands for \<open>resource.Quantity\<close>, a type of the
  Kubernetes libraries. A Go map that may be nil (labels) is an option: \<open>None\<close> is the nil
  map, from which every read misses and to which a write panics. A nil slice is the empty list,
  since the sources treat the two alike. A pointer field is an option.

  The label names and defaults are those of \<open>pkg/defaults/defaults.go\<close>,
  \<open>pkg/fluxqueue/defaults/defaults.go\<close> and \<open>pkg/fluxqueue/labels/labels.go\<close>.
\<close>

section \<open>Objects\<close>

type_synonym 'q resource_list = "string \<rightharpoonup> 'q"

record 'q container =
  c_Name :: string
  c_Requests :: "'q resource_list"
  c_Limits :: "'q resource_list"
  c_RestartPolicy :: "string option"

record 'q container_status =
  cs_Name :: string
  cs_Resources :: "'q resource_list option"

record object_meta =
  om_Name :: string
  om_Namespace :: string
  om_Labels :: "labels option"
  om_CreationTimestamp :: "int option"

record 'q pod_spec =
  ps_SchedulingGates :: "string list"
  ps_SchedulerName :: string
  ps_ActiveDeadlineSeconds :: "int option"
  ps_Containers :: "'q container list"
  ps_InitContainers :: "'q container list"
  ps_Overhead :: "'q resource_list option"

record 'q pod =
  pod_Meta :: object_meta
  pod_Spec :: "'q pod_spec"
  pod_ContainerStatuses :: "'q container_status list"
  pod_Resize :: string

record 'q pod_template =
  pt_Labels :: "labels option"
  pt_Spec :: "'q pod_spec"

record 'q batch_job =
  job_Meta :: object_meta
  job_Suspend :: "bool option"
  job_Parallelism :: "int32 option"
  job_Template :: "'q pod_template"

text \<open>Deployments, replica sets and stateful sets: the sources use the same fields of each.\<close>

record 'q workload =
  wl_Meta :: object_meta
  wl_Replicas :: "int32 option"
  wl_Template :: "'q pod_template"

section \<open>Label maps\<close>

definition label_get :: "labels option \<Rightarrow> string \<Rightarrow> string option" where
  "label_get m k = (case m of None \<Rightarrow> None | Some l \<Rightarrow> l k)"

definition label_init :: "labels option \<Rightarrow> labels" where
  "label_init m = (case m of None \<Rightarrow> Map.empty | Some l \<Rightarrow> l)"

lemma label_get_simps [simp]:
  "label_get None k = None" "label_get (Some l) k = l k"
  by (simp_all add: label_get_def)

lemma label_init_lookup [simp]: "label_init m k = label_get m k"
  by (simp add: label_init_def label_get_def split: option.splits)

abbreviation pod_Name :: "'q pod \<Rightarrow> string" where "pod_Name p \<equiv> om_Name (pod_Meta p)"
abbreviation pod_Namespace :: "'q pod \<Rightarrow> string" where "pod_Namespace p \<equiv> om_Namespace (pod_Meta p)"
abbreviation pod_Labels :: "'q pod \<Rightarrow> labels option" where "pod_Labels p \<equiv> om_Labels (pod_Meta p)"
abbreviation pod_Gates :: "'q pod \<Rightarrow> string list" where "pod_Gates p \<equiv> ps_SchedulingGates (pod_Spec p)"

section \<open>Names shared by the components\<close>

definition SchedulingGateName :: string where "SchedulingGateName = ''fluxqueue''"
definition SchedulerName :: string where "SchedulerName = ''FluxionScheduler''"
definition FluxJobIdLabel :: string where "FluxJobIdLabel = ''fluxqueue/jobid''"
definition NodesLabel :: string where "NodesLabel = ''fluxqueue/fluxion-nodes''"
definition SeenLabel :: string where "SeenLabel = ''fluxqueue.seen''"
definition SelectorLabel :: string where "SelectorLabel = ''fluxqueue.selector''"
definition UnschedulableLabel :: string where "UnschedulableLabel = ''fluxqueue/unschedulable''"

definition MaxAttempts :: int where "MaxAttempts = 32767"
definition MaxCancelAttempts :: int where "MaxCancelAttempts = 3"

lemmas label_name_defs = FluxJobIdLabel_def NodesLabel_def SeenLabel_def SelectorLabel_def
  UnschedulableLabel_def

text \<open>The labels of the program never overwrite each other.\<close>

lemma labels_distinct [simp]:
  "distinct [FluxJobIdLabel, NodesLabel, SeenLabel, SelectorLabel, UnschedulableLabel]"
  by (simp add: label_name_defs)

lemma label_neqs [simp]:
  "FluxJobIdLabel \<noteq> NodesLabel" "NodesLabel \<noteq> FluxJobIdLabel"
  "NodesLabel \<noteq> UnschedulableLabel" "UnschedulableLabel \<noteq> NodesLabel"
  "FluxJobIdLabel \<noteq> UnschedulableLabel" "UnschedulableLabel \<noteq> FluxJobIdLabel"
  "SeenLabel \<noteq> SelectorLabel" "SelectorLabel \<noteq> SeenLabel"
  by (simp_all add: label_name_defs)

end
