(* ===== verification/Flux_Types.thy ===== *)
theory Flux_Types
  imports Kube_Types
begin

text \<open>
  The FluxJob custom resource of \<open>api/v1alpha1/fluxjob_types.go\<close>: the kinds of wrapped
  objects, the submit status, and the name a FluxJob gets from the object it wraps.
\<close>

section \<open>Wrapped kinds and names\<close>

type_synonym jobWrapped = int
type_synonym submitStatus = string

definition JobWrappedPod :: jobWrapped where "JobWrappedPod = 0"
definition JobWrappedJob :: jobWrapped where "JobWrappedJob = 1"
definition JobWrappedDeployment :: jobWrapped where "JobWrappedDeployment = 2"
definition JobWrappedReplicaSet :: jobWrapped where "JobWrappedReplicaSet = 3"
definition JobWrappedStatefulSet :: jobWrapped where "JobWrappedStatefulSet = 4"

definition SubmitStatusNew :: submitStatus where "SubmitStatusNew = ''statusNew''"
definition SubmitStatusSubmit :: submitStatus where "SubmitStatusSubmit = ''statusSubmit''"
definition SubmitStatusError :: submitStatus where "SubmitStatusError = ''statusError''"
definition SubmitStatusCancel :: submitStatus where "SubmitStatusCancel = ''statusCancel''"

definition jobWrapped_String :: "jobWrapped \<Rightarrow> string" where
  "jobWrapped_String w = itoa w"

definition GetJobName :: "jobWrapped \<Rightarrow> string \<Rightarrow> string" where
  "GetJobName jobType name =
     (if jobType = JobWrappedJob then name @ ''-job''
      else if jobType = JobWrappedPod then name @ ''-pod''
      else if jobType = JobWrappedDeployment then name @ ''-deployment''
      else if jobType = JobWrappedReplicaSet then name @ ''-replicaset''
      else if jobType = JobWrappedStatefulSet then name @ ''-statefulset''
      else name @ ''-unknown'')"

section \<open>The FluxJob resource\<close>

record fluxJobSpec =
  fs_JobSpec :: string
  fs_Type :: jobWrapped
  fs_Name :: string
  fs_Object :: string
  fs_Duration :: int32
  fs_Reservation :: bool
  fs_Nodes :: int32
  fs_Resources :: "string list"

record fluxJob =
  fj_Name :: string
  fj_Namespace :: string
  fj_Spec :: fluxJobSpec
  fj_Status :: submitStatus

section \<open>Facts\<close>

lemmas jobWrapped_defs = JobWrappedPod_def JobWrappedJob_def JobWrappedDeployment_def
  JobWrappedReplicaSet_def JobWrappedStatefulSet_def

lemmas submitStatus_defs = SubmitStatusNew_def SubmitStatusSubmit_def SubmitStatusError_def
  SubmitStatusCancel_def

definition known_type :: "jobWrapped \<Rightarrow> bool" where
  "known_type w \<longleftrightarrow> w \<in> {JobWrappedPod, JobWrappedJob, JobWrappedDeployment,
     JobWrappedReplicaSet, JobWrappedStatefulSet}"

lemma jobWrapped_String_inject [simp]: "jobWrapped_String a = jobWrapped_String b \<longleftrightarrow> a = b"
  by (simp add: jobWrapped_String_def)

lemma submitStatus_neq [simp]:
  "SubmitStatusError \<noteq> SubmitStatusSubmit" "SubmitStatusSubmit \<noteq> SubmitStatusError"
  "SubmitStatusNew \<noteq> SubmitStatusSubmit" "[] \<noteq> SubmitStatusSubmit" "SubmitStatusSubmit \<noteq> []"
  "SubmitStatusSubmit \<noteq> SubmitStatusNew"
  by (simp_all add: submitStatus_defs)

text \<open>
  The name determines both the kind and the original name, for the five kinds the webhook
  submits: no two wrapped objects of a namespace share a FluxJob.
\<close>

lemma GetJobName_inject:
  assumes "known_type v" "known_type w" "GetJobName v m = GetJobName w n"
  shows "v = w \<and> m = n"
proof -
  have rev_eq: "rev (GetJobName v m) = rev (GetJobName w n)" using assms(3) by simp
  from assms(1,2) rev_eq show ?thesis
    by (auto simp: known_type_def GetJobName_def jobWrapped_defs)
qed

end
