(* ===== verification/Database.thy ===== *)
theory Database
  imports Flux_Types "HOL-Library.Multiset"
begin

text \<open>
  The two Postgres tables of \<open>build/postgres/create-tables.sql\<close> and the statements of
  \<open>pkg/fluxqueue/queries/queries.go\<close> that run on them, with the row models of
  \<open>pkg/fluxqueue/types/types.go\<close>. Each SQL text is one definition on the table's rows; the
  unique index on \<open>(name, namespace)\<close> is the error branch of the insert. A connection that
  fails is no matter of these definitions: the callers take such faults as arguments.
\<close>

section \<open>Tables\<close>

record pendingRow =
  pq_jobspec :: string
  pq_namespace :: string
  pq_flux_job_name :: string
  pq_name :: string
  pq_type :: int
  pq_reservation :: int32
  pq_duration :: int32
  pq_created_at :: int
  pq_size :: int32

record reservationRow =
  rs_name :: string
  rs_flux_id :: int

record db =
  db_pending :: "pendingRow list"
  db_reservations :: "reservationRow list"
  db_now :: int

type_synonym key = "string \<times> string"

definition row_key :: "pendingRow \<Rightarrow> key" where
  "row_key r = (pq_namespace r, pq_name r)"

section \<open>Statements\<close>

definition IsPendingQuery :: "string \<Rightarrow> string \<Rightarrow> pendingRow list \<Rightarrow> pendingRow list" where
  "IsPendingQuery name namespace t =
     filter (\<lambda>r. pq_name r = name \<and> pq_namespace r = namespace) t"

text \<open>The command tag Postgres reports for a \<open>select\<close> with these rows.\<close>

definition select_tag :: "'r list \<Rightarrow> string" where
  "select_tag rows = ''SELECT '' @ itoa (int (length rows))"

definition InsertIntoPending :: "pendingRow \<Rightarrow> pendingRow list \<Rightarrow> pendingRow list result" where
  "InsertIntoPending row t =
     (if row_key row \<in> set (map row_key t) then Inl (UniqueViolation ''pending_index'')
      else Inr (t @ [row]))"

definition DeleteFromPendingQuery :: "string \<Rightarrow> string \<Rightarrow> pendingRow list \<Rightarrow> pendingRow list" where
  "DeleteFromPendingQuery name namespace t =
     filter (\<lambda>r. \<not> (pq_name r = name \<and> pq_namespace r = namespace)) t"

text \<open>
  \<open>order by created_at desc\<close>. Rows with the same timestamp are given in table order, a
  choice the statement leaves open.
\<close>

definition SelectPendingByCreation :: "pendingRow list \<Rightarrow> pendingRow list" where
  "SelectPendingByCreation t = sort_key (\<lambda>r. - pq_created_at r) t"

text \<open>The column \<open>flux_id\<close> is a 32-bit integer: a larger id cannot be stored.\<close>

definition AddReservationQuery :: "string \<Rightarrow> int \<Rightarrow> reservationRow list \<Rightarrow> reservationRow list result" where
  "AddReservationQuery name fluxID t =
     (if - (2 ^ 31) \<le> fluxID \<and> fluxID < 2 ^ 31
      then Inr (t @ [\<lparr>rs_name = name, rs_flux_id = fluxID\<rparr>])
      else Inl (Errorf ''value out of range for int4''))"

definition DeleteSingleReservationsQuery :: "int \<Rightarrow> reservationRow list \<Rightarrow> reservationRow list" where
  "DeleteSingleReservationsQuery fluxID t = filter (\<lambda>r. rs_flux_id r \<noteq> fluxID) t"

text \<open>
  A result set as a driver sees it: column names and rows of values. The parentheses of
  \<open>select (name, flux_id) from reservations\<close> build one composite value, so the result has a
  single column, which Postgres names \<open>row\<close>.
\<close>

datatype sql_value = SText string | SInt int | SRow "sql_value list"

record result_set =
  rset_columns :: "string list"
  rset_rows :: "sql_value list list"

text \<open>\<open>truncate reservations; delete from reservations;\<close>\<close>

definition DeleteReservationsQuery :: "reservationRow list \<Rightarrow> reservationRow list" where
  "DeleteReservationsQuery t = []"

definition GetReservationsQuery :: "reservationRow list \<Rightarrow> result_set" where
  "GetReservationsQuery t =
     \<lparr>rset_columns = [''row''],
      rset_rows = map (\<lambda>r. [SRow [SText (rs_name r), SInt (rs_flux_id r)]]) t\<rparr>"

section \<open>Well-formed tables\<close>

text \<open>The unique index holds: no two pending rows share name and namespace.\<close>

definition pending_wf :: "pendingRow list \<Rightarrow> bool" where
  "pending_wf t \<longleftrightarrow> distinct (map row_key t)"

text \<open>
  The interface the queue relies on: a table with keyed rows, an insert that refuses a key in
  use, a delete by key, and a listing of all rows.
\<close>

locale pending_table =
  fixes ins :: "'row \<Rightarrow> 't \<Rightarrow> 't result"
    and del :: "string \<Rightarrow> string \<Rightarrow> 't \<Rightarrow> 't"
    and sel :: "'t \<Rightarrow> 'row list"
    and rows :: "'t \<Rightarrow> 'row list"
    and rkey :: "'row \<Rightarrow> key"
    and wf :: "'t \<Rightarrow> bool"
  assumes ins_rows: "ins r t = Inr t' \<Longrightarrow> mset (rows t') = add_mset r (mset (rows t))"
    and ins_wf: "wf t \<Longrightarrow> ins r t = Inr t' \<Longrightarrow> wf t'"
    and ins_refused: "(\<exists>e. ins r t = Inl e) \<longleftrightarrow> rkey r \<in> rkey ` set (rows t)"
    and del_rows: "mset (rows (del n ns t)) = filter_mset (\<lambda>r. rkey r \<noteq> (ns, n)) (mset (rows t))"
    and del_wf: "wf t \<Longrightarrow> wf (del n ns t)"
    and sel_rows: "mset (sel t) = mset (rows t)"
    and wf_distinct: "wf t \<Longrightarrow> distinct (map rkey (rows t))"
begin

fun del_all :: "key list \<Rightarrow> 't \<Rightarrow> 't" where
  "del_all [] t = t"
| "del_all (k # ks) t = del_all ks (del (snd k) (fst k) t)"

lemma del_all_rows:
  "mset (rows (del_all ks t)) = filter_mset (\<lambda>r. rkey r \<notin> set ks) (mset (rows t))"
proof (induction ks arbitrary: t)
  case (Cons k ks)
  have "{#r \<in># {#r \<in># M. rkey r \<noteq> k#}. rkey r \<notin> set ks#} = {#r \<in># M. rkey r \<notin> set (k # ks)#}" for M
    by (induction M) auto
  with Cons show ?case by (simp add: del_rows)
qed simp

lemma sel_set: "set (sel t) = set (rows t)"
  using sel_rows mset_eq_setD by blast

text \<open>Deleting every selected row empties the table.\<close>

lemma del_all_selected: "rows (del_all (map rkey (sel t)) t) = []"
proof -
  have "set (rows (del_all (map rkey (sel t)) t)) = {}"
    using del_all_rows[of "map rkey (sel t)" t]
    by (auto simp: sel_rows simp flip: set_mset_mset)
  then show ?thesis by simp
qed

text \<open>A key that was refused can be inserted once it is deleted.\<close>

lemma ins_after_del: "\<exists>t'. ins r (del (snd (rkey r)) (fst (rkey r)) t) = Inr t'"
proof -
  have "mset (rows (del (snd (rkey r)) (fst (rkey r)) t)) = {#x \<in># mset (rows t). rkey x \<noteq> rkey r#}"
    by (simp add: del_rows)
  then have "rkey r \<notin> rkey ` set (rows (del (snd (rkey r)) (fst (rkey r)) t))"
    by (auto simp flip: set_mset_mset)
  then show ?thesis using ins_refused by (metis sum.exhaust)
qed

end

lemma row_key_conv: "(pq_name r = n \<and> pq_namespace r = ns) = (row_key r = (ns, n))"
  by (auto simp: row_key_def)

lemma pending_wf_insert: "pending_wf t \<Longrightarrow> InsertIntoPending r t = Inr t' \<Longrightarrow> pending_wf t'"
  by (auto simp: InsertIntoPending_def pending_wf_def split: if_splits)

lemma pending_wf_delete: "pending_wf t \<Longrightarrow> pending_wf (DeleteFromPendingQuery n ns t)"
  by (simp add: DeleteFromPendingQuery_def pending_wf_def distinct_map_filter)

interpretation pending: pending_table InsertIntoPending DeleteFromPendingQuery
  SelectPendingByCreation "\<lambda>t. t" row_key pending_wf
proof unfold_locales
  fix r t t' n ns
  show "InsertIntoPending r t = Inr t' \<Longrightarrow> mset t' = add_mset r (mset t)"
    by (auto simp: InsertIntoPending_def split: if_splits)
  show "pending_wf t \<Longrightarrow> InsertIntoPending r t = Inr t' \<Longrightarrow> pending_wf t'"
    by (rule pending_wf_insert)
  show "(\<exists>e. InsertIntoPending r t = Inl e) = (row_key r \<in> row_key ` set t)"
    by (simp add: InsertIntoPending_def)
  show "mset (DeleteFromPendingQuery n ns t) = {#r \<in># mset t. row_key r \<noteq> (ns, n)#}"
    by (simp add: DeleteFromPendingQuery_def row_key_conv)
  show "pending_wf t \<Longrightarrow> pending_wf (DeleteFromPendingQuery n ns t)"
    by (rule pending_wf_delete)
  show "mset (SelectPendingByCreation t) = mset t"
    by (simp add: SelectPendingByCreation_def)
  show "pending_wf t \<Longrightarrow> distinct (map row_key t)"
    by (simp add: pending_wf_def)
qed

text \<open>The listing is newest first.\<close>

lemma SelectPendingByCreation_newest_first:
  "sorted_wrt (\<lambda>a b. pq_created_at b \<le> pq_created_at a) (SelectPendingByCreation t)"
proof -
  have "sorted (map (\<lambda>r. - pq_created_at r) (SelectPendingByCreation t))"
    by (simp add: SelectPendingByCreation_def)
  then show ?thesis by (simp add: sorted_wrt_map)
qed

lemma SelectPendingByCreation_empty [simp]: "SelectPendingByCreation t = [] \<longleftrightarrow> t = []"
  by (metis SelectPendingByCreation_def set_empty set_sort)

text \<open>Reservations: storing and deleting one id.\<close>

lemma AddReservation_then_delete:
  "AddReservationQuery n i t = Inr t' \<Longrightarrow>
   DeleteSingleReservationsQuery i t' = DeleteSingleReservationsQuery i t"
  by (auto simp: AddReservationQuery_def DeleteSingleReservationsQuery_def split: if_splits)

end
