(* ===== verification/Strategy.thy ===== *)
theory Strategy
  imports Database
begin

text \<open>
  The queue strategies of \<open>pkg/fluxqueue/strategy\<close>: the arguments of the river jobs
  (\<open>workers/*.go\<close>), the interface \<open>QueueStrategy\<close> (\<open>strategy.go\<close>) as a
  record of operations, and its one implementation \<open>EasyBackfill\<close> (\<open>easy.go\<close>).
  River itself is not under \<open>src/\<close>: an insert is recorded as the parameters the source
  passes, and its failure is an argument of the operation.
\<close>

section \<open>River jobs\<close>

record jobArgs =
  ja_Jobspec :: string
  ja_Name :: string
  ja_Namespace :: string
  ja_FluxJobName :: string
  ja_Type :: string
  ja_Reservation :: int32
  ja_Duration :: int32
  ja_Size :: int32
  ja_Nodes :: string

record cleanupArgs =
  ca_FluxID :: int
  ca_Podspec :: string

record ungateArgs =
  ua_Name :: string
  ua_Type :: string
  ua_Namespace :: string
  ua_Nodes :: "string list"
  ua_JobID :: int

datatype riverArgs = AJob jobArgs | ACleanup cleanupArgs | AReservation | AUngate ungateArgs

text \<open>Each type of arguments has its method \<open>Kind\<close>.\<close>

definition JobArgs_Kind :: string where [simp]: "JobArgs_Kind = ''job''"
definition CleanupArgs_Kind :: string where [simp]: "CleanupArgs_Kind = ''cleanup''"
definition ReservationArgs_Kind :: string where [simp]: "ReservationArgs_Kind = ''reservation''"
definition UngateArgs_Kind :: string where [simp]: "UngateArgs_Kind = ''ungate''"

fun Kind :: "riverArgs \<Rightarrow> string" where
  "Kind (AJob _) = JobArgs_Kind"
| "Kind (ACleanup _) = CleanupArgs_Kind"
| "Kind AReservation = ReservationArgs_Kind"
| "Kind (AUngate _) = UngateArgs_Kind"

text \<open>An option that the source leaves out of the literal has its zero value.\<close>

record insertOpts =
  io_MaxAttempts :: int
  io_Tags :: "string list"
  io_Queue :: string

record insertManyParams =
  im_Args :: riverArgs
  im_Opts :: insertOpts

definition QueueDefault :: string where "QueueDefault = ''default''"

section \<open>The strategy interface\<close>

text \<open>
  What may fail in one call of a queue operation: creating the pool, each statement, scanning
  the rows, the river insert, and the delete of one pending row.
\<close>

record faults =
  ft_pool :: "go_error option"
  ft_isPending :: "go_error option"
  ft_insertPending :: "go_error option"
  ft_select :: "go_error option"
  ft_collect :: "go_error option"
  ft_insertMany :: "go_error option"
  ft_delete :: "string \<Rightarrow> string \<Rightarrow> go_error option"

definition no_faults :: faults where
  "no_faults = \<lparr>ft_pool = None, ft_isPending = None, ft_insertPending = None, ft_select = None,
     ft_collect = None, ft_insertMany = None, ft_delete = (\<lambda>_ _. None)\<rparr>"

record queueStrategy =
  st_Name :: string
  st_AddWorkers :: "string list \<Rightarrow> string list result"
  st_Schedule :: "faults \<Rightarrow> db \<Rightarrow> int32 \<Rightarrow> insertManyParams list result"
  st_PostSubmit :: "faults \<Rightarrow> db \<Rightarrow> go_error option"
  st_Cleanup :: "faults \<Rightarrow> int list \<Rightarrow> insertManyParams list \<Rightarrow> go_error option \<times> insertManyParams list"
  st_GetReservationDepth :: int32

section \<open>EasyBackfill\<close>

definition easy_Name :: string where "easy_Name = ''easy''"

definition easy_GetReservationDepth :: int32 where "easy_GetReservationDepth = 1"

text \<open>
  The four workers and their constructors, none of which fails; the configuration for the
  Kubernetes API that two of them keep is one for the whole process and is left out. The workers
  registered so far are their kinds, in order.
\<close>

datatype worker = JobWorker | CleanupWorker | ReservationWorker | UngateWorker

fun worker_kind :: "worker \<Rightarrow> string" where
  "worker_kind JobWorker = JobArgs_Kind"
| "worker_kind CleanupWorker = CleanupArgs_Kind"
| "worker_kind ReservationWorker = ReservationArgs_Kind"
| "worker_kind UngateWorker = UngateArgs_Kind"

definition NewJobWorker :: "worker result" where "NewJobWorker = Inr JobWorker"
definition NewCleanupWorker :: "worker result" where "NewCleanupWorker = Inr CleanupWorker"
definition NewReservationWorker :: "worker result" where "NewReservationWorker = Inr ReservationWorker"
definition NewUngateWorker :: "worker result" where "NewUngateWorker = Inr UngateWorker"

definition easy_AddWorkers :: "string list \<Rightarrow> string list result" where
  "easy_AddWorkers workers =
     (case NewJobWorker of Inl err \<Rightarrow> Inl err | Inr jobWorker \<Rightarrow>
      (case NewCleanupWorker of Inl err \<Rightarrow> Inl err | Inr cleanupWorker \<Rightarrow>
       (case NewReservationWorker of Inl err \<Rightarrow> Inl err | Inr reservationWorker \<Rightarrow>
        (case NewUngateWorker of Inl err \<Rightarrow> Inl err | Inr ungateWorker \<Rightarrow>
          Inr (workers @ map worker_kind [jobWorker, cleanupWorker, reservationWorker, ungateWorker])))))"

text \<open>
  A row of the listing scanned by the names of its columns; the integer column \<open>type\<close> is scanned
  into a string field as its decimal text.
\<close>

record jobModel =
  jm_JobSpec :: string
  jm_FluxJobName :: string
  jm_Name :: string
  jm_Namespace :: string
  jm_Type :: string
  jm_Reservation :: int32
  jm_Duration :: int32
  jm_Size :: int32

definition scan_JobModel :: "pendingRow \<Rightarrow> jobModel" where
  [simp]: "scan_JobModel r =
     \<lparr>jm_JobSpec = pq_jobspec r, jm_FluxJobName = pq_flux_job_name r, jm_Name = pq_name r, jm_Namespace = pq_namespace r,
      jm_Type = itoa (pq_type r), jm_Reservation = pq_reservation r, jm_Duration = pq_duration r, jm_Size = pq_size r\<rparr>"

text \<open>The model is copied into job arguments.\<close>

definition row_jobArgs :: "pendingRow \<Rightarrow> jobArgs" where
  "row_jobArgs r = (let model = scan_JobModel r in
     \<lparr>ja_Jobspec = jm_JobSpec model, ja_Name = jm_Name model, ja_Namespace = jm_Namespace model,
      ja_FluxJobName = jm_FluxJobName model, ja_Type = jm_Type model,
      ja_Reservation = jm_Reservation model, ja_Duration = jm_Duration model, ja_Size = jm_Size model,
      ja_Nodes = []\<rparr>)"

definition easy_ReadyJobs :: "faults \<Rightarrow> db \<Rightarrow> jobArgs list result" where
  "easy_ReadyJobs f d =
     (case ft_select f of
        Some e \<Rightarrow> Inl e
      | None \<Rightarrow> (case ft_collect f of
          Some e \<Rightarrow> Inl e
        | None \<Rightarrow> Inr (map row_jobArgs (SelectPendingByCreation (db_pending d)))))"

definition easy_insertOpts :: insertOpts where
  "easy_insertOpts = \<lparr>io_MaxAttempts = MaxAttempts, io_Tags = [easy_Name], io_Queue = QueueDefault\<rparr>"

text \<open>
  The loop of \<open>Schedule\<close>. \<open>Args: jobArgs\<close> stores a copy of the struct in an
  interface value; the assignment to \<open>jobArgs.Reservation\<close> that follows changes the loop
  variable only, and the value appended to the batch is the copy made before.
\<close>

fun easy_batch :: "int32 \<Rightarrow> nat \<Rightarrow> jobArgs list \<Rightarrow> insertManyParams list \<Rightarrow> insertManyParams list" where
  "easy_batch depth i [] batch = batch"
| "easy_batch depth i (jobArgs # jobs) batch =
     (let args = \<lparr>im_Args = AJob jobArgs, im_Opts = easy_insertOpts\<rparr>;
          jobArgs' = (if depth \<noteq> - 1 \<and> sint (of_nat i :: int32) < sint depth
                      then jobArgs\<lparr>ja_Reservation := 1\<rparr> else jobArgs)
      in easy_batch depth (Suc i) jobs (batch @ [args]))"

definition easy_Schedule :: "faults \<Rightarrow> db \<Rightarrow> int32 \<Rightarrow> insertManyParams list result" where
  "easy_Schedule f d depth =
     (case easy_ReadyJobs f d of
        Inl e \<Rightarrow> Inl e
      | Inr jobs \<Rightarrow> Inr (easy_batch depth 0 jobs []))"

definition easy_PostSubmit :: "faults \<Rightarrow> db \<Rightarrow> go_error option" where
  "easy_PostSubmit f d = None"

definition easy_Cleanup ::
  "faults \<Rightarrow> int list \<Rightarrow> insertManyParams list \<Rightarrow> go_error option \<times> insertManyParams list" where
  "easy_Cleanup f fluxids river =
     (let insertOpts = \<lparr>io_MaxAttempts = MaxCancelAttempts, io_Tags = [easy_Name],
                        io_Queue = ''cleanup_queue''\<rparr>;
          cancelJobs = map (\<lambda>fluxid. \<lparr>ca_FluxID = fluxid, ca_Podspec = []\<rparr>) fluxids;
          batch = map (\<lambda>a. \<lparr>im_Args = ACleanup a, im_Opts = insertOpts\<rparr>) cancelJobs
      in if batch \<noteq> [] then
           (case ft_insertMany f of Some e \<Rightarrow> (Some e, river) | None \<Rightarrow> (None, river @ batch))
         else (None, river))"

definition EasyBackfill :: queueStrategy where
  "EasyBackfill = \<lparr>st_Name = easy_Name, st_AddWorkers = easy_AddWorkers, st_Schedule = easy_Schedule, st_PostSubmit = easy_PostSubmit,
     st_Cleanup = easy_Cleanup, st_GetReservationDepth = easy_GetReservationDepth\<rparr>"

section \<open>What the easy strategy does\<close>

text \<open>There is a worker for each kind of job that the program inserts.\<close>

lemma easy_AddWorkers_eq: "easy_AddWorkers workers = Inr (workers @ [''job'', ''cleanup'', ''reservation'', ''ungate''])"
  by (simp add: easy_AddWorkers_def NewJobWorker_def NewCleanupWorker_def NewReservationWorker_def NewUngateWorker_def)

lemma easy_AddWorkers_complete: "easy_AddWorkers [] = Inr kinds \<Longrightarrow> distinct kinds \<and> Kind args \<in> set kinds"
  by (cases args) (auto simp: easy_AddWorkers_eq)

lemma easy_batch_eq:
  "easy_batch depth i jobs batch =
     batch @ map (\<lambda>a. \<lparr>im_Args = AJob a, im_Opts = easy_insertOpts\<rparr>) jobs"
  by (induction jobs arbitrary: i batch) (simp_all add: Let_def)

lemma easy_Schedule_eq:
  "easy_Schedule f d depth =
     (case (ft_select f, ft_collect f) of
        (Some e, _) \<Rightarrow> Inl e
      | (None, Some e) \<Rightarrow> Inl e
      | (None, None) \<Rightarrow> Inr (map (\<lambda>r. \<lparr>im_Args = AJob (row_jobArgs r), im_Opts = easy_insertOpts\<rparr>)
                               (SelectPendingByCreation (db_pending d))))"
  by (simp add: easy_Schedule_def easy_ReadyJobs_def easy_batch_eq comp_def split: option.splits)

definition job_key :: "jobArgs \<Rightarrow> key" where
  "job_key a = (ja_Namespace a, ja_Name a)"

lemma job_key_row [simp]: "job_key (row_jobArgs r) = row_key r"
  by (simp add: job_key_def row_key_def row_jobArgs_def)

section \<open>The contract of a strategy\<close>

text \<open>
  What the queue relies on: a batch holds job arguments only (the queue asserts their type), one
  per pending row, and the reservation depth is at least \<open>-1\<close>.
\<close>

locale queue_strategy =
  fixes S :: queueStrategy
  assumes batch_rows: "st_Schedule S f d depth = Inr batch \<Longrightarrow>
      \<exists>jobs. map im_Args batch = map AJob jobs \<and> mset (map job_key jobs) = mset (map row_key (db_pending d))"
    and depth_valid: "- 1 \<le> sint (st_GetReservationDepth S)"
begin

lemma batch_jobs:
  assumes "st_Schedule S f d depth = Inr batch"
  obtains jobs where "map im_Args batch = map AJob jobs"
    "set (map job_key jobs) = set (map row_key (db_pending d))"
  using batch_rows[OF assms] by (metis mset_eq_setD)

lemma batch_empty_iff:
  "st_Schedule S f d depth = Inr batch \<Longrightarrow> batch = [] \<longleftrightarrow> db_pending d = []"
  using batch_rows[of f d depth batch] by (metis Nil_is_map_conv mset_zero_iff)

end

interpretation easy: queue_strategy EasyBackfill
proof unfold_locales
  fix f d depth batch
  assume "st_Schedule EasyBackfill f d depth = Inr batch"
  then have "batch = map (\<lambda>r. \<lparr>im_Args = AJob (row_jobArgs r), im_Opts = easy_insertOpts\<rparr>)
                       (SelectPendingByCreation (db_pending d))"
    by (auto simp: EasyBackfill_def easy_Schedule_eq split: option.splits)
  moreover have "mset (map row_key (SelectPendingByCreation (db_pending d))) =
      mset (map row_key (db_pending d))"
    by (metis mset_map pending.sel_rows)
  ultimately show "\<exists>jobs. map im_Args batch = map AJob jobs \<and>
      mset (map job_key jobs) = mset (map row_key (db_pending d))"
    by (intro exI[of _ "map row_jobArgs (SelectPendingByCreation (db_pending d))"]) (simp add: comp_def)
next
  show "- 1 \<le> sint (st_GetReservationDepth EasyBackfill)"
    by (simp add: EasyBackfill_def easy_GetReservationDepth_def)
qed

end
