(* ===== verification/Queue.thy ===== *)
theory Queue
  imports Strategy
begin

text \<open>
  The queue of \<open>pkg/fluxqueue/fluxqueue.go\<close> and \<open>events.go\<close>: \<open>NewQueue\<close>,
  \<open>Enqueue\<close>, \<open>Cleanup\<close>, \<open>Schedule\<close> and the mutex check
  \<open>IsInScheduleLoop\<close>. The state holds the database, the river jobs inserted so far (in
  order) and the state word of the mutex.
\<close>

section \<open>State\<close>

datatype enqueueStatus = JobEnqueueSuccess | JobAlreadyInPending | JobInvalid | Unknown

record sys =
  s_db :: db
  s_river :: "insertManyParams list"
  s_lock :: int32

record queue =
  q_Strategy :: queueStrategy
  q_ReservationDepth :: int32

unbundle bit_operations_syntax

definition mutexLocked :: int32 where "mutexLocked = 1"

definition IsInScheduleLoop :: "sys \<Rightarrow> bool" where
  "IsInScheduleLoop s \<longleftrightarrow> s_lock s AND mutexLocked = mutexLocked"

definition Lock :: "sys \<Rightarrow> sys" where
  "Lock s = s\<lparr>s_lock := s_lock s OR mutexLocked\<rparr>"

definition Unlock :: "sys \<Rightarrow> sys" where
  "Unlock s = s\<lparr>s_lock := s_lock s AND NOT mutexLocked\<rparr>"

section \<open>Operations\<close>

text \<open>The configuration of the river client: its queues with their numbers of workers, and the kinds of jobs it works on.\<close>

definition queueMaxWorkers :: int where "queueMaxWorkers = 1"
definition taskMaxWorkers :: int where "taskMaxWorkers = 1"

record riverConfig =
  rc_Queues :: "string \<rightharpoonup> int"
  rc_Workers :: "string list"

definition river_config :: "string list \<Rightarrow> riverConfig" where
  "river_config workers =
     \<lparr>rc_Queues = [QueueDefault \<mapsto> queueMaxWorkers, ''cleanup_queue'' \<mapsto> queueMaxWorkers, ''task_queue'' \<mapsto> taskMaxWorkers],
      rc_Workers = workers\<rparr>"

text \<open>
  \<open>NewQueue\<close>: the results of creating the pool, creating the river client (from its
  configuration) and starting it are arguments.
\<close>

definition NewQueue ::
  "go_error option \<Rightarrow> (riverConfig \<Rightarrow> go_error option) \<Rightarrow> go_error option \<Rightarrow> queue result" where
  "NewQueue poolErr newClient startErr =
     (case poolErr of Some e \<Rightarrow> Inl e | None \<Rightarrow>
       (let strategy = EasyBackfill
        in case st_AddWorkers strategy [] of Inl e \<Rightarrow> Inl e | Inr workers \<Rightarrow>
            (case newClient (river_config workers) of Some e \<Rightarrow> Inl e | None \<Rightarrow>
              (case startErr of Some e \<Rightarrow> Inl e | None \<Rightarrow>
                (let depth = st_GetReservationDepth strategy
                 in if sint depth < 0 \<and> depth \<noteq> - 1
                    then Inl (Errorf ''reservation depth of a strategy must be >= -1'')
                    else Inr \<lparr>q_Strategy = strategy, q_ReservationDepth = depth\<rparr>)))))"

text \<open>\<open>Stop\<close>: the result of stopping the river client, when there is one.\<close>

definition queue_Stop :: "go_error option option \<Rightarrow> go_error option" where
  "queue_Stop riverClient = (case riverClient of Some result \<Rightarrow> result | None \<Rightarrow> None)"

definition Enqueue :: "faults \<Rightarrow> fluxJob \<Rightarrow> sys \<Rightarrow> (enqueueStatus \<times> go_error option) \<times> sys" where
  "Enqueue f spec s =
     (case ft_pool f of Some e \<Rightarrow> ((Unknown, Some e), s) | None \<Rightarrow>
      (case ft_isPending f of Some e \<Rightarrow> ((Unknown, Some e), s) | None \<Rightarrow>
        (let tag = select_tag (IsPendingQuery (fj_Name spec) (fj_Namespace spec) (db_pending (s_db s)))
         in if contains tag ''INSERT 1'' then ((JobAlreadyInPending, None), s)
            else
              (let reservation = (if fs_Reservation (fj_Spec spec) then 1 else 0 :: int32);
                   row = \<lparr>pq_jobspec = fs_JobSpec (fj_Spec spec), pq_namespace = fj_Namespace spec,
                          pq_flux_job_name = fj_Name spec, pq_name = fs_Name (fj_Spec spec),
                          pq_type = fs_Type (fj_Spec spec), pq_reservation = reservation,
                          pq_duration = fs_Duration (fj_Spec spec), pq_created_at = db_now (s_db s),
                          pq_size = fs_Nodes (fj_Spec spec)\<rparr>
               in case ft_insertPending f of Some e \<Rightarrow> ((Unknown, Some e), s) | None \<Rightarrow>
                   (case InsertIntoPending row (db_pending (s_db s)) of
                      Inl e \<Rightarrow> ((Unknown, Some e), s)
                    | Inr t \<Rightarrow> ((JobEnqueueSuccess, None),
                               s\<lparr>s_db := (s_db s)\<lparr>db_pending := t\<rparr>\<rparr>))))))"

definition deleteFromPending :: "faults \<Rightarrow> string \<Rightarrow> string \<Rightarrow> sys \<Rightarrow> go_error option \<times> sys" where
  "deleteFromPending f namespace name s =
     (case ft_delete f namespace name of
        Some e \<Rightarrow> (Some e, s)
      | None \<Rightarrow> (None, s\<lparr>s_db := (s_db s)\<lparr>db_pending :=
                        DeleteFromPendingQuery name namespace (db_pending (s_db s))\<rparr>\<rparr>))"

definition clearReservationJob :: insertManyParams where
  "clearReservationJob =
     \<lparr>im_Args = AReservation,
      im_Opts = \<lparr>io_MaxAttempts = MaxAttempts, io_Tags = [''reservation''], io_Queue = QueueDefault\<rparr>\<rparr>"

text \<open>
  The loop over the batch after the insert: the type assertion \<open>job.Args.(workers.JobArgs)\<close>
  panics on other arguments, and the error of each delete is dropped.
\<close>

fun delete_batch :: "faults \<Rightarrow> insertManyParams list \<Rightarrow> sys \<Rightarrow> sys go" where
  "delete_batch f [] s = Ret s"
| "delete_batch f (job # batch) s =
     (case im_Args job of
        AJob args \<Rightarrow> delete_batch f batch (snd (deleteFromPending f (ja_Namespace args) (ja_Name args) s))
      | _ \<Rightarrow> Panic ''interface conversion'')"

definition Schedule :: "faults \<Rightarrow> queue \<Rightarrow> sys \<Rightarrow> (go_error option \<times> sys) go" where
  "Schedule f q s =
     (if IsInScheduleLoop s then Ret (None, s)
      else
        (let s = Lock s
         in case st_Schedule (q_Strategy q) f (s_db s) (q_ReservationDepth q) of
              Inl e \<Rightarrow> Ret (Some e, Unlock s)
            | Inr batch \<Rightarrow>
               (if batch \<noteq> [] then
                  (let batchComplete = batch @ [clearReservationJob]
                   in case ft_insertMany f of
                        Some e \<Rightarrow> Ret (Some e, Unlock s)
                      | None \<Rightarrow>
                         (case delete_batch f batch (s\<lparr>s_river := s_river s @ batchComplete\<rparr>) of
                            Panic m \<Rightarrow> Panic m
                          | Ret s \<Rightarrow> Ret (st_PostSubmit (q_Strategy q) f (s_db s), Unlock s)))
                else Ret (st_PostSubmit (q_Strategy q) f (s_db s), Unlock s))))"

definition queue_Cleanup :: "faults \<Rightarrow> queue \<Rightarrow> int list \<Rightarrow> sys \<Rightarrow> go_error option \<times> sys" where
  "queue_Cleanup f q fluxids s =
     (case st_Cleanup (q_Strategy q) f fluxids (s_river s) of (e, r) \<Rightarrow> (e, s\<lparr>s_river := r\<rparr>))"

section \<open>The mutex\<close>

lemma lock_bit: "(w :: int32) AND 1 = 1 \<longleftrightarrow> bit w 0"
  by (simp add: and_one_eq bit_0 odd_iff_mod_2_eq_one)

lemma IsInScheduleLoop_iff: "IsInScheduleLoop s \<longleftrightarrow> bit (s_lock s) 0"
  by (simp add: IsInScheduleLoop_def mutexLocked_def lock_bit)

lemma Lock_held [simp]: "IsInScheduleLoop (Lock s)"
  by (simp add: IsInScheduleLoop_iff Lock_def mutexLocked_def bit_simps)

lemma Unlock_free [simp]: "\<not> IsInScheduleLoop (Unlock s)"
  by (simp add: IsInScheduleLoop_iff Unlock_def mutexLocked_def bit_simps)

lemma lock_frame [simp]:
  "s_db (Lock s) = s_db s" "s_river (Lock s) = s_river s"
  "s_db (Unlock s) = s_db s" "s_river (Unlock s) = s_river s"
  by (simp_all add: Lock_def Unlock_def)

lemma lock_frame_lock [simp]: "\<not> IsInScheduleLoop s \<Longrightarrow> s_lock (Unlock (Lock s)) = s_lock s"
proof (rule bit_eqI)
  fix n
  assume "\<not> IsInScheduleLoop s"
  then show "bit (s_lock (Unlock (Lock s))) n = bit (s_lock s) n"
    by (cases n) (auto simp: Lock_def Unlock_def IsInScheduleLoop_iff mutexLocked_def bit_simps dest: bit_imp_le_length)
qed

section \<open>The delete loop\<close>

text \<open>The pending rows that survive the loop: those not of the batch, and those whose delete failed.\<close>

definition kept :: "faults \<Rightarrow> jobArgs list \<Rightarrow> pendingRow \<Rightarrow> bool" where
  "kept f jobs r \<longleftrightarrow> row_key r \<notin> job_key ` set jobs \<or> ft_delete f (pq_namespace r) (pq_name r) \<noteq> None"

lemma deleteFromPending_db:
  "snd (deleteFromPending f ns n s) =
     s\<lparr>s_db := (s_db s)\<lparr>db_pending :=
        filter (\<lambda>r. row_key r \<noteq> (ns, n) \<or> ft_delete f ns n \<noteq> None) (db_pending (s_db s))\<rparr>\<rparr>"
  by (simp add: deleteFromPending_def DeleteFromPendingQuery_def row_key_conv split: option.splits)

lemma delete_batch_jobs:
  assumes "map im_Args batch = map AJob jobs"
  shows "delete_batch f batch s =
     Ret (s\<lparr>s_db := (s_db s)\<lparr>db_pending := filter (kept f jobs) (db_pending (s_db s))\<rparr>\<rparr>)"
  using assms
proof (induction batch arbitrary: jobs s)
  case Nil
  then have "kept f jobs = (\<lambda>_. True)" by (simp add: kept_def fun_eq_iff)
  then show ?case by simp
next
  case (Cons b batch)
  then obtain a jobs' where jobs: "jobs = a # jobs'" "im_Args b = AJob a" "map im_Args batch = map AJob jobs'"
    by (cases jobs) auto
  let ?first = "\<lambda>r. row_key r \<noteq> (ja_Namespace a, ja_Name a) \<or> ft_delete f (ja_Namespace a) (ja_Name a) \<noteq> None"
  have "kept f jobs r \<longleftrightarrow> kept f jobs' r \<and> ?first r" for r
    by (auto simp: kept_def jobs(1) job_key_def row_key_def)
  then have "filter (kept f jobs) t = filter (kept f jobs') (filter ?first t)" for t
    by (induction t) auto
  then show ?case
    by (simp add: jobs(2) deleteFromPending_db Cons.IH[OF jobs(3)])
qed

section \<open>Scheduling, for every strategy that keeps its contract\<close>

context queue_strategy
begin

lemma Schedule_busy: "IsInScheduleLoop s \<Longrightarrow> Schedule f q s = Ret (None, s)"
  by (simp add: Schedule_def)

text \<open>The two ways a schedule loop ends: nothing changed, or the whole batch handed to river.\<close>

lemma Schedule_outcome:
  assumes "\<not> IsInScheduleLoop s" "q_Strategy q = S"
  obtains (kept) e where "Schedule f q s = Ret (e, Unlock (Lock s))"
      "e = None \<Longrightarrow> db_pending (s_db s) = []"
      "e \<noteq> None \<Longrightarrow> (\<exists>x. st_Schedule S f (s_db s) (q_ReservationDepth q) = Inl x) \<or> ft_insertMany f \<noteq> None
          \<or> st_PostSubmit S f (s_db s) \<noteq> None"
  | (sent) batch jobs s' e where "Schedule f q s = Ret (e, s')"
      "st_Schedule S f (s_db s) (q_ReservationDepth q) = Inr batch"
      "map im_Args batch = map AJob jobs" "set (map job_key jobs) = set (map row_key (db_pending (s_db s)))"
      "s_river s' = s_river s @ batch @ [clearReservationJob]"
      "db_pending (s_db s') = filter (kept f jobs) (db_pending (s_db s))"
      "s_lock s' = s_lock s" "e = st_PostSubmit S f (s_db s')" "ft_insertMany f = None"
proof (cases "st_Schedule S f (s_db s) (q_ReservationDepth q)")
  case (Inl e)
  with assms show ?thesis by (intro kept[of "Some e"]) (simp_all add: Schedule_def)
next
  case (Inr batch)
  show ?thesis
  proof (cases "batch = [] \<or> ft_insertMany f \<noteq> None")
    case True
    with assms Inr batch_empty_iff[OF Inr] show ?thesis
      by (intro kept[of "if batch = [] then st_PostSubmit S f (s_db s) else ft_insertMany f"])
         (auto simp: Schedule_def)
  next
    case False
    obtain jobs where jobs: "map im_Args batch = map AJob jobs"
      "set (map job_key jobs) = set (map row_key (db_pending (s_db s)))"
      using Inr by (rule batch_jobs)
    have "s_lock (Unlock ((Lock s)\<lparr>s_river := r, s_db := d\<rparr>)) = s_lock s" for r d
      using lock_frame_lock[OF assms(1)] by (simp add: Unlock_def Lock_def)
    with False assms Inr jobs show ?thesis
      by (intro sent[OF _ Inr jobs, where s' = "Unlock ((Lock s)\<lparr>s_river := s_river s @ batch @ [clearReservationJob],
            s_db := (s_db s)\<lparr>db_pending := filter (kept f jobs) (db_pending (s_db s))\<rparr>\<rparr>)"])
         (auto simp: Schedule_def delete_batch_jobs[OF jobs(1)])
  qed
qed

text \<open>The type assertion of the loop never fails: scheduling returns.\<close>

lemma Schedule_returns: "q_Strategy q = S \<Longrightarrow> \<exists>e s'. Schedule f q s = Ret (e, s')"
  by (metis Schedule_busy Schedule_outcome)

lemma Schedule_keeps_wf:
  assumes "q_Strategy q = S" "Schedule f q s = Ret (e, s')" "pending_wf (db_pending (s_db s))"
  shows "pending_wf (db_pending (s_db s'))"
proof (cases "IsInScheduleLoop s")
  case True
  with assms show ?thesis by (simp add: Schedule_busy)
next
  case False
  then show ?thesis using assms(1)
    by (rule Schedule_outcome[where f = f])
       (use assms(2,3) in \<open>auto simp: pending_wf_def distinct_map_filter\<close>)
qed

text \<open>
  No job is lost: a row that was pending is still pending or its job was inserted, whatever
  fails.
\<close>

lemma Schedule_no_loss:
  assumes "q_Strategy q = S" "Schedule f q s = Ret (e, s')" "r \<in> set (db_pending (s_db s))"
  shows "r \<in> set (db_pending (s_db s')) \<or>
    (\<exists>p a. p \<in> set (s_river s') \<and> im_Args p = AJob a \<and> job_key a = row_key r)"
proof (cases "IsInScheduleLoop s")
  case True
  with assms show ?thesis by (simp add: Schedule_busy)
next
  case False
  then show ?thesis using assms(1)
  proof (cases rule: Schedule_outcome[where f = f])
    case (kept x)
    with assms(2,3) show ?thesis by auto
  next
    case (sent batch jobs s'' e')
    from sent(4) assms(3) obtain a where a: "a \<in> set jobs" "job_key a = row_key r"
      by (metis (mono_tags, lifting) image_iff image_set)
    then have "AJob a \<in> im_Args ` set batch" using sent(3) by (metis image_eqI image_set)
    then show ?thesis using sent(1,5) a(2) assms(2) by force
  qed
qed

end

section \<open>Enqueue\<close>

lemma contains_chars: "contains s sub \<Longrightarrow> set sub \<subseteq> set s"
proof (induction s)
  case (Cons c s)
  then show ?case using set_mono_prefix[of sub "c # s"] by auto
qed simp

lemma select_tag_no_insert [simp]: "\<not> contains (select_tag rows) ''INSERT 1''"
proof
  assume "contains (select_tag rows) ''INSERT 1''"
  then have "CHR ''I'' \<in> set (itoa (int (length rows)))"
    by (auto simp: select_tag_def dest!: contains_chars)
  then obtain d where "d < 10" "CHR ''I'' = digit_char d"
    using nat_dec_digits by (auto simp: itoa_def split: if_splits)
  then have "char_digit (CHR ''I'') = Some d" by simp
  then show False by (simp add: char_digit_def)
qed

definition enqueue_row :: "fluxJob \<Rightarrow> int \<Rightarrow> pendingRow" where
  "enqueue_row spec now =
     \<lparr>pq_jobspec = fs_JobSpec (fj_Spec spec), pq_namespace = fj_Namespace spec,
      pq_flux_job_name = fj_Name spec, pq_name = fs_Name (fj_Spec spec), pq_type = fs_Type (fj_Spec spec),
      pq_reservation = (if fs_Reservation (fj_Spec spec) then 1 else 0),
      pq_duration = fs_Duration (fj_Spec spec), pq_created_at = now, pq_size = fs_Nodes (fj_Spec spec)\<rparr>"

text \<open>Every outcome of \<open>Enqueue\<close>, in the order of its checks.\<close>

lemma Enqueue_eq:
  "Enqueue f spec s =
     (case (ft_pool f, ft_isPending f, ft_insertPending f) of
        (Some e, _, _) \<Rightarrow> ((Unknown, Some e), s)
      | (None, Some e, _) \<Rightarrow> ((Unknown, Some e), s)
      | (None, None, Some e) \<Rightarrow> ((Unknown, Some e), s)
      | (None, None, None) \<Rightarrow>
         (if (fj_Namespace spec, fs_Name (fj_Spec spec)) \<in> set (map row_key (db_pending (s_db s)))
          then ((Unknown, Some (UniqueViolation ''pending_index'')), s)
          else ((JobEnqueueSuccess, None),
                s\<lparr>s_db := (s_db s)\<lparr>db_pending := db_pending (s_db s) @ [enqueue_row spec (db_now (s_db s))]\<rparr>\<rparr>)))"
  by (simp add: Enqueue_def InsertIntoPending_def enqueue_row_def row_key_def Let_def split: option.splits)

lemma Enqueue_frame [effect_frame]:
  "s_river (snd (Enqueue f spec s)) = s_river s" "s_lock (snd (Enqueue f spec s)) = s_lock s"
  by (auto simp: Enqueue_eq split: option.splits)

lemma Enqueue_keeps_wf:
  "pending_wf (db_pending (s_db s)) \<Longrightarrow> pending_wf (db_pending (s_db (snd (Enqueue f spec s))))"
  by (auto simp: Enqueue_eq pending_wf_def row_key_def enqueue_row_def split: option.splits)

section \<open>The easy strategy without faults before the deletes\<close>

lemma easy_Schedule_sent:
  assumes "\<not> IsInScheduleLoop s" "db_pending (s_db s) \<noteq> []"
    and "ft_select f = None" "ft_collect f = None" "ft_insertMany f = None"
  obtains s' jobs where
    "Schedule f \<lparr>q_Strategy = EasyBackfill, q_ReservationDepth = depth\<rparr> s = Ret (None, s')"
    "s_river s' = s_river s @
      map (\<lambda>r. \<lparr>im_Args = AJob (row_jobArgs r), im_Opts = easy_insertOpts\<rparr>)
          (SelectPendingByCreation (db_pending (s_db s))) @ [clearReservationJob]"
    "db_pending (s_db s') = filter (kept f jobs) (db_pending (s_db s))"
    "set (map job_key jobs) = set (map row_key (db_pending (s_db s)))" "s_lock s' = s_lock s"
proof -
  let ?q = "\<lparr>q_Strategy = EasyBackfill, q_ReservationDepth = depth\<rparr>"
  have q: "q_Strategy ?q = EasyBackfill" by simp
  from assms(1) q show ?thesis
  proof (cases rule: easy.Schedule_outcome[where f = f])
    case (kept e)
    then have "e \<noteq> None" using assms(2) by blast
    with kept(3) assms(3-5) show ?thesis
      by (auto simp: EasyBackfill_def easy_Schedule_eq easy_PostSubmit_def)
  next
    case (sent batch jobs s' e)
    have "batch = map (\<lambda>r. \<lparr>im_Args = AJob (row_jobArgs r), im_Opts = easy_insertOpts\<rparr>)
          (SelectPendingByCreation (db_pending (s_db s)))"
      using sent(2) assms(3,4) by (simp add: EasyBackfill_def easy_Schedule_eq)
    moreover have "e = None" using sent(8) by (simp add: EasyBackfill_def easy_PostSubmit_def)
    ultimately show ?thesis using sent(1,5) by (intro that[OF _ _ sent(6,4,7)]) simp_all
  qed
qed

section \<open>A small queue\<close>

text \<open>Two pending rows, the second one newer; used to evaluate the properties.\<close>

definition ex_row :: "string \<Rightarrow> int \<Rightarrow> pendingRow" where
  "ex_row n t = \<lparr>pq_jobspec = ''spec'', pq_namespace = ''ns'', pq_flux_job_name = GetJobName JobWrappedPod n,
     pq_name = n, pq_type = JobWrappedPod, pq_reservation = 0, pq_duration = 0, pq_created_at = t, pq_size = 1\<rparr>"

definition ex_db :: db where
  "ex_db = \<lparr>db_pending = [ex_row ''a'' 1, ex_row ''b'' 2], db_reservations = [], db_now = 3\<rparr>"

definition ex_sys :: sys where
  "ex_sys = \<lparr>s_db = ex_db, s_river = [], s_lock = 0\<rparr>"

definition ex_job :: "string \<Rightarrow> fluxJob" where
  "ex_job n = \<lparr>fj_Name = GetJobName JobWrappedPod n, fj_Namespace = ''ns'',
     fj_Spec = \<lparr>fs_JobSpec = ''spec'', fs_Type = JobWrappedPod, fs_Name = n, fs_Object = [], fs_Duration = 0,
                fs_Reservation = False, fs_Nodes = 1, fs_Resources = []\<rparr>, fj_Status = []\<rparr>"

lemmas ex_queue_defs = ex_row_def ex_db_def ex_sys_def ex_job_def no_faults_def

lemma ex_sys_free [simp]: "\<not> IsInScheduleLoop ex_sys"
  by (simp add: IsInScheduleLoop_def ex_sys_def mutexLocked_def)

lemma ex_selected: "SelectPendingByCreation (db_pending ex_db) = [ex_row ''b'' 2, ex_row ''a'' 1]"
  by (simp add: SelectPendingByCreation_def ex_queue_defs)

text \<open>The worker kinds are distinct, as river requires, and the depth of the strategy is valid.\<close>

lemma NewQueue_ok:
  "NewQueue None (\<lambda>cfg. if distinct (rc_Workers cfg) then None else Some (Errorf ''duplicate kind'')) None =
     Inr \<lparr>q_Strategy = EasyBackfill, q_ReservationDepth = 1\<rparr>"
  by (simp add: NewQueue_def river_config_def EasyBackfill_def easy_AddWorkers_eq easy_GetReservationDepth_def Let_def)

section \<open>Properties\<close>

text \<open>C1: a schedule loop that meets no fault hands every pending job to river, newest first, with
  the job that clears reservations last, empties the pending table and releases the lock.\<close>
theorem Schedule_drains:
  assumes "\<not> IsInScheduleLoop s" "db_pending (s_db s) \<noteq> []"
    and "ft_select f = None" "ft_collect f = None" "ft_insertMany f = None" "\<And>ns n. ft_delete f ns n = None"
  shows "\<exists>s'. Schedule f \<lparr>q_Strategy = EasyBackfill, q_ReservationDepth = depth\<rparr> s = Ret (None, s') \<and>
    s_river s' = s_river s @
      map (\<lambda>r. \<lparr>im_Args = AJob (row_jobArgs r), im_Opts = easy_insertOpts\<rparr>)
          (SelectPendingByCreation (db_pending (s_db s))) @ [clearReservationJob] \<and>
    db_pending (s_db s') = [] \<and> s_lock s' = s_lock s"
proof -
  obtain s' jobs where s': "Schedule f \<lparr>q_Strategy = EasyBackfill, q_ReservationDepth = depth\<rparr> s = Ret (None, s')"
    "s_river s' = s_river s @
      map (\<lambda>r. \<lparr>im_Args = AJob (row_jobArgs r), im_Opts = easy_insertOpts\<rparr>)
          (SelectPendingByCreation (db_pending (s_db s))) @ [clearReservationJob]"
    "db_pending (s_db s') = filter (kept f jobs) (db_pending (s_db s))"
    "set (map job_key jobs) = set (map row_key (db_pending (s_db s)))" "s_lock s' = s_lock s"
    using assms(1-5) by (rule easy_Schedule_sent)
  have "filter (kept f jobs) (db_pending (s_db s)) = []"
    using s'(4) assms(6) by (intro filter_all_removed) (auto simp: kept_def)
  with s' show ?thesis by auto
qed

theorem Schedule_drains_witness:
  "\<exists>s'. Schedule no_faults \<lparr>q_Strategy = EasyBackfill, q_ReservationDepth = 1\<rparr> ex_sys = Ret (None, s') \<and>
    map im_Args (s_river s') =
      [AJob (row_jobArgs (ex_row ''b'' 2)), AJob (row_jobArgs (ex_row ''a'' 1)), AReservation] \<and>
    db_pending (s_db s') = [] \<and> \<not> IsInScheduleLoop s'"
proof -
  have "db_pending (s_db ex_sys) \<noteq> []" by (simp add: ex_queue_defs)
  from Schedule_drains[OF ex_sys_free this, of no_faults 1] ex_selected show ?thesis
    by (auto simp: no_faults_def ex_sys_def IsInScheduleLoop_def mutexLocked_def clearReservationJob_def)
qed

text \<open>C3: whatever fails during a schedule loop, no job is lost: a pending row stays pending or its
  job is among those inserted in river; and the loop returns without a panic and keeps the unique
  index of the pending table.\<close>
theorem Schedule_safe:
  assumes "pending_wf (db_pending (s_db s))"
  shows "\<exists>e s'. Schedule f \<lparr>q_Strategy = EasyBackfill, q_ReservationDepth = depth\<rparr> s = Ret (e, s') \<and>
    pending_wf (db_pending (s_db s')) \<and>
    (\<forall>r \<in> set (db_pending (s_db s)). r \<in> set (db_pending (s_db s')) \<or>
       (\<exists>p a. p \<in> set (s_river s') \<and> im_Args p = AJob a \<and> job_key a = row_key r))"
proof -
  let ?q = "\<lparr>q_Strategy = EasyBackfill, q_ReservationDepth = depth\<rparr>"
  have q: "q_Strategy ?q = EasyBackfill" by simp
  obtain e s' where r: "Schedule f ?q s = Ret (e, s')"
    using easy.Schedule_returns[OF q] by blast
  show ?thesis
    using easy.Schedule_keeps_wf[OF q r assms] easy.Schedule_no_loss[OF q r] r by blast
qed

theorem Schedule_safe_witness:
  "\<exists>e s'. Schedule (no_faults\<lparr>ft_insertMany := Some (Errorf ''insert'')\<rparr>)
      \<lparr>q_Strategy = EasyBackfill, q_ReservationDepth = 1\<rparr> ex_sys = Ret (e, s') \<and>
    (ex_row ''a'' 1 \<in> set (db_pending (s_db s')) \<or>
      (\<exists>p a. p \<in> set (s_river s') \<and> im_Args p = AJob a \<and> job_key a = (''ns'', ''a'')))"
proof -
  have "pending_wf (db_pending (s_db ex_sys))" by (simp add: pending_wf_def row_key_def ex_queue_defs)
  moreover have "ex_row ''a'' 1 \<in> set (db_pending (s_db ex_sys))" "row_key (ex_row ''a'' 1) = (''ns'', ''a'')"
    by (simp_all add: row_key_def ex_queue_defs)
  ultimately show ?thesis using Schedule_safe[of ex_sys] by metis
qed

text \<open>C28: a failed schedule loop (the select, the row scan or the river insert fails) changes neither
  the pending table nor river, and releases the lock: the next loop can try again.\<close>
theorem Schedule_error_atomic:
  assumes "Schedule f \<lparr>q_Strategy = EasyBackfill, q_ReservationDepth = depth\<rparr> s = Ret (Some e, s')"
  shows "s_db s' = s_db s \<and> s_river s' = s_river s \<and> \<not> IsInScheduleLoop s' \<and>
    (ft_select f = Some e \<or> ft_select f = None \<and> ft_collect f = Some e \<or>
     ft_select f = None \<and> ft_collect f = None \<and> ft_insertMany f = Some e)"
  using assms
  by (auto simp: Schedule_def EasyBackfill_def easy_Schedule_eq easy_PostSubmit_def Let_def
      split: if_splits option.splits go.splits)

theorem Schedule_error_atomic_witness:
  "Schedule (no_faults\<lparr>ft_select := Some (Errorf ''select'')\<rparr>)
      \<lparr>q_Strategy = EasyBackfill, q_ReservationDepth = 1\<rparr> ex_sys = Ret (Some (Errorf ''select''), Unlock (Lock ex_sys)) \<and>
   s_db (Unlock (Lock ex_sys)) = s_db ex_sys \<and> \<not> IsInScheduleLoop (Unlock (Lock ex_sys))"
proof -
  have run: "Schedule (no_faults\<lparr>ft_select := Some (Errorf ''select'')\<rparr>)
      \<lparr>q_Strategy = EasyBackfill, q_ReservationDepth = 1\<rparr> ex_sys = Ret (Some (Errorf ''select''), Unlock (Lock ex_sys))"
    by (simp add: Schedule_def EasyBackfill_def easy_Schedule_eq no_faults_def)
  from Schedule_error_atomic[OF run] run show ?thesis by simp
qed

text \<open>When the delete of one scheduled row fails, its error is dropped: the job is in river and its
  row is still pending, so the loop succeeds and the next loop inserts the same job again.\<close>

lemma Schedule_failed_delete_duplicates:
  assumes "\<not> IsInScheduleLoop s" "r \<in> set (db_pending (s_db s))"
    and "ft_select f = None" "ft_collect f = None" "ft_insertMany f = None"
    and "ft_delete f (pq_namespace r) (pq_name r) = Some err"
  shows "\<exists>s'. Schedule f \<lparr>q_Strategy = EasyBackfill, q_ReservationDepth = depth\<rparr> s = Ret (None, s') \<and>
    r \<in> set (db_pending (s_db s')) \<and>
    \<lparr>im_Args = AJob (row_jobArgs r), im_Opts = easy_insertOpts\<rparr> \<in> set (s_river s')"
proof -
  from assms(2) have ne: "db_pending (s_db s) \<noteq> []" by auto
  obtain s' jobs where s': "Schedule f \<lparr>q_Strategy = EasyBackfill, q_ReservationDepth = depth\<rparr> s = Ret (None, s')"
    "s_river s' = s_river s @
      map (\<lambda>r. \<lparr>im_Args = AJob (row_jobArgs r), im_Opts = easy_insertOpts\<rparr>)
          (SelectPendingByCreation (db_pending (s_db s))) @ [clearReservationJob]"
    "db_pending (s_db s') = filter (kept f jobs) (db_pending (s_db s))"
    using assms(1) ne assms(3-5) by (rule easy_Schedule_sent)
  have "kept f jobs r" using assms(6) by (simp add: kept_def)
  with s' assms(2) show ?thesis by (auto simp: pending.sel_set)
qed

text \<open>Jobs are sent to Fluxion newest first: in the batch of a schedule loop no job was created
  before a job that follows it.\<close>

lemma Schedule_newest_first:
  assumes "easy_Schedule f d depth = Inr batch"
  shows "\<exists>rows. map im_Args batch = map (\<lambda>r. AJob (row_jobArgs r)) rows \<and>
    mset rows = mset (db_pending d) \<and> sorted_wrt (\<lambda>a b. pq_created_at b \<le> pq_created_at a) rows"
proof -
  have "map im_Args batch = map (\<lambda>r. AJob (row_jobArgs r)) (SelectPendingByCreation (db_pending d))"
    using assms by (auto simp: easy_Schedule_eq comp_def split: option.splits)
  then show ?thesis
    using pending.sel_rows SelectPendingByCreation_newest_first by blast
qed

text \<open>The reservation depth has no effect: for every depth the batch is the same, and each job
  carries the reservation flag of its row, because the flag is set on a copy that is not sent.\<close>

lemma Schedule_ignores_reservation_depth:
  "easy_Schedule f d depth = easy_Schedule f d (- 1) \<and>
   (\<forall>batch p a. easy_Schedule f d depth = Inr batch \<longrightarrow> p \<in> set batch \<longrightarrow> im_Args p = AJob a \<longrightarrow>
      (\<exists>r \<in> set (db_pending d). a = row_jobArgs r \<and> ja_Reservation a = pq_reservation r))"
  by (auto simp: easy_Schedule_eq row_jobArgs_def pending.sel_set split: option.splits intro!: bexI)

text \<open>\<open>Enqueue\<close> adds exactly one row, made from the FluxJob, when no pending row has the same
  original name and namespace; otherwise it fails with the unique violation and adds nothing.\<close>

lemma Enqueue_functional:
  "Enqueue no_faults spec s =
     (if (fj_Namespace spec, fs_Name (fj_Spec spec)) \<in> set (map row_key (db_pending (s_db s)))
      then ((Unknown, Some (UniqueViolation ''pending_index'')), s)
      else ((JobEnqueueSuccess, None),
            s\<lparr>s_db := (s_db s)\<lparr>db_pending := db_pending (s_db s) @ [enqueue_row spec (db_now (s_db s))]\<rparr>\<rparr>))"
  by (simp add: Enqueue_eq no_faults_def)

text \<open>\<open>Enqueue\<close> never reports that a job is already pending: the command tag of a select never
  holds the text \<open>INSERT 1\<close>. A job that is pending gets the status \<open>Unknown\<close> and an
  error.\<close>

lemma Enqueue_never_already_pending:
  "fst (fst (Enqueue f spec s)) \<noteq> JobAlreadyInPending \<and>
   ((fj_Namespace spec, fs_Name (fj_Spec spec)) \<in> set (map row_key (db_pending (s_db s))) \<longrightarrow>
      (\<exists>e. fst (Enqueue f spec s) = (Unknown, Some e)))"
  by (auto simp: Enqueue_eq split: option.splits)

end
