(* ===== verification/Queue_Steps.thy ===== *)
theory Queue_Steps
  imports Queue
begin

text \<open>
  \<open>Enqueue\<close> and \<open>Schedule\<close> (\<open>fluxqueue.go\<close>) under concurrent callers. The unit of
  interleaving is the statement: each query, each river insert, the check of the lock, its acquisition
  and its release is one step of \<open>advance\<close>, and steps of different callers alternate freely, with
  any faults. A caller that saw the lock free waits for it in \<open>lock.Lock()\<close> and runs its loop
  later. A process that restarts loses the position of all its callers and begins with a new mutex.
  Undisturbed, the statements of a caller compute \<open>Enqueue\<close> and \<open>Schedule\<close> of theory
  \<open>Queue\<close>.
\<close>

section \<open>Callers\<close>

datatype callResult = Enqueued enqueueStatus "go_error option" | Scheduled "go_error option" | Panicked string

text \<open>Where a caller is: before which statement, or what it returned.\<close>

datatype phase =
    Returned callResult
  | AtPending fluxJob
  | AtInsert fluxJob
  | AtCheck
  | AtLock
  | AtSelect
  | AtSend "insertManyParams list"
  | AtDelete "insertManyParams list"
  | AtPost
  | AtUnlock callResult

text \<open>The two statements of \<open>Enqueue\<close>: the pool and the query for the pending row, and the insert.\<close>

definition isPending_statement :: "faults \<Rightarrow> fluxJob \<Rightarrow> sys \<Rightarrow> phase \<times> sys" where
  "isPending_statement f spec s =
     (case ft_pool f of Some e \<Rightarrow> (Returned (Enqueued Unknown (Some e)), s) | None \<Rightarrow>
      (case ft_isPending f of Some e \<Rightarrow> (Returned (Enqueued Unknown (Some e)), s) | None \<Rightarrow>
        if contains (select_tag (IsPendingQuery (fj_Name spec) (fj_Namespace spec) (db_pending (s_db s)))) ''INSERT 1''
        then (Returned (Enqueued JobAlreadyInPending None), s) else (AtInsert spec, s)))"

definition insertPending_statement :: "faults \<Rightarrow> fluxJob \<Rightarrow> sys \<Rightarrow> phase \<times> sys" where
  "insertPending_statement f spec s =
     (case ft_insertPending f of Some e \<Rightarrow> (Returned (Enqueued Unknown (Some e)), s) | None \<Rightarrow>
      (case InsertIntoPending (enqueue_row spec (db_now (s_db s))) (db_pending (s_db s)) of
         Inl e \<Rightarrow> (Returned (Enqueued Unknown (Some e)), s)
       | Inr t \<Rightarrow> (Returned (Enqueued JobEnqueueSuccess None), s\<lparr>s_db := (s_db s)\<lparr>db_pending := t\<rparr>\<rparr>)))"

text \<open>The next statement of a caller, in \<open>Schedule\<close> from the check of the lock to its release; \<open>None\<close> when it has returned or has to wait for the lock.\<close>

fun advance :: "faults \<Rightarrow> queue \<Rightarrow> phase \<Rightarrow> sys \<Rightarrow> (phase \<times> sys) option" where
  "advance f q (AtPending spec) s = Some (isPending_statement f spec s)"
| "advance f q (AtInsert spec) s = Some (insertPending_statement f spec s)"
| "advance f q AtCheck s = Some (if IsInScheduleLoop s then (Returned (Scheduled None), s) else (AtLock, s))"
| "advance f q AtLock s = (if IsInScheduleLoop s then None else Some (AtSelect, Lock s))"
| "advance f q AtSelect s = Some
     (case st_Schedule (q_Strategy q) f (s_db s) (q_ReservationDepth q) of
        Inl e \<Rightarrow> (AtUnlock (Scheduled (Some e)), s)
      | Inr batch \<Rightarrow> (if batch \<noteq> [] then AtSend batch else AtPost, s))"
| "advance f q (AtSend batch) s = Some
     (case ft_insertMany f of Some e \<Rightarrow> (AtUnlock (Scheduled (Some e)), s)
      | None \<Rightarrow> (AtDelete batch, s\<lparr>s_river := s_river s @ batch @ [clearReservationJob]\<rparr>))"
| "advance f q (AtDelete []) s = Some (AtPost, s)"
| "advance f q (AtDelete (job # batch)) s = Some
     (case im_Args job of
        AJob args \<Rightarrow> (AtDelete batch, snd (deleteFromPending f (ja_Namespace args) (ja_Name args) s))
      | _ \<Rightarrow> (AtUnlock (Panicked ''interface conversion''), s))"
| "advance f q AtPost s = Some (AtUnlock (Scheduled (st_PostSubmit (q_Strategy q) f (s_db s))), s)"
| "advance f q (AtUnlock r) s = Some (Returned r, Unlock s)"
| "advance f q (Returned r) s = None"

text \<open>Beside their shared state, the callers have a history: the rows that were accepted so far, and the
  jobs that river has while their rows stayed in the pending table.\<close>

record callers =
  cl_sys :: sys
  cl_phase :: "nat \<Rightarrow> phase"
  cl_accepted :: "pendingRow list"
  cl_again :: "jobArgs list"

fun job_args :: "riverArgs \<Rightarrow> jobArgs list" where
  "job_args (AJob a) = [a]"
| "job_args _ = []"

definition river_jobs :: "insertManyParams list \<Rightarrow> jobArgs list" where
  "river_jobs ps = concat (map (\<lambda>p. job_args (im_Args p)) ps)"

fun accepted_by :: "phase \<Rightarrow> phase \<Rightarrow> sys \<Rightarrow> pendingRow list" where
  "accepted_by (AtInsert spec) (Returned (Enqueued JobEnqueueSuccess e)) s = [enqueue_row spec (db_now (s_db s))]"
| "accepted_by _ _ s = []"

fun again_by :: "faults \<Rightarrow> phase \<Rightarrow> jobArgs list" where
  "again_by f (AtDelete (job # batch)) = filter (\<lambda>a. ft_delete f (ja_Namespace a) (ja_Name a) \<noteq> None) (job_args (im_Args job))"
| "again_by f _ = []"

text \<open>What a caller has handed to river and not yet tried to delete.\<close>

definition unfinished :: "callers \<Rightarrow> nat \<Rightarrow> jobArgs list" where
  "unfinished c t = (case cl_phase c t of AtDelete batch \<Rightarrow> river_jobs batch | _ \<Rightarrow> [])"

definition moved :: "faults \<Rightarrow> nat \<Rightarrow> phase \<Rightarrow> sys \<Rightarrow> callers \<Rightarrow> callers" where
  "moved f t ph s c = \<lparr>cl_sys = s, cl_phase = (cl_phase c)(t := ph),
     cl_accepted = cl_accepted c @ accepted_by (cl_phase c t) ph (cl_sys c),
     cl_again = cl_again c @ again_by f (cl_phase c t)\<rparr>"

text \<open>Calls may begin at any time in a caller that has returned. The workers and \<open>Cleanup\<close> insert
  jobs of other kinds.\<close>

inductive queue_step :: "queue \<Rightarrow> callers \<Rightarrow> callers \<Rightarrow> bool" for q :: queue where
  enqueue: "cl_phase c t = Returned r \<Longrightarrow> queue_step q c (c\<lparr>cl_phase := (cl_phase c)(t := AtPending spec)\<rparr>)"
| schedule: "cl_phase c t = Returned r \<Longrightarrow> queue_step q c (c\<lparr>cl_phase := (cl_phase c)(t := AtCheck)\<rparr>)"
| run: "advance f q (cl_phase c t) (cl_sys c) = Some (ph, s) \<Longrightarrow> queue_step q c (moved f t ph s c)"
| others: "river_jobs ps = [] \<Longrightarrow>
    queue_step q c (c\<lparr>cl_sys := (cl_sys c)\<lparr>s_river := s_river (cl_sys c) @ ps\<rparr>\<rparr>)"
| clock: "queue_step q c (c\<lparr>cl_sys := (cl_sys c)\<lparr>s_db := (s_db (cl_sys c))\<lparr>db_now := now\<rparr>\<rparr>\<rparr>)"
| restart: "\<forall>u. u \<noteq> t \<longrightarrow> unfinished c u = [] \<Longrightarrow>
    queue_step q c (c\<lparr>cl_sys := (cl_sys c)\<lparr>s_lock := 0\<rparr>, cl_phase := (\<lambda>_. Returned r), cl_again := cl_again c @ unfinished c t\<rparr>)"

definition all_quiet :: "callers \<Rightarrow> bool" where
  "all_quiet c \<longleftrightarrow> \<not> IsInScheduleLoop (cl_sys c) \<and> (\<forall>t. \<exists>r. cl_phase c t = Returned r) \<and>
     pending_wf (db_pending (s_db (cl_sys c))) \<and> river_jobs (s_river (cl_sys c)) = [] \<and>
     cl_accepted c = db_pending (s_db (cl_sys c)) \<and> cl_again c = []"

text \<open>The same without the environment: statements of the callers that are under way, and no fault, no new
  call and no restart.\<close>

inductive statement_step :: "queue \<Rightarrow> callers \<Rightarrow> callers \<Rightarrow> bool" for q :: queue where
  statement: "advance no_faults q (cl_phase c t) (cl_sys c) = Some (ph, s) \<Longrightarrow> statement_step q c (moved no_faults t ph s c)"

lemma statement_is_step: "statement_step q c c' \<Longrightarrow> queue_step q c c'"
  by (cases rule: statement_step.cases) (auto intro: queue_step.run)

lemma statements_are_steps: "(statement_step q)\<^sup>*\<^sup>* c c' \<Longrightarrow> (queue_step q)\<^sup>*\<^sup>* c c'"
  by (rule mono_rtranclp[rule_format]) (rule statement_is_step)

declare isPending_statement_def [simp] insertPending_statement_def [simp]

section \<open>Mutual exclusion\<close>

fun inside :: "phase \<Rightarrow> bool" where
  "inside AtSelect = True"
| "inside (AtSend _) = True"
| "inside (AtDelete _) = True"
| "inside AtPost = True"
| "inside (AtUnlock _) = True"
| "inside _ = False"

definition lock_inv :: "callers \<Rightarrow> bool" where
  "lock_inv c \<longleftrightarrow>
     (\<forall>t u. inside (cl_phase c t) \<and> inside (cl_phase c u) \<longrightarrow> t = u) \<and>
     (IsInScheduleLoop (cl_sys c) \<longleftrightarrow> (\<exists>t. inside (cl_phase c t)))"

lemma same_lock: "s_lock s' = s_lock s \<Longrightarrow> IsInScheduleLoop s' = IsInScheduleLoop s"
  by (simp add: IsInScheduleLoop_def)

lemma lock_of_update [simp]:
  "IsInScheduleLoop (s\<lparr>s_db := d\<rparr>) = IsInScheduleLoop s" "IsInScheduleLoop (s\<lparr>s_river := r\<rparr>) = IsInScheduleLoop s"
  by (simp_all add: IsInScheduleLoop_def)

lemma deleteFromPending_frame [simp]:
  "s_river (snd (deleteFromPending f ns n s)) = s_river s" "s_lock (snd (deleteFromPending f ns n s)) = s_lock s"
  by (simp_all add: deleteFromPending_def split: option.splits)

text \<open>A statement enters the loop with the lock, leaves it by releasing the lock, or keeps both.\<close>

lemma advance_lock:
  assumes "advance f q ph s = Some (ph', s')"
  shows "(if ph = AtLock then \<not> IsInScheduleLoop s \<and> ph' = AtSelect \<and> s' = Lock s
          else if \<exists>r. ph = AtUnlock r then \<not> inside ph' \<and> s' = Unlock s
          else inside ph' = inside ph \<and> s_lock s' = s_lock s)"
  using assms
  by (cases "(f, q, ph, s)" rule: advance.cases)
     (auto split: option.splits sum.splits if_splits riverArgs.splits)

lemma lock_inv_keep:
  assumes "lock_inv c" "inside ph = inside (cl_phase c t)" "s_lock s = s_lock (cl_sys c)"
  shows "lock_inv (c\<lparr>cl_sys := s, cl_phase := (cl_phase c)(t := ph)\<rparr>)"
proof -
  have "inside (((cl_phase c)(t := ph)) u) = inside (cl_phase c u)" for u using assms(2) by simp
  with assms(1) same_lock[OF assms(3)] show ?thesis by (simp add: lock_inv_def)
qed

lemma lock_inv_history: "lock_inv (c\<lparr>cl_accepted := a, cl_again := b\<rparr>) = lock_inv c"
  by (simp add: lock_inv_def)

lemma moved_eq:
  "moved f t ph s c = c\<lparr>cl_sys := s, cl_phase := (cl_phase c)(t := ph)\<rparr>
     \<lparr>cl_accepted := cl_accepted c @ accepted_by (cl_phase c t) ph (cl_sys c), cl_again := cl_again c @ again_by f (cl_phase c t)\<rparr>"
  by (simp add: moved_def)

lemma lock_inv_moved:
  assumes "lock_inv c" "advance f q (cl_phase c t) (cl_sys c) = Some (ph, s)"
  shows "lock_inv (moved f t ph s c)"
proof -
  consider (lock) "cl_phase c t = AtLock" | (unlock) r where "cl_phase c t = AtUnlock r"
    | (rest) "cl_phase c t \<noteq> AtLock" "\<forall>r. cl_phase c t \<noteq> AtUnlock r" by blast
  then show ?thesis
  proof cases
    case lock
    with advance_lock[OF assms(2)] assms(1) show ?thesis unfolding lock_inv_def moved_def by auto
  next
    case unlock
    with advance_lock[OF assms(2)] have "\<not> inside ph" "s = Unlock (cl_sys c)" by auto
    moreover from unlock assms(1) have "\<forall>u. u \<noteq> t \<longrightarrow> \<not> inside (cl_phase c u)"
      unfolding lock_inv_def by (metis inside.simps(5))
    ultimately show ?thesis by (auto simp: lock_inv_def moved_def)
  next
    case rest
    with advance_lock[OF assms(2)] show ?thesis
      using lock_inv_keep[OF assms(1)] by (simp add: moved_eq lock_inv_history)
  qed
qed

section \<open>Every accepted job is in one place\<close>

text \<open>A strategy that sends each pending row with the arguments of that row.\<close>

locale row_strategy = queue_strategy +
  assumes batch_args: "st_Schedule S f d depth = Inr batch \<Longrightarrow>
    \<exists>rows. map im_Args batch = map (\<lambda>r. AJob (row_jobArgs r)) rows \<and> mset rows = mset (db_pending d)"

interpretation easy_rows: row_strategy EasyBackfill
proof unfold_locales
  fix f d depth batch
  assume "st_Schedule EasyBackfill f d depth = Inr batch"
  then show "\<exists>rows. map im_Args batch = map (\<lambda>r. AJob (row_jobArgs r)) rows \<and> mset rows = mset (db_pending d)"
    by (auto simp: EasyBackfill_def easy_Schedule_eq comp_def split: option.splits
        intro!: exI[of _ "SelectPendingByCreation (db_pending d)"] pending.sel_rows)
qed

lemma river_jobs_simps [simp]:
  "river_jobs [] = []" "river_jobs (p # ps) = job_args (im_Args p) @ river_jobs ps"
  "river_jobs (ps @ qs) = river_jobs ps @ river_jobs qs"
  by (simp_all add: river_jobs_def)

lemma river_jobs_rows:
  "map im_Args batch = map (\<lambda>r. AJob (row_jobArgs r)) rows \<Longrightarrow> river_jobs batch = map row_jobArgs rows"
proof (induction batch arbitrary: rows)
  case (Cons p batch)
  then show ?case by (cases rows) auto
qed simp

lemma clearReservationJob_no_job [simp]: "job_args (im_Args clearReservationJob) = []"
  by (simp add: clearReservationJob_def)

text \<open>Deleting by the key of a pending row removes that row and no other.\<close>

lemma delete_one:
  assumes "pending_wf t" "r \<in> set t"
  shows "mset (DeleteFromPendingQuery (pq_name r) (pq_namespace r) t) = mset t - {#r#}"
  using assms
proof (induction t)
  case (Cons x t)
  have other: "x' \<in> set t \<Longrightarrow> row_key x' \<noteq> row_key x" for x' using Cons.prems(1) by (simp add: pending_wf_def image_iff) metis
  have "pq_name r = pq_name r' \<and> pq_namespace r = pq_namespace r' \<longleftrightarrow> row_key r' = row_key r" for r'
    by (auto simp: row_key_def)
  then have del: "DeleteFromPendingQuery (pq_name r) (pq_namespace r) t' = filter (\<lambda>r'. row_key r' \<noteq> row_key r) t'" for t'
    unfolding DeleteFromPendingQuery_def by (metis (lifting))
  show ?case
  proof (cases "x = r")
    case True
    then have "filter (\<lambda>r'. row_key r' \<noteq> row_key r) t = t" using other by (auto simp: filter_id_conv)
    then show ?thesis using True by (simp add: del)
  next
    case False
    with Cons.prems have "r \<in> set t" by simp
    then have "row_key x \<noteq> row_key r" using other[of r] by auto
    with False Cons \<open>r \<in> set t\<close> show ?thesis by (simp add: del pending_wf_def)
  qed
qed simp

definition sends :: "insertManyParams list \<Rightarrow> pendingRow list \<Rightarrow> bool" where
  "sends batch t \<longleftrightarrow> (\<exists>rows. map im_Args batch = map (\<lambda>r. AJob (row_jobArgs r)) rows \<and> mset rows \<subseteq># mset t)"

lemma sends_more: "sends batch t \<Longrightarrow> mset t \<subseteq># mset t' \<Longrightarrow> sends batch t'"
  unfolding sends_def using subset_mset.trans by blast

text \<open>The batch of a caller still matches pending rows; and the balance of accepted jobs.\<close>

definition batch_inv :: "callers \<Rightarrow> bool" where
  "batch_inv c \<longleftrightarrow> (\<forall>t batch. cl_phase c t \<in> {AtSend batch, AtDelete batch} \<longrightarrow> sends batch (db_pending (s_db (cl_sys c))))"

definition balance :: "callers \<Rightarrow> jobArgs list \<Rightarrow> bool" where
  "balance c open \<longleftrightarrow>
     mset (river_jobs (s_river (cl_sys c))) + mset (map row_jobArgs (db_pending (s_db (cl_sys c)))) =
     mset (map row_jobArgs (cl_accepted c)) + mset (cl_again c) + mset open"

definition account :: "callers \<Rightarrow> bool" where
  "account c \<longleftrightarrow> lock_inv c \<and> pending_wf (db_pending (s_db (cl_sys c))) \<and> batch_inv c \<and>
     (\<forall>t. (\<forall>u. u \<noteq> t \<longrightarrow> unfinished c u = []) \<longrightarrow> balance c (unfinished c t))"

text \<open>At most one caller has something unfinished.\<close>

lemma unfinished_alone:
  assumes "lock_inv c"
  obtains t where "\<forall>u. u \<noteq> t \<longrightarrow> unfinished c u = []"
proof -
  have "inside (cl_phase c u)" if "unfinished c u \<noteq> []" for u
    using that by (cases "cl_phase c u") (auto simp: unfinished_def)
  with assms have "u = t" if "unfinished c u \<noteq> []" "unfinished c t \<noteq> []" for u t
    using that unfolding lock_inv_def by blast
  then show ?thesis using that by metis
qed

lemma account_at:
  assumes "account c"
  obtains t where "\<forall>u. u \<noteq> t \<longrightarrow> unfinished c u = []" "balance c (unfinished c t)"
proof -
  have "lock_inv c" using assms by (simp add: account_def)
  then obtain t where t: "\<forall>u. u \<noteq> t \<longrightarrow> unfinished c u = []" by (rule unfinished_alone)
  with assms have "balance c (unfinished c t)" unfolding account_def by blast
  with t show ?thesis by (rule that)
qed

text \<open>When nothing is pending, all that was accepted is in river.\<close>

lemma balance_accepted:
  assumes "balance c jobs" "db_pending (s_db (cl_sys c)) = []" "r \<in> set (cl_accepted c)"
  shows "row_jobArgs r \<in> set (river_jobs (s_river (cl_sys c)))"
proof -
  have "mset (river_jobs (s_river (cl_sys c))) = mset (map row_jobArgs (cl_accepted c)) + mset (cl_again c) + mset jobs"
    using assms(1,2) by (simp add: balance_def)
  then have "row_jobArgs r \<in># mset (river_jobs (s_river (cl_sys c)))" using assms(3) by simp
  then show ?thesis by simp
qed

text \<open>While a caller is inside, all others have nothing unfinished.\<close>

lemma inside_others:
  assumes "lock_inv c" "inside (cl_phase c t)" "u \<noteq> t"
  shows "\<not> inside (cl_phase c u)" "unfinished c u = []"
proof -
  show *: "\<not> inside (cl_phase c u)" using assms unfolding lock_inv_def by blast
  then show "unfinished c u = []" by (auto simp: unfinished_def split: phase.splits)
qed

lemma balance_move:
  assumes "\<forall>u. u \<noteq> t \<longrightarrow> unfinished c u = []" "balance c (unfinished c t)" "\<forall>u. u \<noteq> t' \<longrightarrow> unfinished c u = []"
  shows "balance c (unfinished c t')"
  using assms by (cases "t' = t") auto

text \<open>The effects of a statement: a new row, a batch for river, one delete, or nothing on either.\<close>

lemma advance_effect:
  assumes "advance f q ph s = Some (ph', s')"
  obtains (accepted) spec e where "ph = AtInsert spec" "ph' = Returned (Enqueued JobEnqueueSuccess e)" "s_river s' = s_river s"
      "InsertIntoPending (enqueue_row spec (db_now (s_db s))) (db_pending (s_db s)) = Inr (db_pending (s_db s'))"
  | (sent) batch where "ph = AtSend batch" "ph' = AtDelete batch" "s_db s' = s_db s"
      "s_river s' = s_river s @ batch @ [clearReservationJob]"
  | (deleted) job batch args where "ph = AtDelete (job # batch)" "im_Args job = AJob args" "ph' = AtDelete batch"
      "s' = snd (deleteFromPending f (ja_Namespace args) (ja_Name args) s)"
  | (read) batch where "ph = AtSelect" "ph' = AtSend batch" "s' = s"
      "st_Schedule (q_Strategy q) f (s_db s) (q_ReservationDepth q) = Inr batch"
  | (panicked) job batch where "ph = AtDelete (job # batch)" "\<forall>args. im_Args job \<noteq> AJob args"
  | (quiet) "s_db s' = s_db s" "s_river s' = s_river s" "accepted_by ph ph' s = []" "again_by f ph = []"
      "\<forall>b. ph' \<noteq> AtSend b" "\<forall>b. ph' \<noteq> AtDelete b" "\<forall>b. ph = AtDelete b \<longrightarrow> b = []"
  using assms
proof (cases "(f, q, ph, s)" rule: advance.cases)
  case (8 f q job batch s)
  then show ?thesis using assms that(3,5) by (cases "im_Args job") auto
qed (use assms in \<open>auto split: option.splits sum.splits if_splits intro: that\<close>)

lemma unfinished_upd [simp]:
  "unfinished (moved f t ph s c) u = (if u = t then (case ph of AtDelete b \<Rightarrow> river_jobs b | _ \<Rightarrow> []) else unfinished c u)"
  by (simp add: unfinished_def moved_def)

lemma advance_wf: "advance f q ph s = Some (ph', s') \<Longrightarrow> pending_wf (db_pending (s_db s)) \<Longrightarrow> pending_wf (db_pending (s_db s'))"
proof -
  assume wf: "pending_wf (db_pending (s_db s))" and step: "advance f q ph s = Some (ph', s')"
  from step show ?thesis
  proof (cases rule: advance_effect)
    case accepted
    with wf show ?thesis by (auto intro: pending_wf_insert)
  next
    case deleted
    with wf show ?thesis by (simp add: deleteFromPending_def pending_wf_delete split: option.splits)
  next
    case panicked
    with step wf show ?thesis by (auto split: riverArgs.splits)
  qed (use wf in simp_all)
qed

text \<open>The row of the job at the head of a batch is pending, and it is the one that a delete removes.\<close>

lemma sends_delete:
  assumes "sends (job # batch) t" "pending_wf t" "im_Args job = AJob args"
  obtains r where "r \<in> set t" "args = row_jobArgs r"
    "mset (DeleteFromPendingQuery (ja_Name args) (ja_Namespace args) t) = mset t - {#r#}"
    "sends batch (DeleteFromPendingQuery (ja_Name args) (ja_Namespace args) t)" "sends batch t"
proof -
  from assms(1,3) obtain r rows where r: "args = row_jobArgs r" "map im_Args batch = map (\<lambda>r. AJob (row_jobArgs r)) rows"
    "add_mset r (mset rows) \<subseteq># mset t"
    unfolding sends_def by (auto simp: Cons_eq_map_conv)
  then have "r \<in># mset t" by (meson insert_subset_eq_iff)
  then have mem: "r \<in> set t" by simp
  have del: "mset (DeleteFromPendingQuery (ja_Name args) (ja_Namespace args) t) = mset t - {#r#}"
    using delete_one[OF assms(2) mem] r(1) by (simp add: row_jobArgs_def)
  have "mset rows \<subseteq># mset t - {#r#}" using r(3) by (simp add: insert_subset_eq_iff)
  with del r(2) have "sends batch (DeleteFromPendingQuery (ja_Name args) (ja_Namespace args) t)" "sends batch t"
    unfolding sends_def by (metis, metis diff_subset_eq_self subset_mset.trans)
  with mem r(1) del show ?thesis by (rule that)
qed

lemma pending_in_jobs: "r \<in> set t \<Longrightarrow> mset (map row_jobArgs t) = add_mset (row_jobArgs r) (image_mset row_jobArgs (mset t - {#r#}))"
  by (metis image_mset_add_mset insert_DiffM mset_map set_mset_mset)

text \<open>A new call changes nothing yet.\<close>

lemma account_call:
  assumes "account c" "cl_phase c t = Returned r" "\<not> inside ph"
  shows "account (c\<lparr>cl_phase := (cl_phase c)(t := ph)\<rparr>)"
proof -
  let ?c = "c\<lparr>cl_phase := (cl_phase c)(t := ph)\<rparr>"
  have "unfinished ?c u = unfinished c u" for u using assms(2,3) by (cases ph) (auto simp: unfinished_def)
  moreover have "balance ?c jobs = balance c jobs" for jobs by (simp add: balance_def)
  moreover have "batch_inv ?c" using assms by (auto simp: account_def batch_inv_def)
  moreover have "lock_inv ?c" using assms lock_inv_keep[of c ph t "cl_sys c"] by (simp add: account_def)
  ultimately show ?thesis using assms(1) by (simp add: account_def)
qed

context row_strategy
begin

lemma batch_inv_alone:
  assumes "lock_inv c" "inside (cl_phase c t)" "\<And>b. ph \<in> {AtSend b, AtDelete b} \<Longrightarrow> sends b (db_pending (s_db s))"
  shows "batch_inv (moved f t ph s c)"
proof -
  have "cl_phase c u \<noteq> AtSend b" "cl_phase c u \<noteq> AtDelete b" if "u \<noteq> t" for u b
    using inside_others(1)[OF assms(1,2) that] by auto
  with assms(3) show ?thesis unfolding batch_inv_def moved_def by (auto split: if_splits)
qed

lemma batch_inv_moved:
  assumes acc: "account c" and q: "q_Strategy q = S"
    and step: "advance f q (cl_phase c t) (cl_sys c) = Some (ph, s)"
  shows "batch_inv (moved f t ph s c)"
proof -
  let ?T = "db_pending (s_db (cl_sys c))" and ?T' = "db_pending (s_db s)"
  have inv: "lock_inv c" "pending_wf ?T" "batch_inv c" using acc by (simp_all add: account_def)
  have rest: "sends b ?T" if "cl_phase c u \<in> {AtSend b, AtDelete b}" for u b
    using inv(3) that unfolding batch_inv_def by blast
  have keep: "batch_inv (moved f t ph s c)"
    if "mset ?T \<subseteq># mset ?T'" "\<And>b. ph \<in> {AtSend b, AtDelete b} \<Longrightarrow> sends b ?T'"
    unfolding batch_inv_def moved_def using that(2) sends_more[OF rest that(1)] by (auto split: if_splits)
  note alone = batch_inv_alone[OF inv(1)]
  from step show ?thesis
  proof (cases rule: advance_effect)
    case accepted
    then show ?thesis by (intro keep) (auto dest!: pending.ins_rows)
  next
    case (sent b)
    with rest[of t b] show ?thesis by (intro keep) auto
  next
    case (deleted job b args)
    with rest[of t "job # b"] have "sends (job # b) ?T" by simp
    from sends_delete[OF this inv(2) deleted(2)] have "sends b ?T'"
      using deleted(4) by (auto simp: deleteFromPending_def split: option.splits)
    with deleted show ?thesis by (intro alone) auto
  next
    case (read b)
    with batch_args[of f "s_db s" "q_ReservationDepth q" b] q show ?thesis
      by (intro keep) (auto simp: sends_def)
  next
    case (panicked job b)
    with rest[of t "job # b"] show ?thesis unfolding sends_def by fastforce
  next
    case quiet
    then show ?thesis by (intro keep) auto
  qed
qed

lemma balance_same:
  assumes "account c" "unfinished c t = []" "unfinished (moved f t ph s c) t = []"
    and "\<And>jobs. balance c jobs \<Longrightarrow> balance (moved f t ph s c) jobs" "\<forall>u. u \<noteq> v \<longrightarrow> unfinished (moved f t ph s c) u = []"
  shows "balance (moved f t ph s c) (unfinished (moved f t ph s c) v)"
proof -
  have eq: "unfinished (moved f t ph s c) u = unfinished c u" for u using assms(2,3) by (cases "u = t") simp_all
  with assms(1,5) have "balance c (unfinished c v)" by (simp add: account_def)
  with eq assms(4) show ?thesis by simp
qed

lemma balance_alone:
  assumes "account c" "inside (cl_phase c t)"
    and "balance c (unfinished c t) \<Longrightarrow> balance (moved f t ph s c) (unfinished (moved f t ph s c) t)"
    and "\<forall>u. u \<noteq> v \<longrightarrow> unfinished (moved f t ph s c) u = []"
  shows "balance (moved f t ph s c) (unfinished (moved f t ph s c) v)"
proof -
  have others: "unfinished c u = []" if "u \<noteq> t" for u using inside_others(2)[of c t] assms(1,2) that by (simp add: account_def)
  with assms(1) have "balance c (unfinished c t)" unfolding account_def by blast
  with others assms(4) show ?thesis by (intro balance_move[where t = t and t' = v] assms(3)) simp_all
qed

lemma balance_moved:
  assumes acc: "account c" and step: "advance f q (cl_phase c t) (cl_sys c) = Some (ph, s)"
    and rest: "\<forall>u. u \<noteq> v \<longrightarrow> unfinished (moved f t ph s c) u = []"
  shows "balance (moved f t ph s c) (unfinished (moved f t ph s c) v)"
proof -
  let ?T = "db_pending (s_db (cl_sys c))"
  note same = balance_same[OF acc _ _ _ rest] and alone = balance_alone[OF acc _ _ rest]
  have inv: "pending_wf ?T" "batch_inv c" using acc by (simp_all add: account_def)
  from step show ?thesis
  proof (cases rule: advance_effect)
    case (accepted spec e)
    then show ?thesis
      by (intro same) (auto simp: unfinished_def moved_def balance_def dest!: pending.ins_rows)
  next
    case (sent b)
    then show ?thesis by (intro alone) (simp_all add: unfinished_def moved_def balance_def)
  next
    case (deleted job b args)
    then have "sends (job # b) ?T" using inv(2) unfolding batch_inv_def by blast
    from sends_delete[OF this inv(1) deleted(2)] obtain r where r: "r \<in> set ?T" "args = row_jobArgs r"
      "mset (DeleteFromPendingQuery (ja_Name args) (ja_Namespace args) ?T) = mset ?T - {#r#}" by blast
    show ?thesis
      using deleted pending_in_jobs[OF r(1)] r(2,3)
      by (intro alone) (auto simp: unfinished_def moved_def balance_def deleteFromPending_def split: option.splits)
  next
    case (read b)
    then show ?thesis by (intro same) (simp_all add: unfinished_def moved_def balance_def)
  next
    case (panicked job b)
    then have "sends (job # b) ?T" using inv(2) unfolding batch_inv_def by blast
    with panicked show ?thesis unfolding sends_def by fastforce
  next
    case quiet
    then show ?thesis by (intro same) (auto simp: unfinished_def moved_def balance_def split: phase.splits)
  qed
qed

lemma account_step:
  assumes "queue_step q c c'" "q_Strategy q = S" "account c"
  shows "account c'"
  using assms(1)
proof (cases rule: queue_step.cases)
  case (run f t ph s)
  with assms(2,3) lock_inv_moved[of c f q t ph s] advance_wf[OF run(2)] batch_inv_moved[of c q f t ph s] balance_moved[of c f q t ph s]
  show ?thesis by (auto simp: account_def moved_def)
next
  case (enqueue t r spec)
  with assms(3) show ?thesis by (simp add: account_call)
next
  case (schedule t r)
  with assms(3) show ?thesis by (simp add: account_call)
qed (use assms(3) in \<open>auto simp: account_def batch_inv_def balance_def unfinished_def lock_inv_def IsInScheduleLoop_def mutexLocked_def\<close>)

lemma account_reachable: "(queue_step q)\<^sup>*\<^sup>* c c' \<Longrightarrow> q_Strategy q = S \<Longrightarrow> account c \<Longrightarrow> account c'"
  by (induction rule: rtranclp_induct) (auto intro: account_step)

end

lemma account_quiet: "all_quiet c \<Longrightarrow> account c"
proof -
  assume quiet: "all_quiet c"
  then obtain r where "cl_phase c = (\<lambda>t. Returned (r t))" unfolding all_quiet_def by metis
  with quiet show ?thesis
    by (simp add: all_quiet_def account_def lock_inv_def batch_inv_def balance_def unfinished_def)
qed

section \<open>Undisturbed callers\<close>

text \<open>Up to \<open>n\<close> statements of one caller in a row.\<close>

fun undisturbed :: "nat \<Rightarrow> faults \<Rightarrow> queue \<Rightarrow> phase \<times> sys \<Rightarrow> phase \<times> sys" where
  "undisturbed 0 f q c = c"
| "undisturbed (Suc n) f q (ph, s) = (case advance f q ph s of None \<Rightarrow> (ph, s) | Some c \<Rightarrow> undisturbed n f q c)"

lemma undisturbed_stuck: "advance f q ph s = None \<Longrightarrow> undisturbed n f q (ph, s) = (ph, s)"
  by (cases n) simp_all

lemma undisturbed_add: "undisturbed (m + n) f q c = undisturbed n f q (undisturbed m f q c)"
proof (induction m arbitrary: c)
  case (Suc m)
  obtain ph s where "c = (ph, s)" by fastforce
  with Suc show ?case by (simp add: undisturbed_stuck split: option.splits)
qed simp

lemma undisturbed_Returned [simp]: "undisturbed n f q (Returned r, s) = (Returned r, s)"
  by (simp add: undisturbed_stuck)

lemma undisturbed_more: "undisturbed m f q c = (Returned r, s) \<Longrightarrow> m \<le> n \<Longrightarrow> undisturbed n f q c = (Returned r, s)"
  by (metis le_add_diff_inverse undisturbed_Returned undisturbed_add)

lemma undisturbed_deletes:
  "delete_batch f batch s = Ret s' \<Longrightarrow> undisturbed (length batch) f q (AtDelete batch, s) = (AtDelete [], s')"
  by (induction batch arbitrary: s) (auto split: riverArgs.splits)

text \<open>After the last delete three statements are left.\<close>

lemma undisturbed_sent:
  assumes "ft_insertMany f = None"
    and "delete_batch f batch (s\<lparr>s_river := s_river s @ batch @ [clearReservationJob]\<rparr>) = Ret s'"
  shows "undisturbed (length batch + 4) f q (AtSend batch, s) =
    (Returned (Scheduled (st_PostSubmit (q_Strategy q) f (s_db s'))), Unlock s')"
proof -
  have "undisturbed (length batch + 4) f q (AtSend batch, s) =
      undisturbed 3 f q (undisturbed (length batch) f q (AtDelete batch, s\<lparr>s_river := s_river s @ batch @ [clearReservationJob]\<rparr>))"
    using assms(1) by (simp add: undisturbed_add[symmetric] numeral_eq_Suc)
  then show ?thesis by (simp add: undisturbed_deletes[OF assms(2)] numeral_eq_Suc)
qed

lemma undisturbed_Enqueue:
  assumes "2 \<le> n"
  shows "undisturbed n f q (AtPending spec, s) =
     (case Enqueue f spec s of ((st, e), s') \<Rightarrow> (Returned (Enqueued st e), s'))"
proof -
  have "undisturbed 2 f q (AtPending spec, s) = (case Enqueue f spec s of ((st, e), s') \<Rightarrow> (Returned (Enqueued st e), s'))"
    by (auto simp: numeral_eq_Suc Enqueue_eq InsertIntoPending_def enqueue_row_def row_key_def split: option.splits)
  with assms show ?thesis by (cases "Enqueue f spec s") (auto intro: undisturbed_more)
qed

text \<open>The check, the lock and the select come first.\<close>

lemma undisturbed_selected:
  assumes "\<not> IsInScheduleLoop s"
  shows "undisturbed (3 + n) f q (AtCheck, s) = undisturbed n f q
    (case st_Schedule (q_Strategy q) f (s_db s) (q_ReservationDepth q) of
       Inl e \<Rightarrow> (AtUnlock (Scheduled (Some e)), Lock s)
     | Inr batch \<Rightarrow> (if batch \<noteq> [] then AtSend batch else AtPost, Lock s))"
  using assms by (simp add: undisturbed_add numeral_eq_Suc)

context queue_strategy
begin

lemma undisturbed_Schedule:
  assumes q: "q_Strategy q = S" and n: "length (db_pending (s_db s)) + 7 \<le> n"
    and run: "Schedule f q s = Ret (e, s')"
  shows "undisturbed n f q (AtCheck, s) = (Returned (Scheduled e), s')"
proof -
  consider (busy) "IsInScheduleLoop s"
    | (unsent) "\<not> IsInScheduleLoop s" "\<forall>batch. st_Schedule S f (s_db s) (q_ReservationDepth q) = Inr batch \<longrightarrow> batch = [] \<or> ft_insertMany f \<noteq> None"
    | (sent) batch where "\<not> IsInScheduleLoop s" "st_Schedule S f (s_db s) (q_ReservationDepth q) = Inr batch" "batch \<noteq> []" "ft_insertMany f = None"
    by blast
  then show ?thesis
  proof cases
    case busy
    with run have "undisturbed 1 f q (AtCheck, s) = (Returned (Scheduled e), s')" by (auto simp: Schedule_def)
    then show ?thesis by (rule undisturbed_more) (use n in simp)
  next
    case unsent
    with run q have "undisturbed (3 + 2) f q (AtCheck, s) = (Returned (Scheduled e), s')"
      unfolding undisturbed_selected[OF unsent(1)]
      by (auto simp: Schedule_def numeral_eq_Suc split: sum.splits option.splits if_splits)
    then show ?thesis by (rule undisturbed_more) (use n in simp)
  next
    case (sent batch)
    obtain jobs where jobs: "map im_Args batch = map AJob jobs" "mset (map job_key jobs) = mset (map row_key (db_pending (s_db s)))"
      using batch_rows[OF sent(2)] by blast
    then have len: "length batch = length (db_pending (s_db s))" by (metis length_map size_mset)
    obtain t where t: "delete_batch f batch ((Lock s)\<lparr>s_river := s_river (Lock s) @ batch @ [clearReservationJob]\<rparr>) = Ret t"
      using delete_batch_jobs[OF jobs(1)] by blast
    from sent t run q have "(e, s') = (st_PostSubmit S f (s_db t), Unlock t)" by (simp add: Schedule_def)
    then have "undisturbed (3 + (length batch + 4)) f q (AtCheck, s) = (Returned (Scheduled e), s')"
      using undisturbed_selected[OF sent(1), of "length batch + 4" f q] sent(2,3) undisturbed_sent[OF sent(4) t, of q] q by simp
    then show ?thesis by (rule undisturbed_more) (use n len in simp)
  qed
qed

end

section \<open>The lock is always released\<close>

text \<open>A caller inside the loop gets out of it, whatever its batch.\<close>

lemma undisturbed_leaves:
  assumes "inside ph"
  shows "\<exists>n r s'. undisturbed n f q (ph, s) = (Returned r, s') \<and> \<not> IsInScheduleLoop s'"
proof -
  define leaves where "leaves ph s \<longleftrightarrow> (\<exists>n r s'. undisturbed n f q (ph, s) = (Returned r, s') \<and> \<not> IsInScheduleLoop s')" for ph s
  have step: "leaves ph s" if "advance f q ph s = Some (ph', s')" "leaves ph' s'" for ph s ph' s'
  proof -
    from that(2) obtain n r t where "undisturbed n f q (ph', s') = (Returned r, t)" "\<not> IsInScheduleLoop t" unfolding leaves_def by blast
    with that(1) have "undisturbed (Suc n) f q (ph, s) = (Returned r, t)" by simp
    with \<open>\<not> IsInScheduleLoop t\<close> show ?thesis unfolding leaves_def by blast
  qed
  have unlock: "leaves (AtUnlock r) s" for r s unfolding leaves_def by (rule exI[of _ 1]) simp
  have post: "leaves AtPost s" for s using unlock by (rule step[rotated]) simp
  have delete: "leaves (AtDelete batch) s" for batch s
  proof (induction batch arbitrary: s)
    case Nil
    show ?case using post by (rule step[rotated]) simp
  next
    case (Cons job batch)
    then show ?case by (cases "im_Args job") (rule step, simp, simp add: unlock)+
  qed
  have send: "leaves (AtSend batch) s" for batch s
    by (cases "ft_insertMany f") (rule step, simp, simp add: unlock delete)+
  have select: "leaves AtSelect s" for s
    by (cases "st_Schedule (q_Strategy q) f (s_db s) (q_ReservationDepth q)") (rule step, simp, simp add: unlock post send)+
  show ?thesis using assms unlock post delete send select by (cases ph) (auto simp: leaves_def)
qed

text \<open>Without faults, the statements of one caller in a row are steps of the callers under way.\<close>

lemma undisturbed_steps:
  "\<exists>c'. (statement_step q)\<^sup>*\<^sup>* c c' \<and> (cl_phase c' t, cl_sys c') = undisturbed n no_faults q (cl_phase c t, cl_sys c) \<and>
     (\<forall>u. u \<noteq> t \<longrightarrow> cl_phase c' u = cl_phase c u)"
proof (induction n arbitrary: c)
  case (Suc n)
  show ?case
  proof (cases "advance no_faults q (cl_phase c t) (cl_sys c)")
    case None
    then show ?thesis by (intro exI[of _ c]) simp
  next
    case (Some x)
    obtain ph s where ns: "x = (ph, s)" by fastforce
    with Some have "statement_step q c (moved no_faults t ph s c)" by (simp add: statement_step.statement)
    moreover obtain c' where "(statement_step q)\<^sup>*\<^sup>* (moved no_faults t ph s c) c'" "(cl_phase c' t, cl_sys c') = undisturbed n no_faults q (ph, s)"
      "\<forall>u. u \<noteq> t \<longrightarrow> cl_phase c' u = cl_phase c u"
      using Suc[of "moved no_faults t ph s c"] by (auto simp: moved_def)
    ultimately show ?thesis using Some ns by (intro exI[of _ c']) (auto intro: converse_rtranclp_into_rtranclp)
  qed
qed auto

lemma lock_becomes_free:
  assumes "lock_inv c" "cl_phase c t = AtLock"
  shows "\<exists>c'. (statement_step q)\<^sup>*\<^sup>* c c' \<and> cl_phase c' t = AtLock \<and> \<not> IsInScheduleLoop (cl_sys c')"
proof (cases "IsInScheduleLoop (cl_sys c)")
  case True
  with assms(1) obtain u where u: "inside (cl_phase c u)" unfolding lock_inv_def by blast
  with assms(2) have "u \<noteq> t" by auto
  obtain n r s where run: "undisturbed n no_faults q (cl_phase c u, cl_sys c) = (Returned r, s)" "\<not> IsInScheduleLoop s"
    using undisturbed_leaves[OF u] by blast
  obtain c' where c': "(statement_step q)\<^sup>*\<^sup>* c c'" "(cl_phase c' u, cl_sys c') = undisturbed n no_faults q (cl_phase c u, cl_sys c)"
    "\<forall>v. v \<noteq> u \<longrightarrow> cl_phase c' v = cl_phase c v" using undisturbed_steps[of q c u n] by blast
  have "cl_phase c' t = AtLock" using c'(3) \<open>u \<noteq> t\<close> assms(2) by metis
  moreover have "\<not> IsInScheduleLoop (cl_sys c')" using c'(2) run by simp
  ultimately show ?thesis using c'(1) by blast
qed (use assms(2) in auto)

text \<open>A call descends through its statements, a delete through its batch. It stops before the lock only, while
  another caller is inside.\<close>

fun stage :: "phase \<Rightarrow> nat" where
  "stage (AtPending _) = 2"
| "stage (AtInsert _) = 1"
| "stage AtCheck = 7"
| "stage AtLock = 6"
| "stage AtSelect = 5"
| "stage (AtSend _) = 4"
| "stage (AtDelete _) = 3"
| "stage AtPost = 2"
| "stage (AtUnlock _) = 1"
| "stage (Returned _) = 0"

fun left :: "phase \<Rightarrow> nat" where
  "left (AtDelete batch) = length batch"
| "left _ = 0"

lemma phases_descend: "wf {(ph', ph). \<exists>f s s'. advance f q ph s = Some (ph', s')}"
proof (rule wf_subset[OF wf_measures[of "[stage, left]"]], rule subsetI, clarify)
  fix ph' ph f s s'
  assume "advance f q ph s = Some (ph', s')"
  then show "(ph', ph) \<in> measures [stage, left]"
    by (cases "(f, q, ph, s)" rule: advance.cases)
       (auto split: option.splits sum.splits if_splits riverArgs.splits)
qed

lemma advance_stuck: "advance f q ph s = None \<longleftrightarrow> (\<exists>r. ph = Returned r) \<or> ph = AtLock \<and> IsInScheduleLoop s"
  by (cases "(f, q, ph, s)" rule: advance.cases) auto

lemma some_caller_moves:
  assumes "lock_inv c" "\<forall>r. cl_phase c t \<noteq> Returned r"
  shows "\<exists>u. \<forall>f. advance f q (cl_phase c u) (cl_sys c) \<noteq> None"
proof (cases "cl_phase c t = AtLock \<and> IsInScheduleLoop (cl_sys c)")
  case True
  with assms(1) obtain u where "inside (cl_phase c u)" unfolding lock_inv_def by blast
  then show ?thesis by (intro exI[of _ u]) (auto simp: advance_stuck)
next
  case False
  with assms(2) show ?thesis by (intro exI[of _ t]) (auto simp: advance_stuck)
qed

text \<open>A schedule loop without faults that gets the lock empties the pending table.\<close>

lemma undisturbed_drains:
  assumes "\<not> IsInScheduleLoop s"
  shows "\<exists>n s'. undisturbed n no_faults \<lparr>q_Strategy = EasyBackfill, q_ReservationDepth = depth\<rparr> (AtLock, s) =
      (Returned (Scheduled None), s') \<and> db_pending (s_db s') = [] \<and> \<not> IsInScheduleLoop s'"
proof -
  let ?q = "\<lparr>q_Strategy = EasyBackfill, q_ReservationDepth = depth\<rparr>"
  have f: "ft_select no_faults = None" "ft_collect no_faults = None" "ft_insertMany no_faults = None" "ft_delete no_faults ns n = None" for ns n
    by (simp_all add: no_faults_def)
  have "\<exists>s'. Schedule no_faults ?q s = Ret (None, s') \<and> db_pending (s_db s') = [] \<and> \<not> IsInScheduleLoop s'"
  proof (cases "db_pending (s_db s) = []")
    case True
    with assms show ?thesis by (auto simp: Schedule_def EasyBackfill_def easy_Schedule_eq easy_PostSubmit_def f)
  next
    case False
    obtain s' jobs where s': "Schedule no_faults ?q s = Ret (None, s')" "s_lock s' = s_lock s"
      "db_pending (s_db s') = filter (kept no_faults jobs) (db_pending (s_db s))"
      "set (map job_key jobs) = set (map row_key (db_pending (s_db s)))"
      using easy_Schedule_sent[OF assms False f(1-3)] by metis
    then have "db_pending (s_db s') = []" using f(4) by (simp only:) (intro filter_all_removed, auto simp: kept_def)
    with s' assms same_lock[OF s'(2)] show ?thesis by simp
  qed
  then obtain s' where s': "Schedule no_faults ?q s = Ret (None, s')" "db_pending (s_db s') = []" "\<not> IsInScheduleLoop s'" by blast
  define n where "n = length (db_pending (s_db s)) + 6"
  have "undisturbed (Suc n) no_faults ?q (AtCheck, s) = (Returned (Scheduled None), s')"
    using easy.undisturbed_Schedule[OF _ _ s'(1)] by (simp add: n_def)
  with assms s' show ?thesis by auto
qed

section \<open>Schedules of two callers\<close>

datatype action = CallEnqueue nat fluxJob | CallSchedule nat | Run nat

text \<open>One action; a caller that cannot move stays where it is.\<close>

fun perform :: "queue \<Rightarrow> action \<Rightarrow> callers \<Rightarrow> callers" where
  "perform q (CallEnqueue t spec) c =
     (case cl_phase c t of Returned _ \<Rightarrow> c\<lparr>cl_phase := (cl_phase c)(t := AtPending spec)\<rparr> | _ \<Rightarrow> c)"
| "perform q (CallSchedule t) c =
     (case cl_phase c t of Returned _ \<Rightarrow> c\<lparr>cl_phase := (cl_phase c)(t := AtCheck)\<rparr> | _ \<Rightarrow> c)"
| "perform q (Run t) c =
     (case advance no_faults q (cl_phase c t) (cl_sys c) of Some (ph, s) \<Rightarrow> moved no_faults t ph s c | None \<Rightarrow> c)"

lemma perform_step: "queue_step q c (perform q a c) \<or> perform q a c = c"
  by (cases a) (auto intro: queue_step.intros split: phase.splits option.splits)

lemma perform_reach: "(queue_step q)\<^sup>*\<^sup>* c (fold (perform q) as c)"
proof (induction "as" arbitrary: c)
  case (Cons a "as")
  from perform_step[of q c a] Cons[of "perform q a c"] show ?case by (auto intro: converse_rtranclp_into_rtranclp)
qed simp

text \<open>
  A job can be left behind: caller 1 enqueues it after caller 0 has read the pending table, finds the
  lock held and returns without an error. When both have returned the job is pending, and nobody is
  going to schedule it until there is another call.
\<close>

lemma enqueued_job_left_behind:
  assumes "all_quiet c" "db_pending (s_db (cl_sys c)) = []"
  shows "\<exists>c'. (queue_step \<lparr>q_Strategy = EasyBackfill, q_ReservationDepth = depth\<rparr>)\<^sup>*\<^sup>* c c' \<and>
    db_pending (s_db (cl_sys c')) = [enqueue_row spec (db_now (s_db (cl_sys c)))] \<and>
    s_river (cl_sys c') = s_river (cl_sys c) \<and> (\<forall>t. \<exists>r. cl_phase c' t = Returned r) \<and>
    cl_phase c' 0 = Returned (Scheduled None) \<and> cl_phase c' 1 = Returned (Scheduled None)"
proof -
  obtain r where "cl_phase c = (\<lambda>t. Returned (r t))" using assms(1) unfolding all_quiet_def by metis
  with assms show ?thesis
    by (intro exI[of _ "fold (perform \<lparr>q_Strategy = EasyBackfill, q_ReservationDepth = depth\<rparr>)
        [CallSchedule 0, Run 0, Run 0, Run 0, CallEnqueue 1 spec, Run 1, Run 1, CallSchedule 1, Run 1, Run 0, Run 0] c"]
        conjI perform_reach)
      (auto simp: all_quiet_def moved_def no_faults_def EasyBackfill_def easy_Schedule_eq easy_PostSubmit_def InsertIntoPending_def Lock_def[symmetric])
qed

section \<open>Properties\<close>

definition ex_callers :: callers where
  "ex_callers = \<lparr>cl_sys = ex_sys, cl_phase = (\<lambda>_. Returned (Scheduled None)), cl_accepted = db_pending ex_db, cl_again = []\<rparr>"

lemma ex_callers_quiet: "all_quiet ex_callers"
  by (simp add: all_quiet_def ex_callers_def) (simp add: ex_queue_defs pending_wf_def row_key_def)

text \<open>Two callers check before either locks: the second waits while the first has read two jobs and
  handed them to river.\<close>

definition ex_race :: callers where
  "ex_race = fold (perform \<lparr>q_Strategy = EasyBackfill, q_ReservationDepth = 1\<rparr>)
     [CallSchedule 0, CallSchedule 1, Run 0, Run 1, Run 0, Run 0, Run 0] ex_callers"

lemma ex_race_reached: "(queue_step \<lparr>q_Strategy = EasyBackfill, q_ReservationDepth = 1\<rparr>)\<^sup>*\<^sup>* ex_callers ex_race"
  unfolding ex_race_def by (rule perform_reach)

lemma ex_race_phases: "cl_phase ex_race 1 = AtLock"
  "\<exists>batch. cl_phase ex_race 0 = AtDelete batch \<and> map im_Args batch = [AJob (row_jobArgs (ex_row ''b'' 2)), AJob (row_jobArgs (ex_row ''a'' 1))]"
  proof -
  have "s_db ex_sys = ex_db" by (simp add: ex_sys_def)
  then show "cl_phase ex_race 1 = AtLock" "\<exists>batch. cl_phase ex_race 0 = AtDelete batch \<and>
      map im_Args batch = [AJob (row_jobArgs (ex_row ''b'' 2)), AJob (row_jobArgs (ex_row ''a'' 1))]"
    by (simp_all add: ex_race_def ex_callers_def moved_def no_faults_def EasyBackfill_def easy_Schedule_eq ex_selected)
qed

text \<open>C2: every job that was accepted into the pending table is submitted exactly once, however the
  statements of concurrent \<open>Enqueue\<close> and \<open>Schedule\<close> calls interleave. In every reachable
  state at most one caller \<open>t\<close> has jobs in river whose rows it has not tried to delete yet; counted with
  multiplicity, the jobs in river and in the pending table are the accepted ones, those of \<open>t\<close>, and
  one more for each row that stayed because its delete failed or the process restarted before it. The
  callers inside the loop exclude each other, \<open>IsInScheduleLoop\<close> tells whether there is one, and
  the unique index holds.\<close>
theorem jobs_submitted_exactly_once:
  assumes "all_quiet c" "(queue_step \<lparr>q_Strategy = EasyBackfill, q_ReservationDepth = depth\<rparr>)\<^sup>*\<^sup>* c c'"
  shows "(\<exists>t. (\<forall>u. u \<noteq> t \<longrightarrow> unfinished c' u = []) \<and>
      mset (river_jobs (s_river (cl_sys c'))) + mset (map row_jobArgs (db_pending (s_db (cl_sys c')))) =
      mset (map row_jobArgs (cl_accepted c')) + mset (cl_again c') + mset (unfinished c' t)) \<and>
    (\<forall>t u. inside (cl_phase c' t) \<and> inside (cl_phase c' u) \<longrightarrow> t = u) \<and>
    (IsInScheduleLoop (cl_sys c') \<longleftrightarrow> (\<exists>t. inside (cl_phase c' t))) \<and> pending_wf (db_pending (s_db (cl_sys c')))"
proof -
  have acc: "account c'" using easy_rows.account_reachable[OF assms(2) _ account_quiet[OF assms(1)]] by simp
  then obtain t where t: "\<forall>u. u \<noteq> t \<longrightarrow> unfinished c' u = []" "balance c' (unfinished c' t)" by (rule account_at)
  have "lock_inv c'" "pending_wf (db_pending (s_db (cl_sys c')))" using acc by (simp_all add: account_def)
  with t show ?thesis unfolding balance_def lock_inv_def by (intro conjI exI[of _ t]) simp_all
qed

theorem jobs_submitted_exactly_once_witness:
  "\<exists>t. unfinished ex_race t = map row_jobArgs [ex_row ''b'' 2, ex_row ''a'' 1] \<and> IsInScheduleLoop (cl_sys ex_race) \<and>
    mset (river_jobs (s_river (cl_sys ex_race))) + mset (map row_jobArgs (db_pending (s_db (cl_sys ex_race)))) =
    mset (map row_jobArgs (cl_accepted ex_race)) + mset (cl_again ex_race) + mset (unfinished ex_race t)"
proof -
  obtain batch where b: "cl_phase ex_race 0 = AtDelete batch"
    "map im_Args batch = [AJob (row_jobArgs (ex_row ''b'' 2)), AJob (row_jobArgs (ex_row ''a'' 1))]"
    using ex_race_phases(2) by (elim exE conjE)
  then have u: "unfinished ex_race 0 = map row_jobArgs [ex_row ''b'' 2, ex_row ''a'' 1]"
    by (simp add: unfinished_def river_jobs_rows[of batch "[ex_row ''b'' 2, ex_row ''a'' 1]"])
  from jobs_submitted_exactly_once[OF ex_callers_quiet ex_race_reached] obtain t
    where t: "\<forall>u. u \<noteq> t \<longrightarrow> unfinished ex_race u = []" and loop: "IsInScheduleLoop (cl_sys ex_race) \<longleftrightarrow> (\<exists>t. inside (cl_phase ex_race t))"
      and sum: "mset (river_jobs (s_river (cl_sys ex_race))) + mset (map row_jobArgs (db_pending (s_db (cl_sys ex_race)))) =
        mset (map row_jobArgs (cl_accepted ex_race)) + mset (cl_again ex_race) + mset (unfinished ex_race t)" by (elim conjE exE)
  have "unfinished ex_race 0 \<noteq> []" using u by simp
  with t have "t = 0" by metis
  moreover have "IsInScheduleLoop (cl_sys ex_race)" using loop b(1) by (metis inside.simps(3))
  ultimately show ?thesis using u sum by (intro exI[of _ 0]) simp
qed

text \<open>C11: the lock never keeps a caller out for good. From every state that is reachable by any
  interleaving, fault or restart and in which a caller waits for the lock, statements of the callers under
  way alone, with no fault, no new call and no restart, let the one that holds the lock leave its loop, and then the
  waiting one run its own and return without an error; after that the pending table is empty and every job
  accepted so far was handed to river.\<close>
theorem waiting_caller_schedules:
  assumes "all_quiet c0" "(queue_step \<lparr>q_Strategy = EasyBackfill, q_ReservationDepth = depth\<rparr>)\<^sup>*\<^sup>* c0 c" "cl_phase c t = AtLock"
  shows "\<exists>c'. (statement_step \<lparr>q_Strategy = EasyBackfill, q_ReservationDepth = depth\<rparr>)\<^sup>*\<^sup>* c c' \<and>
    cl_phase c' t = Returned (Scheduled None) \<and> db_pending (s_db (cl_sys c')) = [] \<and>
    (\<forall>r \<in> set (cl_accepted c'). row_jobArgs r \<in> set (river_jobs (s_river (cl_sys c'))))"
proof -
  let ?q = "\<lparr>q_Strategy = EasyBackfill, q_ReservationDepth = depth\<rparr>"
  have reach: "account c'" if "(statement_step ?q)\<^sup>*\<^sup>* c c'" for c'
    using easy_rows.account_reachable[OF rtranclp_trans[OF assms(2) statements_are_steps[OF that]] _ account_quiet[OF assms(1)]] by simp
  have "lock_inv c" using reach[of c] by (simp add: account_def)
  then obtain c1 where c1: "(statement_step ?q)\<^sup>*\<^sup>* c c1" "cl_phase c1 t = AtLock" "\<not> IsInScheduleLoop (cl_sys c1)"
    using lock_becomes_free[OF _ assms(3), of ?q] by blast
  obtain n s where run: "undisturbed n no_faults ?q (AtLock, cl_sys c1) = (Returned (Scheduled None), s)"
    "db_pending (s_db s) = []" "\<not> IsInScheduleLoop s" using undisturbed_drains[OF c1(3)] by blast
  obtain c2 where c2: "(statement_step ?q)\<^sup>*\<^sup>* c1 c2" "(cl_phase c2 t, cl_sys c2) = undisturbed n no_faults ?q (cl_phase c1 t, cl_sys c1)"
    using undisturbed_steps[of ?q c1 t n] by blast
  with run c1(2) have fin: "cl_phase c2 t = Returned (Scheduled None)" "cl_sys c2 = s" by simp_all
  have steps: "(statement_step ?q)\<^sup>*\<^sup>* c c2" using c1(1) c2(1) by simp
  have acc: "account c2" using reach[OF steps] .
  then obtain u where bal: "balance c2 (unfinished c2 u)" by (rule account_at)
  have "row_jobArgs r \<in> set (river_jobs (s_river (cl_sys c2)))" if "r \<in> set (cl_accepted c2)" for r
    using bal that fin(2) run(2) by (intro balance_accepted) auto
  with steps fin run(2) show ?thesis by auto
qed

theorem waiting_caller_schedules_witness:
  "\<exists>c'. cl_phase c' 1 = Returned (Scheduled None) \<and> db_pending (s_db (cl_sys c')) = [] \<and>
    (statement_step \<lparr>q_Strategy = EasyBackfill, q_ReservationDepth = 1\<rparr>)\<^sup>*\<^sup>* ex_race c'"
  using waiting_caller_schedules[OF ex_callers_quiet ex_race_reached ex_race_phases(1)] by blast

text \<open>C12: no call runs forever and no calls block each other. The positions of a call descend along a well-founded
  order, whatever fails and whatever other callers do to the shared state between its statements; and in every
  reachable state in which a call has not returned, some caller has a statement it can run, whatever fails.\<close>
theorem calls_progress:
  assumes "all_quiet c0" "(queue_step \<lparr>q_Strategy = EasyBackfill, q_ReservationDepth = depth\<rparr>)\<^sup>*\<^sup>* c0 c"
  shows "wf {(ph', ph). \<exists>f s s'. advance f \<lparr>q_Strategy = EasyBackfill, q_ReservationDepth = depth\<rparr> ph s = Some (ph', s')} \<and>
    ((\<exists>t. \<forall>r. cl_phase c t \<noteq> Returned r) \<longrightarrow>
     (\<exists>u. \<forall>f. advance f \<lparr>q_Strategy = EasyBackfill, q_ReservationDepth = depth\<rparr> (cl_phase c u) (cl_sys c) \<noteq> None))"
proof -
  have "account c" using easy_rows.account_reachable[OF assms(2) _ account_quiet[OF assms(1)]] by simp
  then have "lock_inv c" by (simp add: account_def)
  then show ?thesis using phases_descend some_caller_moves by blast
qed

theorem calls_progress_witness:
  "\<exists>u. advance no_faults \<lparr>q_Strategy = EasyBackfill, q_ReservationDepth = 1\<rparr> (cl_phase ex_race u) (cl_sys ex_race) \<noteq> None"
proof -
  have "\<forall>r. cl_phase ex_race 1 \<noteq> Returned r" using ex_race_phases(1) by simp
  then show ?thesis using calls_progress[OF ex_callers_quiet ex_race_reached] by blast
qed

text \<open>C14: the statements of a call that no other caller disturbs compute the sequential operations: two
  statements are enough for \<open>Enqueue\<close>, and seven and one for each pending row for \<open>Schedule\<close>,
  whatever fails.\<close>
theorem undisturbed_calls_refine:
  assumes "length (db_pending (s_db s)) + 7 \<le> n"
  shows "undisturbed n f \<lparr>q_Strategy = EasyBackfill, q_ReservationDepth = depth\<rparr> (AtPending spec, s) =
      (case Enqueue f spec s of ((st, e), s') \<Rightarrow> (Returned (Enqueued st e), s')) \<and>
    (\<exists>e s'. Schedule f \<lparr>q_Strategy = EasyBackfill, q_ReservationDepth = depth\<rparr> s = Ret (e, s') \<and>
      undisturbed n f \<lparr>q_Strategy = EasyBackfill, q_ReservationDepth = depth\<rparr> (AtCheck, s) = (Returned (Scheduled e), s'))"
proof -
  let ?q = "\<lparr>q_Strategy = EasyBackfill, q_ReservationDepth = depth\<rparr>"
  obtain e s' where run: "Schedule f ?q s = Ret (e, s')" using easy.Schedule_returns[of ?q f s] by auto
  have "2 \<le> n" using assms by simp
  from undisturbed_Enqueue[OF this] easy.undisturbed_Schedule[OF _ assms run] run show ?thesis by simp
qed

theorem undisturbed_calls_refine_witness:
  "\<exists>s'. undisturbed 9 no_faults \<lparr>q_Strategy = EasyBackfill, q_ReservationDepth = 1\<rparr> (AtPending (ex_job ''c''), ex_sys) =
      (Returned (Enqueued JobEnqueueSuccess None), s') \<and> length (db_pending (s_db s')) = 3"
proof -
  have "length (db_pending (s_db ex_sys)) + 7 \<le> 9" by (simp add: ex_queue_defs)
  from undisturbed_calls_refine[OF this, of no_faults 1 "ex_job ''c''"] show ?thesis
    by (simp add: Enqueue_eq) (simp add: ex_queue_defs row_key_def)
qed

end
