(* ===== verification/Quantity.thy ===== *)
theory Quantity
  imports Kube_Types
begin

text \<open>
  \<open>resource.Quantity\<close> of the Kubernetes libraries as a parameter: the operations the sources
  call are the fields of a record, and the locale \<open>quantity\<close> states what their
  documentation promises, over the exact amount of a quantity in units of one billionth (quantities
  hold no finer fraction). \<open>DeepCopy\<close> is the identity on values. \<open>nano_ops\<close>, an amount
  stored as an integer, shows that the laws can hold.
\<close>

section \<open>Operations and laws\<close>

record 'q quantityOps =
  qo_zero :: 'q
  qo_Add :: "'q \<Rightarrow> 'q \<Rightarrow> 'q"
  qo_Cmp :: "'q \<Rightarrow> 'q \<Rightarrow> int"
  qo_IsZero :: "'q \<Rightarrow> bool"
  qo_Value :: "'q \<Rightarrow> int64"
  qo_MilliValue :: "'q \<Rightarrow> int64"
  qo_MustParse :: "string \<Rightarrow> 'q go"

text \<open>Division that rounds up.\<close>

definition ceil_div :: "int \<Rightarrow> int \<Rightarrow> int" where
  "ceil_div a b = - ((- a) div b)"

lemma ceil_div_nonneg: "0 \<le> a \<Longrightarrow> 0 < b \<Longrightarrow> 0 \<le> ceil_div a b"
  using zdiv_mono1[of "- a" 0 b] by (simp add: ceil_div_def)

definition fits64 :: "int \<Rightarrow> bool" where
  "fits64 i \<longleftrightarrow> - (2 ^ 63) \<le> i \<and> i < 2 ^ 63"

locale quantity =
  fixes Q :: "'q quantityOps" and amt :: "'q \<Rightarrow> int"
  assumes amt_zero [simp]: "amt (qo_zero Q) = 0"
    and amt_Add [simp]: "amt (qo_Add Q a b) = amt a + amt b"
    and Cmp_amt: "qo_Cmp Q a b = sgn (amt a - amt b)"
    and IsZero_amt: "qo_IsZero Q a \<longleftrightarrow> amt a = 0"
    and Value_amt: "0 \<le> amt a \<Longrightarrow> fits64 (ceil_div (amt a) (10 ^ 9)) \<Longrightarrow>
      sint (qo_Value Q a) = ceil_div (amt a) (10 ^ 9)"
    and MilliValue_amt: "0 \<le> amt a \<Longrightarrow> fits64 (ceil_div (amt a) (10 ^ 6)) \<Longrightarrow>
      sint (qo_MilliValue Q a) = ceil_div (amt a) (10 ^ 6)"
    and MustParse_one: "\<exists>q. qo_MustParse Q ''1'' = Ret q \<and> amt q = 10 ^ 9"
begin

lemma Cmp_le: "qo_Cmp Q a b \<le> 0 \<longleftrightarrow> amt a \<le> amt b"
  by (simp add: Cmp_amt sgn_if)

lemma Cmp_gt: "0 < qo_Cmp Q a b \<longleftrightarrow> amt b < amt a"
  by (simp add: Cmp_amt sgn_if)

lemma Cmp_eq: "qo_Cmp Q a b = 0 \<longleftrightarrow> amt a = amt b"
  by (simp add: Cmp_amt sgn_if)

end

section \<open>The accessors of a resource list\<close>

text \<open>\<open>list.Cpu()\<close>, \<open>list.Memory()\<close>, \<open>list.StorageEphemeral()\<close>: the named entry, else the zero quantity.\<close>

definition rl_get :: "'q quantityOps \<Rightarrow> string \<Rightarrow> 'q resource_list \<Rightarrow> 'q" where
  "rl_get Q name l = (case l name of None \<Rightarrow> qo_zero Q | Some q \<Rightarrow> q)"

definition ResourceCPU :: string where "ResourceCPU = ''cpu''"
definition ResourceMemory :: string where "ResourceMemory = ''memory''"
definition ResourceEphemeralStorage :: string where "ResourceEphemeralStorage = ''ephemeral-storage''"
definition NvidiaGPUResource :: string where "NvidiaGPUResource = ''nvidia.com/gpu''"

section \<open>Quantities as integers\<close>

definition nano_ops :: "int quantityOps" where
  "nano_ops = \<lparr>qo_zero = 0, qo_Add = (+), qo_Cmp = (\<lambda>a b. sgn (a - b)), qo_IsZero = (\<lambda>a. a = 0),
     qo_Value = (\<lambda>a. word_of_int (ceil_div a (10 ^ 9))), qo_MilliValue = (\<lambda>a. word_of_int (ceil_div a (10 ^ 6))),
     qo_MustParse = (\<lambda>s. case parseInt s 64 of (i, None) \<Rightarrow> Ret (i * 10 ^ 9) | _ \<Rightarrow> Panic s)\<rparr>"

lemma parseInt_one [simp]: "parseInt ''1'' 64 = (1, None)"
  by (simp add: parseInt_def parseUint_def char_digit_def Let_def)

lemma sint_word_of_int64: "fits64 i \<Longrightarrow> sint (word_of_int i :: int64) = i"
  by (simp add: fits64_def signed_of_int signed_take_bit_int_eq_self)

interpretation nano: quantity nano_ops "\<lambda>q. q"
  by unfold_locales (simp_all add: nano_ops_def sint_word_of_int64)

end
