(* ===== verification/Submit.thy ===== *)
theory Submit
  imports Flux_Types Quantity
begin

text \<open>
  Creating a FluxJob: \<open>GeneratePodResources\<close> (\<open>pkg/jobspec/jobspec.go\<close>) and
  \<open>SubmitFluxJob\<close> (\<open>api/v1alpha1/submit.go\<close>). The controller-runtime client and the
  jobspec library (\<open>github.com/compspec/jobspec-go\<close>) are parameters; the locale
  \<open>crd_client\<close> states what the program relies on of the client for FluxJob resources.
  FluxJob has a status subresource, so creating one ignores its status. A call that reports an error, such as a
  timeout, may still have had its effect. Reads are taken to be up to date, although the client of a manager
  answers them from a cache that may lag behind the server.
\<close>

section \<open>Pod resources\<close>

record podResources =
  pr_Cpu :: int32
  pr_Memory :: int64
  pr_Gpu :: int64
  pr_Storage :: int64
  pr_Labels :: "string list"

definition add_container :: "'q quantityOps \<Rightarrow> 'q container \<Rightarrow> podResources \<Rightarrow> podResources" where
  "add_container Q c r =
     \<lparr>pr_Cpu = pr_Cpu r + ucast (qo_Value Q (rl_get Q ResourceCPU (c_Requests c))),
      pr_Memory = pr_Memory r + qo_Value Q (rl_get Q ResourceMemory (c_Requests c)),
      pr_Gpu = (case c_Limits c NvidiaGPUResource of
                  None \<Rightarrow> pr_Gpu r | Some gpus \<Rightarrow> pr_Gpu r + qo_Value Q gpus),
      pr_Storage = pr_Storage r + qo_Value Q (rl_get Q ResourceEphemeralStorage (c_Requests c)),
      pr_Labels = pr_Labels r\<rparr>"

definition GeneratePodResources :: "'q quantityOps \<Rightarrow> 'q container list \<Rightarrow> podResources" where
  "GeneratePodResources Q containers =
     (let resources = fold (add_container Q) containers \<lparr>pr_Cpu = 0, pr_Memory = 0, pr_Gpu = 0, pr_Storage = 0, pr_Labels = []\<rparr>
      in if pr_Cpu resources = 0 then resources\<lparr>pr_Cpu := 1\<rparr> else resources)"

section \<open>The client\<close>

record 'k clientOps =
  co_Get :: "string \<Rightarrow> string \<Rightarrow> 'k \<Rightarrow> fluxJob result"
  co_Create :: "fluxJob \<Rightarrow> 'k \<Rightarrow> go_error option \<times> 'k"
  co_Delete :: "fluxJob \<Rightarrow> 'k \<Rightarrow> go_error option \<times> 'k"
  co_UpdateStatus :: "fluxJob \<Rightarrow> 'k \<Rightarrow> go_error option \<times> 'k"

abbreviation fj_key :: "fluxJob \<Rightarrow> string \<times> string" where
  "fj_key j \<equiv> (fj_Namespace j, fj_Name j)"

locale crd_client =
  fixes C :: "'k clientOps" and jobs :: "'k \<Rightarrow> (string \<times> string) \<rightharpoonup> fluxJob"
  assumes get_found: "co_Get C ns n k = Inr j \<Longrightarrow> jobs k (ns, n) = Some j"
    and get_missing: "co_Get C ns n k = Inl e \<Longrightarrow> isNotFound e \<Longrightarrow> jobs k (ns, n) = None"
    and create_ok: "co_Create C j k = (None, k') \<Longrightarrow>
      jobs k (fj_key j) = None \<and> jobs k' = (jobs k)(fj_key j \<mapsto> j\<lparr>fj_Status := []\<rparr>)"
    and create_fail: "co_Create C j k = (Some e, k') \<Longrightarrow>
      jobs k' = jobs k \<or> jobs k (fj_key j) = None \<and> jobs k' = (jobs k)(fj_key j \<mapsto> j\<lparr>fj_Status := []\<rparr>)"
    and delete_ok: "co_Delete C j k = (None, k') \<Longrightarrow> jobs k' = (jobs k)(fj_key j := None)"
    and delete_fail: "co_Delete C j k = (Some e, k') \<Longrightarrow> jobs k' = jobs k \<or> jobs k' = (jobs k)(fj_key j := None)"
    and status_ok: "co_UpdateStatus C j k = (None, k') \<Longrightarrow>
      \<exists>old. jobs k (fj_key j) = Some old \<and> jobs k' = (jobs k)(fj_key j \<mapsto> old\<lparr>fj_Status := fj_Status j\<rparr>)"
    and status_fail: "co_UpdateStatus C j k = (Some e, k') \<Longrightarrow> jobs k' = jobs k \<or>
      (\<exists>old. jobs k (fj_key j) = Some old \<and> jobs k' = (jobs k)(fj_key j \<mapsto> old\<lparr>fj_Status := fj_Status j\<rparr>))"

record 'js jobspecOps =
  jo_NewSimpleJobspec :: "string \<Rightarrow> string \<Rightarrow> int32 \<Rightarrow> int32 \<Rightarrow> 'js result"
  jo_setDuration :: "int \<Rightarrow> 'js \<Rightarrow> 'js"
  jo_JobspecToYaml :: "'js \<Rightarrow> string result"

section \<open>SubmitFluxJob\<close>

definition SubmitFluxJob ::
  "'k clientOps \<Rightarrow> 'js jobspecOps \<Rightarrow> 'q quantityOps \<Rightarrow> jobWrapped \<Rightarrow> string \<Rightarrow> string \<Rightarrow> int32 \<Rightarrow>
   'q container list \<Rightarrow> 'k \<Rightarrow> go_error option \<times> 'k" where
  "SubmitFluxJob C J Q jobType name namespace nodes containers k =
     (let jobName = GetJobName jobType name
      in case co_Get C namespace jobName k of
           Inr existing \<Rightarrow> (None, k)
         | Inl err \<Rightarrow>
            (if \<not> isNotFound err then (Some err, k)
             else
               (let resources = GeneratePodResources Q containers;
                    command = ''echo '' @ namespace @ '' '' @ name
                in case jo_NewSimpleJobspec J name command nodes (pr_Cpu resources) of
                     Inl e \<Rightarrow> (Some e, k)
                   | Inr js \<Rightarrow>
                      (case jo_JobspecToYaml J (jo_setDuration J 0 js) of
                         Inl e \<Rightarrow> (Some e, k)
                       | Inr jsString \<Rightarrow>
                          co_Create C \<lparr>fj_Name = jobName, fj_Namespace = namespace,
                             fj_Spec = \<lparr>fs_JobSpec = jsString, fs_Type = jobType, fs_Name = name, fs_Object = [], fs_Duration = 0,
                                        fs_Reservation = False, fs_Nodes = nodes, fs_Resources = []\<rparr>,
                             fj_Status = SubmitStatusNew\<rparr> k))))"

section \<open>An in-memory client\<close>

definition mem_client :: "((string \<times> string) \<rightharpoonup> fluxJob) clientOps" where
  "mem_client =
     \<lparr>co_Get = (\<lambda>ns n k. case k (ns, n) of None \<Rightarrow> Inl (NotFound n) | Some j \<Rightarrow> Inr j),
      co_Create = (\<lambda>j k. case k (fj_key j) of
         None \<Rightarrow> (None, k(fj_key j \<mapsto> j\<lparr>fj_Status := []\<rparr>)) | Some _ \<Rightarrow> (Some (Errorf ''already exists''), k)),
      co_Delete = (\<lambda>j k. (None, k(fj_key j := None))),
      co_UpdateStatus = (\<lambda>j k. case k (fj_key j) of
         None \<Rightarrow> (Some (NotFound (fj_Name j)), k)
       | Some old \<Rightarrow> (None, k(fj_key j \<mapsto> old\<lparr>fj_Status := fj_Status j\<rparr>)))\<rparr>"

interpretation mem_crd: crd_client mem_client "\<lambda>k. k"
  by unfold_locales (auto simp: mem_client_def split: option.splits)

text \<open>The same client behind a connection that loses every answer: the calls have their effects and report a
  timeout.\<close>

definition lossy_client :: "((string \<times> string) \<rightharpoonup> fluxJob) clientOps" where
  "lossy_client = mem_client\<lparr>
     co_Create := (\<lambda>j k. (Some (Errorf ''timeout''), snd (co_Create mem_client j k))),
     co_Delete := (\<lambda>j k. (Some (Errorf ''timeout''), snd (co_Delete mem_client j k))),
     co_UpdateStatus := (\<lambda>j k. (Some (Errorf ''timeout''), snd (co_UpdateStatus mem_client j k)))\<rparr>"

interpretation lossy_crd: crd_client lossy_client "\<lambda>k. k"
  by unfold_locales (auto simp: lossy_client_def mem_client_def split: option.splits)

section \<open>Facts\<close>

lemma fold_add_container_Cpu:
  "pr_Cpu (fold (add_container Q) cs r) =
     pr_Cpu r + (\<Sum>c\<leftarrow>cs. ucast (qo_Value Q (rl_get Q ResourceCPU (c_Requests c))))"
  by (induction cs arbitrary: r) (simp_all add: add_container_def)

lemma GeneratePodResources_Cpu:
  "pr_Cpu (GeneratePodResources Q cs) =
     (let n = (\<Sum>c\<leftarrow>cs. ucast (qo_Value Q (rl_get Q ResourceCPU (c_Requests c)))) in if n = 0 then 1 else n)"
  by (simp add: GeneratePodResources_def fold_add_container_Cpu Let_def)

lemma ucast_sint: "(ucast (w :: int64) :: int32) = word_of_int (sint w)"
proof -
  have "take_bit 32 (uint w) = take_bit 32 (sint w)"
    by (simp add: sint_uint take_bit_signed_take_bit)
  then show ?thesis by (simp only: ucast_eq word_of_int_eq_iff) simp
qed

lemma sum_list_word_of_int: "(\<Sum>x\<leftarrow>xs. word_of_int (f x)) = word_of_int (\<Sum>x\<leftarrow>xs. f x)"
  by (induction xs) simp_all

lemma sum_list_member_le:
  "\<forall>x \<in> set xs. (0::int) \<le> f x \<Longrightarrow> y \<in> set xs \<Longrightarrow> f y \<le> (\<Sum>x\<leftarrow>xs. f x) \<and> 0 \<le> (\<Sum>x\<leftarrow>xs. f x)"
  by (induction xs) (auto intro!: sum_list_nonneg add_nonneg_nonneg)

text \<open>What a successful submit of a new object leaves in the cluster.\<close>

definition submitted :: "jobWrapped \<Rightarrow> string \<Rightarrow> string \<Rightarrow> int32 \<Rightarrow> fluxJob \<Rightarrow> bool" where
  "submitted jobType name namespace nodes j \<longleftrightarrow>
     fj_Name j = GetJobName jobType name \<and> fj_Namespace j = namespace \<and> fs_Type (fj_Spec j) = jobType \<and>
     fs_Name (fj_Spec j) = name \<and> fs_Nodes (fj_Spec j) = nodes \<and> \<not> fs_Reservation (fj_Spec j) \<and> fj_Status j = []"

text \<open>A container that asks for one and a half cores, and a jobspec library with a fixed answer.\<close>

definition ex_container :: "int container" where
  "ex_container = \<lparr>c_Name = ''main'', c_Requests = [''cpu'' \<mapsto> 1500000000], c_Limits = Map.empty, c_RestartPolicy = None\<rparr>"

definition ex_yaml :: "string \<Rightarrow> unit jobspecOps" where
  "ex_yaml y = \<lparr>jo_NewSimpleJobspec = (\<lambda>_ _ _ _. Inr ()), jo_setDuration = (\<lambda>_ js. js), jo_JobspecToYaml = (\<lambda>_. Inr y)\<rparr>"

context crd_client
begin

text \<open>A submit creates nothing, or the one FluxJob of the object, which did not exist; after a success it exists.\<close>

lemma Submit_effect:
  assumes "SubmitFluxJob C J Q jobType name namespace nodes containers k = (e, k')"
  shows "(jobs k' = jobs k \<or>
      (jobs k (namespace, GetJobName jobType name) = None \<and>
       (\<exists>j. submitted jobType name namespace nodes j \<and> jobs k' = (jobs k)((namespace, GetJobName jobType name) \<mapsto> j)))) \<and>
    (e = None \<longrightarrow> jobs k' (namespace, GetJobName jobType name) \<noteq> None \<and>
       (jobs k (namespace, GetJobName jobType name) \<noteq> None \<longrightarrow> k' = k))"
proof (cases "co_Get C namespace (GetJobName jobType name) k")
  case (Inl err)
  let ?new = "\<lambda>yaml status. \<lparr>fj_Name = GetJobName jobType name, fj_Namespace = namespace,
       fj_Spec = \<lparr>fs_JobSpec = yaml, fs_Type = jobType, fs_Name = name, fs_Object = [], fs_Duration = 0,
                  fs_Reservation = False, fs_Nodes = nodes, fs_Resources = []\<rparr>, fj_Status = status\<rparr>"
  from Inl assms consider (refused) "k' = k" "e \<noteq> None"
    | (created) yaml where "co_Create C (?new yaml SubmitStatusNew) k = (e, k')"
    by (auto simp: SubmitFluxJob_def Let_def split: if_splits sum.splits)
  then show ?thesis
  proof cases
    case (created yaml)
    have "submitted jobType name namespace nodes (?new yaml [])" by (simp add: submitted_def)
    with created create_ok[of "?new yaml SubmitStatusNew" k k'] create_fail[of "?new yaml SubmitStatusNew" k _ k'] show ?thesis
      by (cases e) auto
  qed auto
next
  case (Inr j)
  with assms get_found[OF Inr] show ?thesis by (simp add: SubmitFluxJob_def Let_def)
qed

lemma Submit_outcome:
  assumes "SubmitFluxJob C J Q jobType name namespace nodes containers k = (None, k')"
  shows "(\<exists>j. jobs k (namespace, GetJobName jobType name) = Some j \<and> k' = k) \<or>
    (jobs k (namespace, GetJobName jobType name) = None \<and>
     (\<exists>j. submitted jobType name namespace nodes j \<and>
          jobs k' = (jobs k)((namespace, GetJobName jobType name) \<mapsto> j)))"
  using Submit_effect[OF assms] by (cases "jobs k (namespace, GetJobName jobType name)") auto

end

section \<open>Properties\<close>

text \<open>A successful submit leaves exactly one FluxJob for the wrapped object: an existing one is left
  as it is, else one is created with the object's kind, name and size, no reservation and an empty
  status. Whether it succeeds or not, other FluxJobs are not touched, and no existing one is changed.\<close>

lemma SubmitFluxJob_creates_once:
  assumes "crd_client C jobs" "SubmitFluxJob C J Q jobType name namespace nodes containers k = (e, k')"
  shows "(e = None \<longrightarrow>
      (\<exists>j. jobs k' (namespace, GetJobName jobType name) = Some j \<and>
        (jobs k (namespace, GetJobName jobType name) = None \<longrightarrow> submitted jobType name namespace nodes j) \<and>
        (jobs k (namespace, GetJobName jobType name) \<noteq> None \<longrightarrow> k' = k))) \<and>
    (\<forall>x. x \<noteq> (namespace, GetJobName jobType name) \<or> jobs k x \<noteq> None \<longrightarrow> jobs k' x = jobs k x)"
  using crd_client.Submit_effect[OF assms] by (cases "jobs k (namespace, GetJobName jobType name)") auto

text \<open>C37: the core count of a jobspec is the sum of the containers' requests, each rounded up to whole
  cores, and 1 when that sum is 0, as long as the sum fits in 32 bits; it is never 0.\<close>
theorem GeneratePodResources_cores:
  assumes "quantity Q amt"
    and "\<forall>c \<in> set cs. 0 \<le> amt (rl_get Q ResourceCPU (c_Requests c))"
    and "(\<Sum>c\<leftarrow>cs. ceil_div (amt (rl_get Q ResourceCPU (c_Requests c))) (10 ^ 9)) < 2 ^ 31"
  shows "sint (pr_Cpu (GeneratePodResources Q cs)) =
    max 1 (\<Sum>c\<leftarrow>cs. ceil_div (amt (rl_get Q ResourceCPU (c_Requests c))) (10 ^ 9))"
proof -
  let ?x = "\<lambda>c. ceil_div (amt (rl_get Q ResourceCPU (c_Requests c))) (10 ^ 9)"
  let ?S = "\<Sum>c\<leftarrow>cs. ?x c"
  have pos: "\<forall>c \<in> set cs. 0 \<le> ?x c" using assms(2) by (auto simp: ceil_div_def intro: div_nonpos_pos_le0)
  have S: "0 \<le> ?S" using pos by (intro sum_list_nonneg) auto
  have val: "sint (qo_Value Q (rl_get Q ResourceCPU (c_Requests c))) = ?x c" if "c \<in> set cs" for c
    using quantity.Value_amt[OF assms(1)] assms(2,3) pos that sum_list_member_le[OF pos that]
    by (auto simp: fits64_def)
  have "map (\<lambda>c. ucast (qo_Value Q (rl_get Q ResourceCPU (c_Requests c))) :: int32) cs = map (\<lambda>c. word_of_int (?x c)) cs"
    by (rule map_cong) (simp_all only: ucast_sint val)
  then have sum: "(\<Sum>c\<leftarrow>cs. ucast (qo_Value Q (rl_get Q ResourceCPU (c_Requests c))) :: int32) = word_of_int ?S"
    by (simp only: sum_list_word_of_int)
  have sint: "sint (word_of_int ?S :: int32) = ?S"
    using S assms(3) by (simp add: signed_of_int signed_take_bit_int_eq_self)
  then have "word_of_int ?S = (0 :: int32) \<longleftrightarrow> ?S = 0" by (metis signed_0 of_int_0)
  with sum sint S show ?thesis by (auto simp: GeneratePodResources_Cpu Let_def)
qed

theorem GeneratePodResources_cores_witness:
  "sint (pr_Cpu (GeneratePodResources nano_ops [ex_container, ex_container])) = 4"
  using GeneratePodResources_cores[OF nano.quantity_axioms, of "[ex_container, ex_container]"]
  by (simp add: ex_container_def rl_get_def ceil_div_def ResourceCPU_def)

end
