(* ===== verification/Webhook.thy ===== *)
theory Webhook
  imports Submit
begin

text \<open>
  The mutating webhook: \<open>api/v1alpha1/fluxjob_enqueue.go\<close> (the five \<open>Enqueue\<close>
  functions, which suspend or gate an object and submit a FluxJob for it) and
  \<open>fluxjob_webhook.go\<close> (\<open>Handle\<close>, which finds the kind of the object in the request).
  Decoding a request and marshalling an object are parameters (\<open>codec\<close>): a decoder answers
  with an error when the request holds another kind. The constructor \<open>PatchResponseFromRaw\<close> stands for
  the answer that the library builds from the object in the request and these bytes, which is an error when one
  of them is no JSON.
\<close>

section \<open>Enqueue\<close>

definition meta_init_labels :: "object_meta \<Rightarrow> object_meta" where
  "meta_init_labels m = m\<lparr>om_Labels := Some (label_init (om_Labels m))\<rparr>"

definition meta_set_label :: "string \<Rightarrow> string \<Rightarrow> object_meta \<Rightarrow> object_meta" where
  "meta_set_label k v m = m\<lparr>om_Labels := Some ((label_init (om_Labels m))(k \<mapsto> v))\<rparr>"

definition template_init_labels :: "'q pod_template \<Rightarrow> 'q pod_template" where
  "template_init_labels t = t\<lparr>pt_Labels := Some (label_init (pt_Labels t))\<rparr>"

definition template_set_label :: "string \<Rightarrow> string \<Rightarrow> 'q pod_template \<Rightarrow> 'q pod_template" where
  "template_set_label k v t = t\<lparr>pt_Labels := Some ((label_init (pt_Labels t))(k \<mapsto> v))\<rparr>"

definition add_gate :: "'q pod_spec \<Rightarrow> 'q pod_spec" where
  "add_gate s = s\<lparr>ps_SchedulingGates := ps_SchedulingGates s @ [SchedulingGateName]\<rparr>"

definition use_scheduler :: "'q pod_spec \<Rightarrow> 'q pod_spec" where
  "use_scheduler s = s\<lparr>ps_SchedulerName := SchedulerName\<rparr>"

definition EnqueuePod ::
  "'k clientOps \<Rightarrow> 'js jobspecOps \<Rightarrow> 'q quantityOps \<Rightarrow> 'q pod \<Rightarrow> 'k \<Rightarrow> go_error option \<times> 'q pod \<times> 'k" where
  "EnqueuePod C J Q p k =
     (if pod_Name p = [] then (None, p, k)
      else
        (let p = p\<lparr>pod_Meta := meta_init_labels (pod_Meta p)\<rparr>
         in if label_get (pod_Labels p) SeenLabel \<noteq> None then (None, p, k)
            else
              (let p = p\<lparr>pod_Meta := meta_set_label SeenLabel ''yes'' (pod_Meta p),
                         pod_Spec := use_scheduler (add_gate (pod_Spec p))\<rparr>
               in case SubmitFluxJob C J Q JobWrappedPod (pod_Name p) (pod_Namespace p) 1 (ps_Containers (pod_Spec p)) k of
                    (e, k) \<Rightarrow> (e, p, k))))"

text \<open>\<open>*job.Spec.Parallelism\<close> panics when the pointer is nil.\<close>

definition EnqueueJob ::
  "'k clientOps \<Rightarrow> 'js jobspecOps \<Rightarrow> 'q quantityOps \<Rightarrow> 'q batch_job \<Rightarrow> 'k \<Rightarrow>
   (go_error option \<times> 'q batch_job \<times> 'k) go" where
  "EnqueueJob C J Q j k =
     (let j = j\<lparr>job_Template := template_init_labels (job_Template j), job_Meta := meta_init_labels (job_Meta j)\<rparr>
      in if label_get (om_Labels (job_Meta j)) SeenLabel \<noteq> None then Ret (None, j, k)
         else
           (let t = template_set_label SeenLabel ''yes'' (job_Template j);
                j = j\<lparr>job_Meta := meta_set_label SeenLabel ''yes'' (job_Meta j),
                      job_Template := t\<lparr>pt_Spec := use_scheduler (pt_Spec t)\<rparr>,
                      job_Suspend := Some True\<rparr>
            in case job_Parallelism j of
                 None \<Rightarrow> Panic ''nil pointer dereference''
               | Some n \<Rightarrow>
                  (case SubmitFluxJob C J Q JobWrappedJob (om_Name (job_Meta j)) (om_Namespace (job_Meta j)) n
                          (ps_Containers (pt_Spec (job_Template j))) k of
                     (e, k) \<Rightarrow> Ret (e, j, k))))"

text \<open>
  Deployments, replica sets and stateful sets go through the same steps; \<open>kindName\<close> is the
  prefix of the selector and \<open>jobType\<close> the wrapped kind.
\<close>

definition enqueueWorkload ::
  "string \<Rightarrow> jobWrapped \<Rightarrow> 'k clientOps \<Rightarrow> 'js jobspecOps \<Rightarrow> 'q quantityOps \<Rightarrow> 'q workload \<Rightarrow> 'k \<Rightarrow>
   (go_error option \<times> 'q workload \<times> 'k) go" where
  "enqueueWorkload kindName jobType C J Q d k =
     (let d = d\<lparr>wl_Template := template_init_labels (wl_Template d), wl_Meta := meta_init_labels (wl_Meta d)\<rparr>
      in if label_get (om_Labels (wl_Meta d)) SeenLabel \<noteq> None then Ret (None, d, k)
         else
           (let t = template_set_label SeenLabel ''yes'' (wl_Template d);
                t = t\<lparr>pt_Spec := add_gate (use_scheduler (pt_Spec t))\<rparr>;
                selector = kindName @ ''-'' @ om_Name (wl_Meta d) @ ''-'' @ om_Namespace (wl_Meta d);
                d = d\<lparr>wl_Meta := meta_set_label SeenLabel ''yes'' (wl_Meta d),
                      wl_Template := template_set_label SelectorLabel selector t\<rparr>
            in case wl_Replicas d of
                 None \<Rightarrow> Panic ''nil pointer dereference''
               | Some n \<Rightarrow>
                  (case SubmitFluxJob C J Q jobType (om_Name (wl_Meta d)) (om_Namespace (wl_Meta d)) n
                          (ps_Containers (pt_Spec (wl_Template d))) k of
                     (e, k) \<Rightarrow> Ret (e, d, k))))"

definition EnqueueDeployment ::
  "'k clientOps \<Rightarrow> 'js jobspecOps \<Rightarrow> 'q quantityOps \<Rightarrow> 'q workload \<Rightarrow> 'k \<Rightarrow> (go_error option \<times> 'q workload \<times> 'k) go" where
  "EnqueueDeployment = enqueueWorkload ''deployment'' JobWrappedDeployment"

definition EnqueueReplicaSet ::
  "'k clientOps \<Rightarrow> 'js jobspecOps \<Rightarrow> 'q quantityOps \<Rightarrow> 'q workload \<Rightarrow> 'k \<Rightarrow> (go_error option \<times> 'q workload \<times> 'k) go" where
  "EnqueueReplicaSet = enqueueWorkload ''replicaset'' JobWrappedReplicaSet"

definition EnqueueStatefulSet ::
  "'k clientOps \<Rightarrow> 'js jobspecOps \<Rightarrow> 'q quantityOps \<Rightarrow> 'q workload \<Rightarrow> 'k \<Rightarrow> (go_error option \<times> 'q workload \<times> 'k) go" where
  "EnqueueStatefulSet = enqueueWorkload ''statefulset'' JobWrappedStatefulSet"

section \<open>The receiver\<close>

text \<open>The package keeps the manager that the receiver was made for, and the client that the first submission
  took from it. Calling a method of a nil manager panics.\<close>

record 'd jobReceiver =
  jr_decoder :: 'd

record ('m, 'c) apiVars =
  av_mgr :: "'m option"
  av_cli :: "'c option"

definition NewMutatingWebhook ::
  "('sch \<Rightarrow> 'd) \<Rightarrow> ('m \<Rightarrow> 'sch) \<Rightarrow> 'm \<Rightarrow> ('m, 'c) apiVars \<Rightarrow> 'd jobReceiver \<times> ('m, 'c) apiVars" where
  "NewMutatingWebhook NewDecoder GetScheme mainManager vars =
     (\<lparr>jr_decoder = NewDecoder (GetScheme mainManager)\<rparr>, vars\<lparr>av_mgr := Some mainManager\<rparr>)"

definition submit_client :: "('m \<Rightarrow> 'c) \<Rightarrow> ('m, 'c) apiVars \<Rightarrow> ('c \<times> ('m, 'c) apiVars) go" where
  "submit_client GetClient vars =
     (case av_cli vars of
        Some cli \<Rightarrow> Ret (cli, vars)
      | None \<Rightarrow> (case av_mgr vars of
          None \<Rightarrow> Panic ''nil pointer dereference''
        | Some mgr \<Rightarrow> Ret (GetClient mgr, vars\<lparr>av_cli := Some (GetClient mgr)\<rparr>)))"

text \<open>The receiver is made before it handles requests, so its submissions have a client; the client of the
  first manager stays when another receiver is made.\<close>

lemma submit_client_after_webhook:
  assumes "NewMutatingWebhook NewDecoder GetScheme m \<lparr>av_mgr = None, av_cli = None\<rparr> = (r, vars)"
    and "submit_client GetClient vars = x"
  shows "\<exists>vars'. x = Ret (GetClient m, vars') \<and>
    submit_client GetClient (snd (NewMutatingWebhook NewDecoder GetScheme m' vars')) = Ret (GetClient m, vars'\<lparr>av_mgr := Some m'\<rparr>)"
  using assms by (auto simp: NewMutatingWebhook_def submit_client_def)

section \<open>Handle\<close>

record ('r, 'q) codec =
  cd_job :: "'r \<Rightarrow> 'q batch_job result"
  cd_deployment :: "'r \<Rightarrow> 'q workload result"
  cd_replicaset :: "'r \<Rightarrow> 'q workload result"
  cd_statefulset :: "'r \<Rightarrow> 'q workload result"
  cd_pod :: "'r \<Rightarrow> 'q pod result"
  cm_job :: "'q batch_job \<Rightarrow> string result"
  cm_workload :: "'q workload \<Rightarrow> string result"
  cm_pod :: "'q pod \<Rightarrow> string result"

datatype response = PatchResponseFromRaw string | Errored nat go_error

text \<open>The result of a handler for one kind: the bytes, \<open>tryNext\<close>, and the error.\<close>

type_synonym handled = "string \<times> bool \<times> go_error option"

definition marshal_result :: "string result \<Rightarrow> string \<times> go_error option" where
  "marshal_result r = (case r of Inl e \<Rightarrow> ([], Some e) | Inr b \<Rightarrow> (b, None))"

definition HandleJob ::
  "('r, 'q) codec \<Rightarrow> 'k clientOps \<Rightarrow> 'js jobspecOps \<Rightarrow> 'q quantityOps \<Rightarrow> 'r \<Rightarrow> 'k \<Rightarrow> (handled \<times> 'k) go" where
  "HandleJob D C J Q req k =
     (case cd_job D req of
        Inl e \<Rightarrow> Ret (([], True, Some e), k)
      | Inr j \<Rightarrow>
         (case EnqueueJob C J Q j k of
            Panic m \<Rightarrow> Panic m
          | Ret (Some e, j, k) \<Rightarrow> Ret (([], False, Some e), k)
          | Ret (None, j, k) \<Rightarrow> (case marshal_result (cm_job D j) of (b, e) \<Rightarrow> Ret ((b, False, e), k))))"

definition handleWorkload ::
  "('q workload \<Rightarrow> 'k \<Rightarrow> (go_error option \<times> 'q workload \<times> 'k) go) \<Rightarrow> ('r \<Rightarrow> 'q workload result) \<Rightarrow>
   ('q workload \<Rightarrow> string result) \<Rightarrow> 'r \<Rightarrow> 'k \<Rightarrow> (handled \<times> 'k) go" where
  "handleWorkload enqueue decode marshal req k =
     (case decode req of
        Inl e \<Rightarrow> Ret (([], True, Some e), k)
      | Inr d \<Rightarrow>
         (case enqueue d k of
            Panic m \<Rightarrow> Panic m
          | Ret (Some e, d, k) \<Rightarrow> Ret (([], False, Some e), k)
          | Ret (None, d, k) \<Rightarrow> (case marshal_result (marshal d) of (b, e) \<Rightarrow> Ret ((b, False, e), k))))"

definition HandleDeployment ::
  "('r, 'q) codec \<Rightarrow> 'k clientOps \<Rightarrow> 'js jobspecOps \<Rightarrow> 'q quantityOps \<Rightarrow> 'r \<Rightarrow> 'k \<Rightarrow> (handled \<times> 'k) go" where
  "HandleDeployment D C J Q = handleWorkload (EnqueueDeployment C J Q) (cd_deployment D) (cm_workload D)"

definition HandleReplicaSet ::
  "('r, 'q) codec \<Rightarrow> 'k clientOps \<Rightarrow> 'js jobspecOps \<Rightarrow> 'q quantityOps \<Rightarrow> 'r \<Rightarrow> 'k \<Rightarrow> (handled \<times> 'k) go" where
  "HandleReplicaSet D C J Q = handleWorkload (EnqueueReplicaSet C J Q) (cd_replicaset D) (cm_workload D)"

definition HandleStatefulSet ::
  "('r, 'q) codec \<Rightarrow> 'k clientOps \<Rightarrow> 'js jobspecOps \<Rightarrow> 'q quantityOps \<Rightarrow> 'r \<Rightarrow> 'k \<Rightarrow> (handled \<times> 'k) go" where
  "HandleStatefulSet D C J Q = handleWorkload (EnqueueStatefulSet C J Q) (cd_statefulset D) (cm_workload D)"

definition HandlePod ::
  "('r, 'q) codec \<Rightarrow> 'k clientOps \<Rightarrow> 'js jobspecOps \<Rightarrow> 'q quantityOps \<Rightarrow> 'r \<Rightarrow> 'k \<Rightarrow> (string \<times> go_error option) \<times> 'k" where
  "HandlePod D C J Q req k =
     (case cd_pod D req of
        Inl e \<Rightarrow> (([], Some e), k)
      | Inr p \<Rightarrow>
         (case EnqueuePod C J Q p k of
            (Some e, p, k) \<Rightarrow> (([], Some e), k)
          | (None, p, k) \<Rightarrow> (marshal_result (cm_pod D p), k)))"

text \<open>
  One stage of \<open>Handle\<close>: answer on success, answer with the error when no other kind is to
  be tried, else go on.
\<close>

definition handle_stage :: "(handled \<times> 'k) go \<Rightarrow> ('k \<Rightarrow> (response \<times> 'k) go) \<Rightarrow> (response \<times> 'k) go" where
  "handle_stage h next =
     (case h of
        Panic m \<Rightarrow> Panic m
      | Ret ((b, tryNext, None), k) \<Rightarrow> Ret (PatchResponseFromRaw b, k)
      | Ret ((b, tryNext, Some e), k) \<Rightarrow> (if \<not> tryNext then Ret (Errored 400 e, k) else next k))"

definition Handle ::
  "('r, 'q) codec \<Rightarrow> 'k clientOps \<Rightarrow> 'js jobspecOps \<Rightarrow> 'q quantityOps \<Rightarrow> 'r \<Rightarrow> 'k \<Rightarrow> (response \<times> 'k) go" where
  "Handle D C J Q req k =
     handle_stage (HandleJob D C J Q req k) (\<lambda>k.
     handle_stage (HandleDeployment D C J Q req k) (\<lambda>k.
     handle_stage (HandleReplicaSet D C J Q req k) (\<lambda>k.
     handle_stage (HandleStatefulSet D C J Q req k) (\<lambda>k.
       case HandlePod D C J Q req k of
         ((b, None), k) \<Rightarrow> Ret (PatchResponseFromRaw b, k)
       | ((b, Some e), k) \<Rightarrow> Ret (Errored 400 e, k)))))"

section \<open>Facts\<close>

lemma meta_label_simps [simp]:
  "om_Name (meta_init_labels m) = om_Name m" "om_Namespace (meta_init_labels m) = om_Namespace m"
  "om_Name (meta_set_label k v m) = om_Name m" "om_Namespace (meta_set_label k v m) = om_Namespace m"
  "label_get (om_Labels (meta_init_labels m)) x = label_get (om_Labels m) x"
  "label_get (om_Labels (meta_set_label k v m)) x = (if x = k then Some v else label_get (om_Labels m) x)"
  by (simp_all add: meta_init_labels_def meta_set_label_def)

lemma meta_init_set [simp]: "meta_set_label k v (meta_init_labels m) = meta_set_label k v m"
  by (simp add: meta_init_labels_def meta_set_label_def label_init_def)

lemma meta_init_set2 [simp]: "meta_init_labels (meta_set_label k v m) = meta_set_label k v m"
  by (simp add: meta_init_labels_def meta_set_label_def label_init_def)

lemma template_label_simps [simp]:
  "pt_Spec (template_init_labels t) = pt_Spec t" "pt_Spec (template_set_label k v t) = pt_Spec t"
  "label_get (pt_Labels (template_init_labels t)) x = label_get (pt_Labels t) x"
  "label_get (pt_Labels (template_set_label k v t)) x = (if x = k then Some v else label_get (pt_Labels t) x)"
  by (simp_all add: template_init_labels_def template_set_label_def)

lemma gate_simps [simp]:
  "ps_SchedulingGates (use_scheduler s) = ps_SchedulingGates s"
  "ps_SchedulingGates (add_gate s) = ps_SchedulingGates s @ [SchedulingGateName]"
  "ps_SchedulerName (use_scheduler s) = SchedulerName" "ps_SchedulerName (add_gate s) = ps_SchedulerName s"
  "ps_Containers (use_scheduler s) = ps_Containers s" "ps_Containers (add_gate s) = ps_Containers s"
  by (simp_all add: use_scheduler_def add_gate_def)

lemma EnqueuePod_new:
  assumes "pod_Name p \<noteq> []" "label_get (pod_Labels p) SeenLabel = None"
  shows "EnqueuePod C J Q p k =
    (case SubmitFluxJob C J Q JobWrappedPod (pod_Name p) (pod_Namespace p) 1 (ps_Containers (pod_Spec p)) k of
       (e, k) \<Rightarrow> (e, p\<lparr>pod_Meta := meta_set_label SeenLabel ''yes'' (pod_Meta p),
                      pod_Spec := use_scheduler (add_gate (pod_Spec p))\<rparr>, k))"
  using assms by (simp add: EnqueuePod_def Let_def split: prod.splits)

text \<open>Decoding decides the stage: a kind that does not decode passes the request on unchanged.\<close>

lemma handle_stage_skip: "handle_stage (Ret (([], True, Some e), k)) next = next k"
  by (simp add: handle_stage_def)

lemmas handle_skips = HandleJob_def HandleDeployment_def HandleReplicaSet_def HandleStatefulSet_def
  handleWorkload_def handle_stage_skip

lemma EnqueuePod_again:
  "pod_Name p \<noteq> [] \<Longrightarrow> EnqueuePod C J Q p k = (e, p', k') \<Longrightarrow> EnqueuePod C J Q p' k'' = (None, p', k'')"
  by (auto simp: EnqueuePod_def Let_def meta_init_labels_def label_init_def meta_set_label_def
      split: if_splits prod.splits option.splits)

lemma EnqueueJob_again:
  "EnqueueJob C J Q j k = Ret (e, j', k') \<Longrightarrow> EnqueueJob C J Q j' k'' = Ret (None, j', k'')"
  by (auto simp: EnqueueJob_def Let_def meta_init_labels_def label_init_def meta_set_label_def
      template_init_labels_def template_set_label_def split: if_splits prod.splits option.splits)

lemma enqueueWorkload_again:
  "enqueueWorkload kn ty C J Q d k = Ret (e, d', k') \<Longrightarrow> enqueueWorkload kn ty C J Q d' k'' = Ret (None, d', k'')"
  by (auto simp: enqueueWorkload_def Let_def meta_init_labels_def label_init_def meta_set_label_def
      template_init_labels_def template_set_label_def split: if_splits prod.splits option.splits)

lemma EnqueuePod_seen: "label_get (pod_Labels p) SeenLabel = Some v \<Longrightarrow> EnqueuePod C J Q p x = (None, p, x)"
  by (cases "pod_Labels p") (simp_all add: EnqueuePod_def meta_init_labels_def label_init_def)

lemma enqueueWorkload_marks_template:
  "enqueueWorkload kn ty C J Q d k = Ret (e, d', k') \<Longrightarrow> label_get (om_Labels (wl_Meta d)) SeenLabel = None \<Longrightarrow>
   label_get (pt_Labels (wl_Template d')) SeenLabel = Some ''yes''"
  by (auto simp: enqueueWorkload_def Let_def template_set_label_def template_init_labels_def label_init_def
      split: option.splits prod.splits if_splits)

lemma EnqueueJob_marks_template:
  "EnqueueJob C J Q j k = Ret (e, j', k') \<Longrightarrow> label_get (om_Labels (job_Meta j)) SeenLabel = None \<Longrightarrow>
   label_get (pt_Labels (job_Template j')) SeenLabel = Some ''yes''"
  by (auto simp: EnqueueJob_def Let_def template_set_label_def template_init_labels_def label_init_def
      split: option.splits prod.splits if_splits)

section \<open>Requests only submit\<close>

text \<open>What every submit keeps of the cluster, the handler of a request keeps.\<close>

definition keeps :: "('k \<Rightarrow> bool) \<Rightarrow> ('k \<Rightarrow> ('r \<times> 'k) go) \<Rightarrow> bool" where
  "keeps P h \<longleftrightarrow> (\<forall>k r k'. h k = Ret (r, k') \<longrightarrow> P k \<longrightarrow> P k')"

lemma keeps_handle_stage: "keeps P h \<Longrightarrow> keeps P next \<Longrightarrow> keeps P (\<lambda>k. handle_stage (h k) next)"
  unfolding keeps_def handle_stage_def by (force split: go.splits prod.splits option.splits if_splits)

lemma keeps_handleWorkload:
  assumes "\<And>d k e d' k'. enqueue d k = Ret (e, d', k') \<Longrightarrow> P k \<Longrightarrow> P k'"
  shows "keeps P (handleWorkload enqueue decode marshal req)"
  unfolding keeps_def handleWorkload_def using assms
  by (fastforce simp: marshal_result_def split: go.splits sum.splits prod.splits option.splits)

lemma keeps_HandleJob:
  assumes "\<And>j k e j' k'. EnqueueJob C J Q j k = Ret (e, j', k') \<Longrightarrow> P k \<Longrightarrow> P k'"
  shows "keeps P (HandleJob D C J Q req)"
  unfolding keeps_def HandleJob_def using assms
  by (fastforce simp: marshal_result_def split: go.splits sum.splits prod.splits option.splits)

lemma Handle_keeps:
  assumes submit: "\<And>ty name ns nodes cs k e k'. SubmitFluxJob C J Q ty name ns nodes cs k = (e, k') \<Longrightarrow> P k \<Longrightarrow> P k'"
  shows "keeps P (Handle D C J Q req)"
proof -
  have job: "EnqueueJob C J Q j k = Ret (e, j', k') \<Longrightarrow> P k \<Longrightarrow> P k'" for j k e j' k'
    by (auto simp: EnqueueJob_def Let_def split: option.splits prod.splits if_splits dest: submit)
  have workload: "enqueueWorkload kn ty C J Q d k = Ret (e, d', k') \<Longrightarrow> P k \<Longrightarrow> P k'" for kn ty d k e d' k'
    by (auto simp: enqueueWorkload_def Let_def split: option.splits prod.splits if_splits dest: submit)
  have "EnqueuePod C J Q p k = (e, p', k') \<Longrightarrow> P k \<Longrightarrow> P k'" for p k e p' k'
    by (auto simp: EnqueuePod_def Let_def split: option.splits prod.splits if_splits dest: submit)
  then have pod: "keeps P (\<lambda>k. case HandlePod D C J Q req k of
      ((b, None), k) \<Rightarrow> Ret (PatchResponseFromRaw b, k) | ((b, Some e), k) \<Rightarrow> Ret (Errored 400 e, k))"
    unfolding keeps_def HandlePod_def by (fastforce split: sum.splits prod.splits option.splits)
  show ?thesis
    unfolding Handle_def[abs_def] HandleDeployment_def HandleReplicaSet_def HandleStatefulSet_def
      EnqueueDeployment_def EnqueueReplicaSet_def EnqueueStatefulSet_def
    by (intro keeps_handle_stage keeps_HandleJob keeps_handleWorkload pod) (fact job workload)+
qed

section \<open>The object of a request\<close>

text \<open>The object that a request is about: its kind, its metadata and its size. Kinds are tried in the order of
  \<open>Handle\<close>.\<close>

definition request_object :: "('r, 'q) codec \<Rightarrow> 'r \<Rightarrow> (jobWrapped \<times> object_meta \<times> int32 option) option" where
  "request_object D req =
     (case cd_job D req of Inr j \<Rightarrow> Some (JobWrappedJob, job_Meta j, job_Parallelism j) | Inl _ \<Rightarrow>
     (case cd_deployment D req of Inr d \<Rightarrow> Some (JobWrappedDeployment, wl_Meta d, wl_Replicas d) | Inl _ \<Rightarrow>
     (case cd_replicaset D req of Inr d \<Rightarrow> Some (JobWrappedReplicaSet, wl_Meta d, wl_Replicas d) | Inl _ \<Rightarrow>
     (case cd_statefulset D req of Inr d \<Rightarrow> Some (JobWrappedStatefulSet, wl_Meta d, wl_Replicas d) | Inl _ \<Rightarrow>
     (case cd_pod D req of Inr p \<Rightarrow> Some (JobWrappedPod, pod_Meta p, Some 1) | Inl _ \<Rightarrow> None)))))"

text \<open>Objects that the webhook does not submit: seen ones, and pods without a name.\<close>

definition passed_over :: "jobWrapped \<Rightarrow> object_meta \<Rightarrow> bool" where
  "passed_over ty m \<longleftrightarrow> label_get (om_Labels m) SeenLabel \<noteq> None \<or> (ty = JobWrappedPod \<and> om_Name m = [])"

text \<open>What may happen to the FluxJobs on behalf of one object.\<close>

definition object_effect ::
  "('k \<Rightarrow> (string \<times> string) \<rightharpoonup> fluxJob) \<Rightarrow> jobWrapped \<times> object_meta \<times> int32 option \<Rightarrow> bool \<Rightarrow> 'k \<Rightarrow> 'k \<Rightarrow> bool" where
  "object_effect jobs = (\<lambda>(ty, m, sz) accepted k k'.
     if passed_over ty m then jobs k' = jobs k
     else (\<exists>n. sz = Some n \<and>
       (jobs k' = jobs k \<or>
        (jobs k (om_Namespace m, GetJobName ty (om_Name m)) = None \<and>
         (\<exists>j. submitted ty (om_Name m) (om_Namespace m) n j \<and>
              jobs k' = (jobs k)((om_Namespace m, GetJobName ty (om_Name m)) \<mapsto> j)))) \<and>
       (accepted \<longrightarrow> jobs k' (om_Namespace m, GetJobName ty (om_Name m)) \<noteq> None)))"

lemma object_effect_rejected: "object_effect jobs obj a k k' \<Longrightarrow> (b \<Longrightarrow> a) \<Longrightarrow> object_effect jobs obj b k k'"
  by (auto simp: object_effect_def split: prod.splits if_splits)

context crd_client
begin

lemma EnqueueJob_effect:
  "EnqueueJob C J Q j k = Ret (e, j', k') \<Longrightarrow> object_effect jobs (JobWrappedJob, job_Meta j, job_Parallelism j) (e = None) k k'"
  by (auto simp: EnqueueJob_def object_effect_def passed_over_def Let_def jobWrapped_defs
      split: option.splits prod.splits if_splits dest!: Submit_effect)

lemma enqueueWorkload_effect:
  "enqueueWorkload kn ty C J Q d k = Ret (e, d', k') \<Longrightarrow> ty \<noteq> JobWrappedPod \<Longrightarrow>
   object_effect jobs (ty, wl_Meta d, wl_Replicas d) (e = None) k k'"
  by (auto simp: enqueueWorkload_def object_effect_def passed_over_def Let_def
      split: option.splits prod.splits if_splits dest!: Submit_effect)

lemma EnqueuePod_effect:
  "EnqueuePod C J Q p k = (e, p', k') \<Longrightarrow> object_effect jobs (JobWrappedPod, pod_Meta p, Some 1) (e = None) k k'"
  by (auto simp: EnqueuePod_def object_effect_def passed_over_def Let_def
      split: option.splits prod.splits if_splits dest!: Submit_effect)

end

text \<open>A kind that decodes decides the answer: an error of its \<open>Enqueue\<close> or of the marshalling rejects the
  request.\<close>

definition answers :: "response \<Rightarrow> go_error option \<Rightarrow> bool" where
  "answers r e \<longleftrightarrow> (case r of PatchResponseFromRaw _ \<Rightarrow> e = None | Errored code _ \<Rightarrow> code = 400)"

lemma answers_decided:
  assumes "handle_stage (case x of Panic m \<Rightarrow> Panic m
       | Ret (Some e, j, k) \<Rightarrow> Ret (([], False, Some e), k)
       | Ret (None, j, k) \<Rightarrow> (case marshal_result (marsh j) of (b, e) \<Rightarrow> Ret ((b, False, e), k))) next = Ret (r, k')"
  obtains e j where "x = Ret (e, j, k')" "answers r e"
  using assms
  by (auto simp: handle_stage_def marshal_result_def answers_def
      split: go.splits prod.splits option.splits sum.splits if_splits response.splits)

lemma Handle_job:
  assumes "cd_job D req = Inr j" "Handle D C J Q req k = Ret (r, k')"
  obtains e j' where "EnqueueJob C J Q j k = Ret (e, j', k')" "answers r e"
  using assms by (auto simp: Handle_def HandleJob_def elim: answers_decided)

lemma handleWorkload_decided:
  assumes "decode req = Inr d" "handle_stage (handleWorkload enqueue decode marsh req k) next = Ret (r, k')"
  obtains e d' where "enqueue d k = Ret (e, d', k')" "answers r e"
  using assms by (auto simp: handleWorkload_def elim: answers_decided)

lemma HandlePod_decided:
  assumes "(case HandlePod D C J Q req k of ((b, None), k) \<Rightarrow> Ret (PatchResponseFromRaw b, k)
      | ((b, Some e), k) \<Rightarrow> Ret (Errored 400 e, k)) = Ret (r, k')" "cd_pod D req = Inr p"
  obtains e p' where "EnqueuePod C J Q p k = (e, p', k')" "answers r e"
  using assms
  by (auto simp: HandlePod_def marshal_result_def answers_def split: prod.splits option.splits sum.splits)

lemmas handle_workloads = HandleDeployment_def HandleReplicaSet_def HandleStatefulSet_def
  EnqueueDeployment_def EnqueueReplicaSet_def EnqueueStatefulSet_def

text \<open>A kind that does not decode passes the request on.\<close>

lemma HandleJob_skip: "cd_job D req = Inl e \<Longrightarrow> handle_stage (HandleJob D C J Q req k) next = next k"
  by (simp add: HandleJob_def handle_stage_skip)

lemma handleWorkload_skip:
  "decode req = Inl e \<Longrightarrow> handle_stage (handleWorkload enqueue decode marsh req k) next = next k"
  by (simp add: handleWorkload_def handle_stage_skip)

lemmas handle_passes = HandleJob_skip handleWorkload_skip

text \<open>The effect of one object on a request that it decides, with the answer of the request.\<close>

definition request_effect ::
  "('k \<Rightarrow> (string \<times> string) \<rightharpoonup> fluxJob) \<Rightarrow> jobWrapped \<times> object_meta \<times> int32 option \<Rightarrow> response \<Rightarrow> 'k \<Rightarrow> 'k \<Rightarrow> bool" where
  "request_effect jobs obj r k k' \<longleftrightarrow> object_effect jobs obj (\<exists>b. r = PatchResponseFromRaw b) k k' \<and>
     (\<forall>code e. r = Errored code e \<longrightarrow> code = 400)"

context crd_client
begin

lemma request_effectI: "object_effect jobs obj (e = None) k k' \<Longrightarrow> answers r e \<Longrightarrow> request_effect jobs obj r k k'"
  by (auto simp: request_effect_def answers_def elim: object_effect_rejected)

lemma workload_effect:
  assumes "handle_stage (handleWorkload (enqueueWorkload kn ty C J Q) decode marsh req k) next = Ret (r, k')"
    and "decode req = Inr d" "ty \<noteq> JobWrappedPod"
  shows "request_effect jobs (ty, wl_Meta d, wl_Replicas d) r k k'"
  using handleWorkload_decided[OF assms(2,1)] enqueueWorkload_effect[OF _ assms(3)] request_effectI by metis

lemma Handle_effect:
  assumes "Handle D C J Q req k = Ret (r, k')"
  shows "case request_object D req of
      None \<Rightarrow> (\<exists>e. r = Errored 400 e) \<and> jobs k' = jobs k | Some obj \<Rightarrow> request_effect jobs obj r k k'"
proof (cases "cd_job D req")
  case (Inr j)
  then obtain e j' where "EnqueueJob C J Q j k = Ret (e, j', k')" "answers r e" by (rule Handle_job[OF _ assms])
  with Inr show ?thesis by (simp add: request_object_def request_effectI[OF EnqueueJob_effect])
next
  case job: (Inl e1)
  have ne: "JobWrappedDeployment \<noteq> JobWrappedPod" "JobWrappedReplicaSet \<noteq> JobWrappedPod" "JobWrappedStatefulSet \<noteq> JobWrappedPod"
    by (simp_all add: jobWrapped_defs)
  note run = assms[unfolded Handle_def handle_workloads, unfolded HandleJob_skip[OF job]]
  show ?thesis
  proof (cases "\<exists>d. cd_deployment D req = Inr d \<or> cd_replicaset D req = Inr d \<or> cd_statefulset D req = Inr d")
    case True
    then show ?thesis using run workload_effect ne job
      by (auto simp: request_object_def handle_passes split: sum.splits)
  next
    case False
    then obtain e2 e3 e4 where skip: "cd_deployment D req = Inl e2" "cd_replicaset D req = Inl e3" "cd_statefulset D req = Inl e4"
      by (metis obj_sumE)
    have pod: "(case HandlePod D C J Q req k of ((b, None), k) \<Rightarrow> Ret (PatchResponseFromRaw b, k)
      | ((b, Some e), k) \<Rightarrow> Ret (Errored 400 e, k)) = Ret (r, k')" using run skip by (simp add: handle_passes)
    show ?thesis
    proof (cases "cd_pod D req")
      case (Inl e)
      with pod job skip show ?thesis by (auto simp: request_object_def HandlePod_def)
    next
      case (Inr p)
      obtain e p' where "EnqueuePod C J Q p k = (e, p', k')" "answers r e" by (rule HandlePod_decided[OF pod Inr])
      with job skip Inr show ?thesis by (simp add: request_object_def request_effectI[OF EnqueuePod_effect])
    qed
  qed
qed

end

section \<open>Small objects\<close>

definition ex_jobspec :: "string jobspecOps" where
  "ex_jobspec = \<lparr>jo_NewSimpleJobspec = (\<lambda>name command nodes cores. Inr command),
     jo_setDuration = (\<lambda>_ js. js), jo_JobspecToYaml = Inr\<rparr>"

definition ex_spec :: "int pod_spec" where
  "ex_spec = \<lparr>ps_SchedulingGates = [], ps_SchedulerName = ''default-scheduler'', ps_ActiveDeadlineSeconds = None,
     ps_Containers = [], ps_InitContainers = [], ps_Overhead = None\<rparr>"

definition ex_meta :: "string \<Rightarrow> object_meta" where
  "ex_meta n = \<lparr>om_Name = n, om_Namespace = ''ns'', om_Labels = None, om_CreationTimestamp = None\<rparr>"

definition ex_new_pod :: "string \<Rightarrow> int pod" where
  "ex_new_pod n = \<lparr>pod_Meta = ex_meta n, pod_Spec = ex_spec, pod_ContainerStatuses = [], pod_Resize = []\<rparr>"

definition ex_new_job :: "string \<Rightarrow> int batch_job" where
  "ex_new_job n = \<lparr>job_Meta = ex_meta n, job_Suspend = None, job_Parallelism = Some 2,
     job_Template = \<lparr>pt_Labels = None, pt_Spec = ex_spec\<rparr>\<rparr>"

definition ex_workload :: "string \<Rightarrow> int workload" where
  "ex_workload n = \<lparr>wl_Meta = ex_meta n, wl_Replicas = Some 2,
     wl_Template = \<lparr>pt_Labels = None, pt_Spec = ex_spec\<rparr>\<rparr>"

text \<open>A codec that decodes the request \<open>pod\<close> as a pod and nothing else.\<close>

definition ex_codec :: "(string, int) codec" where
  "ex_codec = \<lparr>cd_job = (\<lambda>_. Inl (Errorf ''kind'')), cd_deployment = (\<lambda>_. Inl (Errorf ''kind'')),
     cd_replicaset = (\<lambda>_. Inl (Errorf ''kind'')), cd_statefulset = (\<lambda>_. Inl (Errorf ''kind'')),
     cd_pod = (\<lambda>r. if r = ''pod'' then Inr (ex_new_pod ''a'') else Inl (Errorf ''kind'')),
     cm_job = (\<lambda>_. Inr ''job''), cm_workload = (\<lambda>_. Inr ''workload''), cm_pod = (\<lambda>p. Inr (pod_Name p))\<rparr>"

lemmas ex_object_defs = ex_jobspec_def ex_spec_def ex_meta_def ex_new_pod_def ex_new_job_def ex_workload_def

lemma ex_Submit: "SubmitFluxJob mem_client ex_jobspec Q ty n ns nodes cs Map.empty = (e, k') \<Longrightarrow> e = None"
  by (auto simp: SubmitFluxJob_def mem_client_def ex_jobspec_def Let_def)

lemma ex_EnqueuePod: "\<exists>p' k'. EnqueuePod mem_client ex_jobspec Q (ex_new_pod ''a'') Map.empty = (None, p', k')"
  using ex_Submit by (auto simp: EnqueuePod_def ex_new_pod_def ex_meta_def Let_def split: prod.splits)

lemma ex_EnqueueJob: "\<exists>j' k'. EnqueueJob mem_client ex_jobspec Q (ex_new_job ''a'') Map.empty = Ret (None, j', k')"
  using ex_Submit by (auto simp: EnqueueJob_def ex_new_job_def ex_meta_def Let_def split: prod.splits)

lemma ex_enqueueWorkload:
  "\<exists>d' k'. enqueueWorkload kn ty mem_client ex_jobspec Q (ex_workload n) Map.empty = Ret (None, d', k')"
  using ex_Submit by (auto simp: enqueueWorkload_def ex_workload_def ex_meta_def Let_def split: prod.splits)

section \<open>Properties\<close>

text \<open>C20: a pod with a name that was not seen before is admitted gated: it gets the program's gate after its
  own gates, the program's scheduler and the seen label, keeps its other labels, and when the webhook succeeds
  a FluxJob for it exists, which is of kind pod and of size 1 if there was none before. A pod without a name,
  one whose name Kubernetes is still to generate, is admitted as it is: without gate, scheduler, label and
  FluxJob.\<close>
theorem EnqueuePod_gates_and_submits:
  assumes "crd_client C jobs" "label_get (pod_Labels p) SeenLabel = None" "EnqueuePod C J Q p k = (None, p', k')"
  shows "(pod_Name p \<noteq> [] \<longrightarrow>
      pod_Gates p' = pod_Gates p @ [SchedulingGateName] \<and> ps_SchedulerName (pod_Spec p') = SchedulerName \<and>
      label_get (pod_Labels p') SeenLabel = Some ''yes'' \<and>
      (\<forall>x. x \<noteq> SeenLabel \<longrightarrow> label_get (pod_Labels p') x = label_get (pod_Labels p) x) \<and>
      (\<exists>j. jobs k' (pod_Namespace p, GetJobName JobWrappedPod (pod_Name p)) = Some j \<and>
        (jobs k (pod_Namespace p, GetJobName JobWrappedPod (pod_Name p)) = None \<longrightarrow>
           submitted JobWrappedPod (pod_Name p) (pod_Namespace p) 1 j))) \<and>
    (pod_Name p = [] \<longrightarrow> p' = p \<and> k' = k)"
proof (cases "pod_Name p = []")
  case True
  with assms(3) show ?thesis by (simp add: EnqueuePod_def)
next
  case False
  obtain k1 where sub: "SubmitFluxJob C J Q JobWrappedPod (pod_Name p) (pod_Namespace p) 1 (ps_Containers (pod_Spec p)) k = (None, k1)"
    and p': "k' = k1" "p' = p\<lparr>pod_Meta := meta_set_label SeenLabel ''yes'' (pod_Meta p),
                      pod_Spec := use_scheduler (add_gate (pod_Spec p))\<rparr>"
    using assms(3) by (auto simp: EnqueuePod_new[OF False assms(2)] split: prod.splits)
  from crd_client.Submit_outcome[OF assms(1) sub] p' False show ?thesis by auto
qed

theorem EnqueuePod_gates_and_submits_witness:
  "\<exists>p' k' j. EnqueuePod mem_client ex_jobspec nano_ops (ex_new_pod ''a'') Map.empty = (None, p', k') \<and>
    pod_Gates p' = [SchedulingGateName] \<and> k' (''ns'', ''a-pod'') = Some j \<and> submitted JobWrappedPod ''a'' ''ns'' 1 j"
proof -
  obtain p' k' where run: "EnqueuePod mem_client ex_jobspec nano_ops (ex_new_pod ''a'') Map.empty = (None, p', k')"
    using ex_EnqueuePod by blast
  have "label_get (pod_Labels (ex_new_pod ''a'')) SeenLabel = None" by (simp add: ex_object_defs)
  from EnqueuePod_gates_and_submits[OF mem_crd.crd_client_axioms this run] run show ?thesis
    by (auto simp: ex_object_defs GetJobName_def jobWrapped_defs)
qed

text \<open>The webhook acts once per object: enqueueing what it returned changes nothing more, submits
  nothing and succeeds, for pods, jobs and deployments, replica sets and stateful sets.\<close>

lemma Enqueue_idempotent:
  "(pod_Name p \<noteq> [] \<and> EnqueuePod C J Q p k = (e, p', k') \<longrightarrow> EnqueuePod C J Q p' k'' = (None, p', k'')) \<and>
   (EnqueueJob C J Q j k = Ret (e, j', k') \<longrightarrow> EnqueueJob C J Q j' k'' = Ret (None, j', k'')) \<and>
   (enqueueWorkload kn ty C J Q d k = Ret (e, d', k') \<longrightarrow> enqueueWorkload kn ty C J Q d' k'' = Ret (None, d', k''))"
  using EnqueuePod_again EnqueueJob_again enqueueWorkload_again by metis

text \<open>C22: a job that was not seen before is admitted suspended, with the program's scheduler and the seen
  label on itself and on its pod template, and a FluxJob of kind job with as many nodes as its
  parallelism exists for it when the webhook succeeds. A job without a parallelism makes the webhook
  panic.\<close>
theorem EnqueueJob_suspends_and_submits:
  assumes "crd_client C jobs" "label_get (om_Labels (job_Meta j)) SeenLabel = None"
  shows "(job_Parallelism j = None \<longrightarrow> (\<exists>m. EnqueueJob C J Q j k = Panic m)) \<and>
    (\<forall>j' k'. EnqueueJob C J Q j k = Ret (None, j', k') \<longrightarrow>
      job_Suspend j' = Some True \<and> ps_SchedulerName (pt_Spec (job_Template j')) = SchedulerName \<and>
      label_get (om_Labels (job_Meta j')) SeenLabel = Some ''yes'' \<and>
      label_get (pt_Labels (job_Template j')) SeenLabel = Some ''yes'' \<and>
      (\<exists>n f. job_Parallelism j = Some n \<and>
        jobs k' (om_Namespace (job_Meta j), GetJobName JobWrappedJob (om_Name (job_Meta j))) = Some f \<and>
        (jobs k (om_Namespace (job_Meta j), GetJobName JobWrappedJob (om_Name (job_Meta j))) = None \<longrightarrow>
          submitted JobWrappedJob (om_Name (job_Meta j)) (om_Namespace (job_Meta j)) n f)))"
  using assms(2) crd_client.Submit_outcome[OF assms(1)]
  by (auto simp: EnqueueJob_def Let_def split: option.splits prod.splits dest!: crd_client.Submit_outcome[OF assms(1)])

theorem EnqueueJob_suspends_and_submits_witness:
  "\<exists>j' k' f. EnqueueJob mem_client ex_jobspec nano_ops (ex_new_job ''a'') Map.empty = Ret (None, j', k') \<and>
    job_Suspend j' = Some True \<and> k' (''ns'', ''a-job'') = Some f \<and> submitted JobWrappedJob ''a'' ''ns'' 2 f"
proof -
  obtain j' k' where run: "EnqueueJob mem_client ex_jobspec nano_ops (ex_new_job ''a'') Map.empty = Ret (None, j', k')"
    using ex_EnqueueJob by blast
  have "label_get (om_Labels (job_Meta (ex_new_job ''a''))) SeenLabel = None" by (simp add: ex_object_defs)
  from EnqueueJob_suspends_and_submits[OF mem_crd.crd_client_axioms this, THEN conjunct2, rule_format, OF run] run
  show ?thesis by (auto simp: ex_object_defs GetJobName_def jobWrapped_defs)
qed

text \<open>C21: a deployment, replica set or stateful set that was not seen before is admitted with a gated pod
  template that carries the seen label and the selector made of kind, name and namespace, and a FluxJob with as
  many nodes as its replicas exists for it when the webhook succeeds.\<close>
theorem EnqueueWorkload_gates_and_submits:
  assumes "crd_client C jobs" "label_get (om_Labels (wl_Meta d)) SeenLabel = None"
    and "enqueueWorkload kn ty C J Q d k = Ret (None, d', k')"
  shows "ps_SchedulingGates (pt_Spec (wl_Template d')) = ps_SchedulingGates (pt_Spec (wl_Template d)) @ [SchedulingGateName] \<and>
    ps_SchedulerName (pt_Spec (wl_Template d')) = SchedulerName \<and>
    label_get (om_Labels (wl_Meta d')) SeenLabel = Some ''yes'' \<and>
    label_get (pt_Labels (wl_Template d')) SeenLabel = Some ''yes'' \<and>
    label_get (pt_Labels (wl_Template d')) SelectorLabel =
      Some (kn @ ''-'' @ om_Name (wl_Meta d) @ ''-'' @ om_Namespace (wl_Meta d)) \<and>
    (\<exists>n f. wl_Replicas d = Some n \<and> jobs k' (om_Namespace (wl_Meta d), GetJobName ty (om_Name (wl_Meta d))) = Some f \<and>
      (jobs k (om_Namespace (wl_Meta d), GetJobName ty (om_Name (wl_Meta d))) = None \<longrightarrow>
        submitted ty (om_Name (wl_Meta d)) (om_Namespace (wl_Meta d)) n f))"
  using assms(2,3)
  by (auto simp: enqueueWorkload_def Let_def split: option.splits prod.splits dest!: crd_client.Submit_outcome[OF assms(1)])

theorem EnqueueWorkload_gates_and_submits_witness:
  "\<exists>d' k' f. EnqueueDeployment mem_client ex_jobspec nano_ops (ex_workload ''a'') Map.empty = Ret (None, d', k') \<and>
    ps_SchedulingGates (pt_Spec (wl_Template d')) = [SchedulingGateName] \<and>
    label_get (pt_Labels (wl_Template d')) SelectorLabel = Some ''deployment-a-ns'' \<and>
    k' (''ns'', ''a-deployment'') = Some f \<and> submitted JobWrappedDeployment ''a'' ''ns'' 2 f"
proof -
  obtain d' k' where run: "enqueueWorkload ''deployment'' JobWrappedDeployment mem_client ex_jobspec nano_ops
      (ex_workload ''a'') Map.empty = Ret (None, d', k')"
    using ex_enqueueWorkload by blast
  have "label_get (om_Labels (wl_Meta (ex_workload ''a''))) SeenLabel = None" by (simp add: ex_object_defs)
  from EnqueueWorkload_gates_and_submits[OF mem_crd.crd_client_axioms this run] run
  show ?thesis by (auto simp: EnqueueDeployment_def ex_object_defs GetJobName_def jobWrapped_defs)
qed

text \<open>C33: pods made from the template of an enqueued job or workload are not submitted again, whatever labels
  Kubernetes adds to them: a pod that has every label of the template is returned as it is, and no FluxJob is
  touched.\<close>
theorem template_pods_not_resubmitted:
  "(enqueueWorkload kn ty C J Q d k = Ret (e, d', k') \<and> label_get (om_Labels (wl_Meta d)) SeenLabel = None \<and>
      (\<forall>l v. label_get (pt_Labels (wl_Template d')) l = Some v \<longrightarrow> label_get (pod_Labels p) l = Some v) \<longrightarrow>
      EnqueuePod C J Q p x = (None, p, x)) \<and>
   (EnqueueJob C J Q j k = Ret (e, j', k') \<and> label_get (om_Labels (job_Meta j)) SeenLabel = None \<and>
      (\<forall>l v. label_get (pt_Labels (job_Template j')) l = Some v \<longrightarrow> label_get (pod_Labels p) l = Some v) \<longrightarrow>
      EnqueuePod C J Q p x = (None, p, x))"
  by (intro conjI impI; elim conjE)
     (rule EnqueuePod_seen, erule allE[of _ SeenLabel], drule (1) enqueueWorkload_marks_template EnqueueJob_marks_template, simp)+

theorem template_pods_not_resubmitted_witness:
  "\<exists>d' k' p. EnqueueDeployment mem_client ex_jobspec nano_ops (ex_workload ''a'') Map.empty = Ret (None, d', k') \<and>
    label_get (pod_Labels p) ''pod-template-hash'' = Some ''66b6'' \<and> EnqueuePod mem_client ex_jobspec nano_ops p k' = (None, p, k')"
proof -
  obtain d' k' where run: "enqueueWorkload ''deployment'' JobWrappedDeployment mem_client ex_jobspec nano_ops
      (ex_workload ''a'') Map.empty = Ret (None, d', k')"
    using ex_enqueueWorkload by blast
  let ?l = "(label_init (pt_Labels (wl_Template d')))(''pod-template-hash'' \<mapsto> ''66b6'')"
  let ?p = "(ex_new_pod ''a-1'')\<lparr>pod_Meta := (ex_meta ''a-1'')\<lparr>om_Labels := Some ?l\<rparr>\<rparr>"
  have "label_get (om_Labels (wl_Meta (ex_workload ''a''))) SeenLabel = None" by (simp add: ex_object_defs)
  moreover have "label_get (pod_Labels ?p) l = Some v" if "label_get (pt_Labels (wl_Template d')) l = Some v" for l v
    using that run by (auto simp: enqueueWorkload_def ex_object_defs Let_def template_set_label_def template_init_labels_def
        label_init_def SeenLabel_def SelectorLabel_def split: prod.splits if_splits)
  ultimately have "EnqueuePod mem_client ex_jobspec nano_ops ?p k' = (None, ?p, k')"
    using template_pods_not_resubmitted[of "''deployment''" JobWrappedDeployment mem_client ex_jobspec nano_ops
      "ex_workload ''a''" Map.empty None d' k' ?p k'] run by blast
  with run show ?thesis by (intro exI[of _ d'] exI[of _ k'] exI[of _ ?p]) (simp add: EnqueueDeployment_def)
qed

text \<open>C34: a request submits at most its own object, and none is admitted without a FluxJob. Whatever fails, and
  also when a call had its effect and reported an error: a request that is no object of the five kinds is
  rejected and changes no FluxJob; an object that was seen before, or a pod without a name, changes none either;
  for any other object every FluxJob stays as it was or the one of that object is created, of its kind and
  size, and only if there was none; when the object is admitted, its FluxJob exists. A rejection has the code 400.\<close>
theorem Handle_submits_once:
  assumes "crd_client C jobs" "Handle D C J Q req k = Ret (r, k')"
  shows "(\<forall>code e. r = Errored code e \<longrightarrow> code = 400) \<and>
    (case request_object D req of
       None \<Rightarrow> (\<exists>e. r = Errored 400 e) \<and> jobs k' = jobs k
     | Some (ty, m, sz) \<Rightarrow>
        if label_get (om_Labels m) SeenLabel \<noteq> None \<or> (ty = JobWrappedPod \<and> om_Name m = []) then jobs k' = jobs k
        else (\<exists>n. sz = Some n \<and>
          (jobs k' = jobs k \<or>
           (jobs k (om_Namespace m, GetJobName ty (om_Name m)) = None \<and>
            (\<exists>j. submitted ty (om_Name m) (om_Namespace m) n j \<and>
                 jobs k' = (jobs k)((om_Namespace m, GetJobName ty (om_Name m)) \<mapsto> j)))) \<and>
          ((\<exists>b. r = PatchResponseFromRaw b) \<longrightarrow> jobs k' (om_Namespace m, GetJobName ty (om_Name m)) \<noteq> None)))"
  using crd_client.Handle_effect[OF assms]
  by (auto simp: request_effect_def object_effect_def passed_over_def split: option.splits prod.splits)

text \<open>The answer to a create is lost: the request is rejected, and its FluxJob exists.\<close>

theorem Handle_submits_once_witness:
  "\<exists>k' j. Handle ex_codec lossy_client ex_jobspec nano_ops ''pod'' Map.empty = Ret (Errored 400 (Errorf ''timeout''), k') \<and>
    k' = [(''ns'', ''a-pod'') \<mapsto> j] \<and> submitted JobWrappedPod ''a'' ''ns'' 1 j"
proof -
  have "\<exists>k'. Handle ex_codec lossy_client ex_jobspec nano_ops ''pod'' Map.empty = Ret (Errored 400 (Errorf ''timeout''), k') \<and>
      k' \<noteq> Map.empty"
    by (simp add: Handle_def handle_skips HandlePod_def ex_codec_def EnqueuePod_def ex_new_pod_def ex_meta_def
        SubmitFluxJob_def lossy_client_def mem_client_def ex_jobspec_def Let_def)
  then obtain k' where run: "Handle ex_codec lossy_client ex_jobspec nano_ops ''pod'' Map.empty = Ret (Errored 400 (Errorf ''timeout''), k')"
    and changed: "k' \<noteq> Map.empty" by (elim exE conjE)
  have obj: "request_object ex_codec ''pod'' = Some (JobWrappedPod, ex_meta ''a'', Some 1)"
    by (simp add: request_object_def ex_codec_def ex_new_pod_def)
  have key: "GetJobName JobWrappedPod ''a'' = ''a-pod''" by (simp add: GetJobName_def jobWrapped_defs)
  from Handle_submits_once[OF lossy_crd.crd_client_axioms run] changed run show ?thesis
    by (simp add: obj ex_meta_def key) blast
qed

end
