(* ===== verification/Controller.thy ===== *)
theory Controller
  imports Queue Submit
begin

text \<open>
  The FluxJob controller of \<open>internal/controller\<close>: \<open>Reconcile\<close>
  (\<open>fluxjob_controller.go\<close>), \<open>submitJob\<close> (\<open>submit.go\<close>), \<open>updateStatus\<close>
  (\<open>status.go\<close>) and the handler of pod deletions that \<open>SetupEvents\<close> registers
  (\<open>events.go\<close>). The controller-runtime client is the parameter \<open>C\<close> of
  \<open>Submit.thy\<close>; the queue's state and the cluster are passed separately, as the controller
  holds one reference to each.
\<close>

section \<open>Operations\<close>

record ctrl_result =
  cr_Requeue :: bool

definition no_result :: ctrl_result where "no_result = \<lparr>cr_Requeue = False\<rparr>"

text \<open>
  The branches on the enqueue status only log. The error of \<open>Schedule\<close> is logged and not
  returned.
\<close>

definition submitJob ::
  "faults \<Rightarrow> queue \<Rightarrow> fluxJob \<Rightarrow> sys \<Rightarrow> ((ctrl_result \<times> go_error option) \<times> sys) go" where
  "submitJob f q spec s =
     (case Enqueue f spec s of
        ((enqueueStatus, Some err), s) \<Rightarrow> Ret ((no_result, Some err), s)
      | ((enqueueStatus, None), s) \<Rightarrow>
         (case Schedule f q s of
            Panic m \<Rightarrow> Panic m
          | Ret (err, s) \<Rightarrow> Ret ((no_result, None), s)))"

definition updateStatus :: "'k clientOps \<Rightarrow> fluxJob \<Rightarrow> submitStatus \<Rightarrow> 'k \<Rightarrow> go_error option \<times> 'k" where
  "updateStatus C spec status k =
     (if fj_Status spec \<noteq> status then co_UpdateStatus C (spec\<lparr>fj_Status := status\<rparr>) k else (None, k))"

definition Reconcile ::
  "'k clientOps \<Rightarrow> faults \<Rightarrow> queue \<Rightarrow> string \<Rightarrow> string \<Rightarrow> sys \<Rightarrow> 'k \<Rightarrow>
   ((ctrl_result \<times> go_error option) \<times> sys \<times> 'k) go" where
  "Reconcile C f q namespace name s k =
     (case co_Get C namespace name k of
        Inl err \<Rightarrow>
          (if isNotFound err then Ret ((no_result, None), s, k)
           else Ret ((\<lparr>cr_Requeue = True\<rparr>, Some err), s, k))
      | Inr spec \<Rightarrow>
          (if fj_Status spec = SubmitStatusSubmit then
             (case co_Delete C spec k of (err, k) \<Rightarrow> Ret ((no_result, err), s, k))
           else
             (case submitJob f q spec s of
                Panic m \<Rightarrow> Panic m
              | Ret ((result, None), s) \<Rightarrow>
                 (case updateStatus C spec SubmitStatusSubmit k of (err, k) \<Rightarrow> Ret ((result, err), s, k))
              | Ret ((result, Some _), s) \<Rightarrow>
                 (case updateStatus C spec SubmitStatusError k of (err, k) \<Rightarrow> Ret ((result, err), s, k)))))"

text \<open>
  What an informer passes to \<open>DeleteFunc\<close>: a pod, or \<open>cache.DeletedFinalStateUnknown\<close>
  when the deletion itself was missed.
\<close>

datatype 'q deletedObj = DeletedPod "'q pod" | DeletedFinalStateUnknown

text \<open>
  \<open>obj.(*corev1.Pod)\<close> panics on anything else. A label that does not parse is logged, and the
  function goes on with the value \<open>ParseInt\<close> returned beside its error.
\<close>

definition DeleteFunc :: "faults \<Rightarrow> queue \<Rightarrow> 'q deletedObj \<Rightarrow> sys \<Rightarrow> sys go" where
  "DeleteFunc f q obj s =
     (case obj of
        DeletedFinalStateUnknown \<Rightarrow> Panic ''interface conversion''
      | DeletedPod p \<Rightarrow>
         (case label_get (pod_Labels p) FluxJobIdLabel of
            None \<Rightarrow> Ret s
          | Some jobid \<Rightarrow> (case parseInt jobid 64 of (jobInt, err) \<Rightarrow> Ret (snd (queue_Cleanup f q [jobInt] s)))))"

section \<open>Facts\<close>

abbreviation easy_queue :: "int32 \<Rightarrow> queue" where
  "easy_queue depth \<equiv> \<lparr>q_Strategy = EasyBackfill, q_ReservationDepth = depth\<rparr>"

definition cleanup_job :: "int \<Rightarrow> insertManyParams" where
  "cleanup_job fluxid =
     \<lparr>im_Args = ACleanup \<lparr>ca_FluxID = fluxid, ca_Podspec = []\<rparr>,
      im_Opts = \<lparr>io_MaxAttempts = MaxCancelAttempts, io_Tags = [easy_Name], io_Queue = ''cleanup_queue''\<rparr>\<rparr>"

lemma queue_Cleanup_easy:
  "queue_Cleanup f (easy_queue depth) ids s =
     (if ids = [] then (None, s)
      else case ft_insertMany f of
             Some e \<Rightarrow> (Some e, s)
           | None \<Rightarrow> (None, s\<lparr>s_river := s_river s @ map cleanup_job ids\<rparr>))"
  by (auto simp: queue_Cleanup_def EasyBackfill_def easy_Cleanup_def cleanup_job_def Let_def comp_def
      split: option.splits)

text \<open>The two ways \<open>submitJob\<close> ends: the enqueue failed, or a schedule loop ran after it.\<close>

lemma submitJob_cases:
  obtains (refused) st e t where "Enqueue f spec s = ((st, Some e), t)"
      "submitJob f (easy_queue depth) spec s = Ret ((no_result, Some e), t)"
  | (queued) st t e s' where "Enqueue f spec s = ((st, None), t)" "Schedule f (easy_queue depth) t = Ret (e, s')"
      "submitJob f (easy_queue depth) spec s = Ret ((no_result, None), s')"
proof -
  obtain st e t where en: "Enqueue f spec s = ((st, e), t)" by (metis prod.collapse)
  obtain e' s' where sch: "Schedule f (easy_queue depth) t = Ret (e', s')"
    using easy.Schedule_returns[of "easy_queue depth" f t] by auto
  show thesis
  proof (cases e)
    case None
    with en sch show ?thesis by (intro queued[of st t e' s']) (simp_all add: submitJob_def)
  next
    case (Some x)
    with en show ?thesis by (intro refused[of st x t]) (simp_all add: submitJob_def)
  qed
qed

lemma submitJob_keeps_wf:
  assumes "pending_wf (db_pending (s_db s))" "submitJob f (easy_queue depth) spec s = Ret (r, s')"
  shows "pending_wf (db_pending (s_db s'))"
proof (cases rule: submitJob_cases[where f = f and spec = spec and s = s and depth = depth])
  case (refused st e t)
  with assms Enqueue_keeps_wf[OF assms(1), of f spec] show ?thesis by simp
next
  case (queued st t e s'')
  then have "pending_wf (db_pending (s_db t))" using Enqueue_keeps_wf[OF assms(1), of f spec] by simp
  with easy.Schedule_keeps_wf[OF _ queued(2)] queued(3) assms(2) show ?thesis by simp
qed

text \<open>A job that can be enqueued and scheduled ends up in river.\<close>

lemma submitJob_ok:
  assumes "\<not> IsInScheduleLoop s"
    and "(fj_Namespace spec, fs_Name (fj_Spec spec)) \<notin> set (map row_key (db_pending (s_db s)))"
  shows "\<exists>s'. submitJob no_faults (easy_queue depth) spec s = Ret ((no_result, None), s') \<and>
    db_pending (s_db s') = [] \<and>
    (\<exists>p \<in> set (s_river s'). im_Args p = AJob (row_jobArgs (enqueue_row spec (db_now (s_db s)))))"
proof -
  let ?row = "enqueue_row spec (db_now (s_db s))"
  let ?s = "s\<lparr>s_db := (s_db s)\<lparr>db_pending := db_pending (s_db s) @ [?row]\<rparr>\<rparr>"
  have en: "Enqueue no_faults spec s = ((JobEnqueueSuccess, None), ?s)"
    using assms(2) by (simp add: Enqueue_eq no_faults_def)
  have free: "\<not> IsInScheduleLoop ?s" using assms(1) by (simp add: IsInScheduleLoop_def)
  have ne: "db_pending (s_db ?s) \<noteq> []" by simp
  have nf: "ft_select no_faults = None" "ft_collect no_faults = None" "ft_insertMany no_faults = None"
    by (simp_all add: no_faults_def)
  obtain s' jobs where s': "Schedule no_faults (easy_queue depth) ?s = Ret (None, s')"
    "s_river s' = s_river ?s @
      map (\<lambda>r. \<lparr>im_Args = AJob (row_jobArgs r), im_Opts = easy_insertOpts\<rparr>)
          (SelectPendingByCreation (db_pending (s_db ?s))) @ [clearReservationJob]"
    "db_pending (s_db s') = filter (kept no_faults jobs) (db_pending (s_db ?s))"
    "set (map job_key jobs) = set (map row_key (db_pending (s_db ?s)))"
    using free ne nf by (rule easy_Schedule_sent)
  have "filter (kept no_faults jobs) (db_pending (s_db ?s)) = []"
    using s'(4) by (intro filter_all_removed) (auto simp: kept_def no_faults_def)
  moreover have "?row \<in> set (SelectPendingByCreation (db_pending (s_db ?s)))"
    by (simp add: pending.sel_set)
  then have "\<lparr>im_Args = AJob (row_jobArgs ?row), im_Opts = easy_insertOpts\<rparr> \<in> set (s_river s')"
    unfolding s'(2) by simp
  then have "\<exists>p \<in> set (s_river s'). im_Args p = AJob (row_jobArgs ?row)" by force
  moreover have "submitJob no_faults (easy_queue depth) spec s = Ret ((no_result, None), s')"
    using en s'(1) by (simp add: submitJob_def)
  ultimately show ?thesis using s'(3) by metis
qed

section \<open>A small cluster\<close>

definition ex_crds :: "(string \<times> string) \<rightharpoonup> fluxJob" where
  "ex_crds = [(''ns'', ''c-pod'') \<mapsto> ex_job ''c'',
     (''ns'', ''a-pod'') \<mapsto> (ex_job ''a'')\<lparr>fj_Status := SubmitStatusError\<rparr>]"

definition ex_labelled :: "string \<Rightarrow> int pod" where
  "ex_labelled v = \<lparr>pod_Meta = \<lparr>om_Name = ''p'', om_Namespace = ''ns'', om_Labels = Some [FluxJobIdLabel \<mapsto> v],
       om_CreationTimestamp = None\<rparr>,
     pod_Spec = \<lparr>ps_SchedulingGates = [], ps_SchedulerName = SchedulerName, ps_ActiveDeadlineSeconds = None,
       ps_Containers = [], ps_InitContainers = [], ps_Overhead = None\<rparr>,
     pod_ContainerStatuses = [], pod_Resize = []\<rparr>"

section \<open>Properties\<close>

text \<open>C19: reconciling a FluxJob that is not submitted yet, without faults, hands its job to river, empties
  the pending table and sets the status to submit; the status update makes the next reconcile delete
  the FluxJob, with the queue untouched.\<close>
theorem Reconcile_lifecycle:
  assumes "crd_client C jobs" "\<not> IsInScheduleLoop s"
    and "co_Get C ns n k = Inr spec" "fj_key spec = (ns, n)" "fj_Status spec \<noteq> SubmitStatusSubmit"
    and "(fj_Namespace spec, fs_Name (fj_Spec spec)) \<notin> set (map row_key (db_pending (s_db s)))"
    and "co_UpdateStatus C (spec\<lparr>fj_Status := SubmitStatusSubmit\<rparr>) k = (None, k1)"
    and "co_Get C ns n k1 = Inr spec1" "co_Delete C spec1 k1 = (None, k2)"
  shows "\<exists>s'. Reconcile C no_faults (easy_queue depth) ns n s k = Ret ((no_result, None), s', k1) \<and>
    db_pending (s_db s') = [] \<and>
    (\<exists>p \<in> set (s_river s'). im_Args p = AJob (row_jobArgs (enqueue_row spec (db_now (s_db s))))) \<and>
    Reconcile C f (easy_queue depth) ns n s' k1 = Ret ((no_result, None), s', k2) \<and>
    (fj_key spec1 = (ns, n) \<longrightarrow> jobs k2 (ns, n) = None)"
proof -
  obtain s' where s': "submitJob no_faults (easy_queue depth) spec s = Ret ((no_result, None), s')"
    "db_pending (s_db s') = []"
    "\<exists>p \<in> set (s_river s'). im_Args p = AJob (row_jobArgs (enqueue_row spec (db_now (s_db s))))"
    using submitJob_ok[OF assms(2,6)] by blast
  have "jobs k1 (ns, n) = Some spec1" using crd_client.get_found[OF assms(1,8)] .
  moreover have "jobs k (ns, n) = Some spec" using crd_client.get_found[OF assms(1,3)] .
  ultimately have "fj_Status spec1 = SubmitStatusSubmit"
    using crd_client.status_ok[OF assms(1,7)] assms(4) by auto
  moreover have "jobs k2 = (jobs k1)(fj_key spec1 := None)" using crd_client.delete_ok[OF assms(1,9)] .
  ultimately show ?thesis using s' assms by (intro exI[of _ s']) (auto simp: Reconcile_def updateStatus_def)
qed

theorem Reconcile_lifecycle_witness:
  "\<exists>s' k1 k2. Reconcile mem_client no_faults (easy_queue 1) ''ns'' ''c-pod'' ex_sys ex_crds = Ret ((no_result, None), s', k1) \<and>
    db_pending (s_db s') = [] \<and>
    Reconcile mem_client no_faults (easy_queue 1) ''ns'' ''c-pod'' s' k1 = Ret ((no_result, None), s', k2) \<and>
    k2 (''ns'', ''c-pod'') = None"
proof -
  let ?k1 = "ex_crds((''ns'', ''c-pod'') \<mapsto> (ex_job ''c'')\<lparr>fj_Status := SubmitStatusSubmit\<rparr>)"
  have "\<exists>s'. Reconcile mem_client no_faults (easy_queue 1) ''ns'' ''c-pod'' ex_sys ex_crds = Ret ((no_result, None), s', ?k1) \<and>
    db_pending (s_db s') = [] \<and>
    (\<exists>p \<in> set (s_river s'). im_Args p = AJob (row_jobArgs (enqueue_row (ex_job ''c'') (db_now (s_db ex_sys))))) \<and>
    Reconcile mem_client no_faults (easy_queue 1) ''ns'' ''c-pod'' s' ?k1 =
      Ret ((no_result, None), s', ?k1((''ns'', ''c-pod'') := None)) \<and>
    (fj_key ((ex_job ''c'')\<lparr>fj_Status := SubmitStatusSubmit\<rparr>) = (''ns'', ''c-pod'') \<longrightarrow>
       (?k1((''ns'', ''c-pod'') := None)) (''ns'', ''c-pod'') = None)"
    by (rule Reconcile_lifecycle[OF mem_crd.crd_client_axioms ex_sys_free])
       (simp_all add: mem_client_def ex_crds_def ex_queue_defs row_key_def GetJobName_def jobWrapped_defs
          submitStatus_defs)
  then show ?thesis by auto
qed

text \<open>C29: reconciling never panics and keeps the pending table well formed, whatever the queue, the client
  and the database answer; a FluxJob that is gone or already submitted leaves the queue untouched.\<close>
theorem Reconcile_safe:
  assumes "pending_wf (db_pending (s_db s))"
  shows "\<exists>r s' k'. Reconcile C f (easy_queue depth) ns n s k = Ret (r, s', k') \<and> pending_wf (db_pending (s_db s')) \<and>
    ((\<forall>spec. co_Get C ns n k = Inr spec \<longrightarrow> fj_Status spec = SubmitStatusSubmit) \<longrightarrow> s' = s)"
proof (cases "\<exists>spec. co_Get C ns n k = Inr spec \<and> fj_Status spec \<noteq> SubmitStatusSubmit")
  case True
  then obtain spec where spec: "co_Get C ns n k = Inr spec" "fj_Status spec \<noteq> SubmitStatusSubmit" by blast
  obtain e s' where sub: "submitJob f (easy_queue depth) spec s = Ret ((no_result, e), s')"
    by (cases rule: submitJob_cases[where f = f and spec = spec and s = s and depth = depth]) auto
  from submitJob_keeps_wf[OF assms sub] sub spec show ?thesis
    by (cases e) (auto simp: Reconcile_def split: prod.splits)
next
  case False
  with assms show ?thesis by (auto simp: Reconcile_def split: sum.splits prod.splits)
qed

theorem Reconcile_safe_witness:
  "\<exists>r s' k'. Reconcile mem_client no_faults (easy_queue 1) ''ns'' ''gone'' ex_sys ex_crds = Ret (r, s', k') \<and> s' = ex_sys"
proof -
  have "pending_wf (db_pending (s_db ex_sys))" by (simp add: pending_wf_def row_key_def ex_queue_defs)
  moreover have "co_Get mem_client ''ns'' ''gone'' ex_crds = Inl (NotFound ''gone'')"
    by (simp add: mem_client_def ex_crds_def)
  ultimately show ?thesis
    using Reconcile_safe[of ex_sys mem_client no_faults 1 "''ns''" "''gone''" ex_crds] by auto
qed

text \<open>The error of a failed enqueue is lost: when the FluxJob already has the error status, a further
  failed enqueue returns no error, asks for no requeue and changes neither the queue nor the cluster,
  so nothing makes the controller try again.\<close>

lemma Reconcile_gives_up:
  assumes "co_Get C ns n k = Inr spec" "fj_Status spec = SubmitStatusError"
    and "Enqueue f spec s = ((st, Some e), s)"
  shows "Reconcile C f (easy_queue depth) ns n s k = Ret ((no_result, None), s, k)"
  using assms by (simp add: Reconcile_def submitJob_def updateStatus_def)

text \<open>When a pod that carries a flux job id is deleted, one cleanup job with exactly that id is
  inserted; a pod without the label causes nothing.\<close>

lemma DeleteFunc_cleans_up:
  assumes "fits64 i" "ft_insertMany f = None"
  shows "(label_get (pod_Labels p) FluxJobIdLabel = Some (itoa i) \<longrightarrow>
      DeleteFunc f (easy_queue depth) (DeletedPod p) s = Ret (s\<lparr>s_river := s_river s @ [cleanup_job i]\<rparr>)) \<and>
    (label_get (pod_Labels p) FluxJobIdLabel = None \<longrightarrow> DeleteFunc f (easy_queue depth) (DeletedPod p) s = Ret s)"
proof -
  have "parseInt (itoa i) 64 = (i, None)"
    using assms(1) by (intro parseInt_itoa) (auto simp: fits64_def)
  with assms(2) show ?thesis by (simp add: DeleteFunc_def queue_Cleanup_easy)
qed

text \<open>A deleted pod whose label is not a number makes the controller clean up flux job 0, an id that
  may belong to another job: the parse error does not end the handler.\<close>

lemma DeleteFunc_malformed_label:
  assumes "label_get (pod_Labels p) FluxJobIdLabel = Some v" "parseInt v 64 = (i, Some ErrSyntax)"
    and "ft_insertMany f = None"
  shows "DeleteFunc f (easy_queue depth) (DeletedPod p) s = Ret (s\<lparr>s_river := s_river s @ [cleanup_job 0]\<rparr>)"
proof -
  have "i = 0" using assms(2) by (auto simp: parseInt_def Let_def split: if_splits prod.splits)
  with assms show ?thesis by (simp add: DeleteFunc_def queue_Cleanup_easy)
qed

end
