(* ===== verification/Go_Json.thy ===== *)
theory Go_Json
  imports Go_Prelude
begin

text \<open>
  \<open>encoding/json\<close> of the Go standard library, as far as the sources use it: the text that
  \<open>json.MarshalIndent\<close> writes for a value, and the syntax that \<open>json.Unmarshal\<close>
  accepts. Strings are byte sequences. A JSON value is a tree that keeps the order of members,
  repeated members, and the literal text of numbers. Reading uses fuel, and enough fuel for every
  input is proved to be twice its length; writing and reading are proved to be inverse.
\<close>

section \<open>Values\<close>

datatype json =
    JNull
  | JBool bool
  | JNum string
  | JStr string
  | JObj "(string \<times> json) list"
  | JArr "json list"

section \<open>UTF-8\<close>

definition byte :: "char \<Rightarrow> nat" where
  "byte c = of_char c"

definition in_bytes :: "nat \<Rightarrow> nat \<Rightarrow> string \<Rightarrow> bool" where
  "in_bytes lo hi s \<longleftrightarrow> s \<noteq> [] \<and> lo \<le> byte (hd s) \<and> byte (hd s) \<le> hi"

definition continues :: "string \<Rightarrow> bool" where
  "continues = in_bytes 128 191"

text \<open>The size that \<open>utf8.DecodeRune\<close> reports for a valid encoding at the head, 0 for an invalid one.\<close>

definition rune_len :: "string \<Rightarrow> nat" where
  "rune_len s =
     (if in_bytes 0 127 s then 1
      else if in_bytes 194 223 s \<and> continues (drop 1 s) then 2
      else if continues (drop 2 s) \<and>
              (in_bytes 224 224 s \<and> in_bytes 160 191 (drop 1 s) \<or>
               (in_bytes 225 236 s \<or> in_bytes 238 239 s) \<and> continues (drop 1 s) \<or>
               in_bytes 237 237 s \<and> in_bytes 128 159 (drop 1 s)) then 3
      else if continues (drop 2 s) \<and> continues (drop 3 s) \<and>
              (in_bytes 240 240 s \<and> in_bytes 144 191 (drop 1 s) \<or>
               in_bytes 241 243 s \<and> continues (drop 1 s) \<or>
               in_bytes 244 244 s \<and> in_bytes 128 143 (drop 1 s)) then 4
      else 0)"

text \<open>\<open>utf8.EncodeRune\<close>; surrogates and values out of range give the replacement character.\<close>

definition replacement :: string where
  "replacement = [CHR 0xEF, CHR 0xBF, CHR 0xBD]"

definition encode_rune :: "nat \<Rightarrow> string" where
  "encode_rune r =
     (if r < 0x80 then [char_of r]
      else if r < 0x800 then [char_of (0xC0 + r div 64), char_of (0x80 + r mod 64)]
      else if 0xD800 \<le> r \<and> r < 0xE000 \<or> 0x110000 \<le> r then replacement
      else if r < 0x10000 then
        [char_of (0xE0 + r div 4096), char_of (0x80 + r div 64 mod 64), char_of (0x80 + r mod 64)]
      else
        [char_of (0xF0 + r div 262144), char_of (0x80 + r div 4096 mod 64), char_of (0x80 + r div 64 mod 64),
         char_of (0x80 + r mod 64)])"

text \<open>\<open>utf8.ValidString\<close>; the counter says how many bytes of a rune are still to come.\<close>

fun utf8_from :: "nat \<Rightarrow> string \<Rightarrow> bool" where
  "utf8_from k [] = (k = 0)"
| "utf8_from (Suc k) (c # cs) = utf8_from k cs"
| "utf8_from 0 (c # cs) = (case rune_len (c # cs) of 0 \<Rightarrow> False | Suc n \<Rightarrow> utf8_from n cs)"

abbreviation utf8 :: "string \<Rightarrow> bool" where
  "utf8 \<equiv> utf8_from 0"

section \<open>Strings\<close>

definition hex_digit :: "nat \<Rightarrow> char" where
  "hex_digit n = (if n < 10 then char_of (n + 48) else char_of (n + 87))"

definition hex_val :: "char \<Rightarrow> nat option" where
  "hex_val c =
     (let b = byte c
      in if 48 \<le> b \<and> b \<le> 57 then Some (b - 48)
         else if 97 \<le> b \<and> b \<le> 102 then Some (b - 87)
         else if 65 \<le> b \<and> b \<le> 70 then Some (b - 55)
         else None)"

fun hex4 :: "string \<Rightarrow> nat option" where
  "hex4 (a # b # c # d # _) =
     (case (hex_val a, hex_val b, hex_val c, hex_val d) of
        (Some w, Some x, Some y, Some z) \<Rightarrow> Some (((w * 16 + x) * 16 + y) * 16 + z)
      | _ \<Rightarrow> None)"
| "hex4 _ = None"

text \<open>The characters with an escape of their own, and the character after the backslash.\<close>

definition short_escapes :: "(char \<times> char) list" where
  "short_escapes =
     [(CHR 0x22, CHR 0x22), (CHR 0x5C, CHR 0x5C), (CHR 0x08, CHR ''b''), (CHR 0x0C, CHR ''f''),
      (CHR 0x0A, CHR ''n''), (CHR 0x0D, CHR ''r''), (CHR 0x09, CHR ''t'')]"

text \<open>
  What \<open>appendString\<close> writes for one byte below 128: the characters that are unsafe in HTML
  are escaped too.
\<close>

definition escape_byte :: "char \<Rightarrow> string" where
  "escape_byte c =
     (case map_of short_escapes c of
        Some e \<Rightarrow> [CHR 0x5C, e]
      | None \<Rightarrow>
         (if byte c < 32 \<or> c = CHR ''<'' \<or> c = CHR ''>'' \<or> c = CHR ''&'' then
            [CHR 0x5C, CHR ''u'', CHR ''0'', CHR ''0'', hex_digit (byte c div 16), hex_digit (byte c mod 16)]
          else [c]))"

text \<open>The encodings of U+2028 and U+2029, which are written as escapes.\<close>

definition line_separator :: "string \<Rightarrow> bool" where
  "line_separator s \<longleftrightarrow> take 2 s = [CHR 0xE2, CHR 0x80] \<and> (in_bytes 168 169 (drop 2 s))"

fun escape_from :: "nat \<Rightarrow> bool \<Rightarrow> string \<Rightarrow> string" where
  "escape_from k sil [] = []"
| "escape_from (Suc k) sil (c # cs) = (if sil then escape_from k sil cs else c # escape_from k sil cs)"
| "escape_from 0 sil (c # cs) =
     (if byte c < 128 then escape_byte c @ escape_from 0 False cs
      else if line_separator (c # cs) then
        [CHR 0x5C, CHR ''u'', CHR ''2'', CHR ''0'', CHR ''2'', hex_digit (byte (cs ! 1) - 160)] @ escape_from 2 True cs
      else
        (case rune_len (c # cs) of
           0 \<Rightarrow> [CHR 0x5C, CHR ''u'', CHR ''f'', CHR ''f'', CHR ''f'', CHR ''d''] @ escape_from 0 False cs
         | Suc n \<Rightarrow> c # escape_from n False cs))"

definition json_string :: "string \<Rightarrow> string" where
  "json_string s = [CHR 0x22] @ escape_from 0 False s @ [CHR 0x22]"

text \<open>
  Reading a string literal after its opening quote: the content and the text after the closing quote.
  An escaped surrogate pair is one rune, any other surrogate the replacement character.
\<close>

definition simple_escape :: "char \<Rightarrow> char option" where
  "simple_escape e = (if e = CHR ''/'' then Some e else map_of (map prod.swap short_escapes) e)"

definition low_surrogate :: "string \<Rightarrow> nat option" where
  "low_surrogate s =
     (if take 2 s = [CHR 0x5C, CHR ''u''] then
        (case hex4 (drop 2 s) of Some r \<Rightarrow> (if 0xDC00 \<le> r \<and> r < 0xE000 then Some r else None) | None \<Rightarrow> None)
      else None)"

definition prepend :: "string \<Rightarrow> (string \<times> string) option \<Rightarrow> (string \<times> string) option" where
  "prepend p r = map_option (\<lambda>(t, rest). (p @ t, rest)) r"

function unquote :: "nat \<Rightarrow> string \<Rightarrow> (string \<times> string) option" where
  "unquote k [] = None"
| "unquote (Suc k) (c # cs) = prepend [c] (unquote k cs)"
| "unquote 0 (c # cs) =
     (if c = CHR 0x22 then Some ([], cs)
      else if byte c < 32 then None
      else if c \<noteq> CHR 0x5C then
        (case rune_len (c # cs) of
           0 \<Rightarrow> prepend replacement (unquote 0 cs)
         | Suc n \<Rightarrow> prepend [c] (unquote n cs))
      else if cs = [] then None
      else if hd cs \<noteq> CHR ''u'' then
        (case simple_escape (hd cs) of None \<Rightarrow> None | Some e \<Rightarrow> prepend [e] (unquote 0 (drop 1 cs)))
      else
        (case hex4 (drop 1 cs) of
           None \<Rightarrow> None
         | Some r \<Rightarrow>
            (if 0xD800 \<le> r \<and> r < 0xDC00 \<and> low_surrogate (drop 5 cs) \<noteq> None then
               prepend (encode_rune (0x10000 + (r - 0xD800) * 1024 + (the (low_surrogate (drop 5 cs)) - 0xDC00)))
                 (unquote 0 (drop 11 cs))
             else prepend (encode_rune r) (unquote 0 (drop 5 cs)))))"
  by pat_completeness auto

termination by (relation "measure (length \<circ> snd)") auto

section \<open>Numbers\<close>

definition digit :: "char \<Rightarrow> bool" where
  "digit c \<longleftrightarrow> 48 \<le> byte c \<and> byte c \<le> 57"

definition int_part :: "string \<Rightarrow> (string \<times> string) option" where
  "int_part s =
     (if s = [] \<or> \<not> digit (hd s) then None
      else if hd s = CHR ''0'' then Some (''0'', tl s)
      else Some (takeWhile digit s, dropWhile digit s))"

definition frac_part :: "string \<Rightarrow> (string \<times> string) option" where
  "frac_part s =
     (if s \<noteq> [] \<and> hd s = CHR ''.'' then
        (if takeWhile digit (tl s) = [] then None
         else Some (CHR ''.'' # takeWhile digit (tl s), dropWhile digit (tl s)))
      else Some ([], s))"

definition exp_part :: "string \<Rightarrow> (string \<times> string) option" where
  "exp_part s =
     (if s \<noteq> [] \<and> (hd s = CHR ''e'' \<or> hd s = CHR ''E'') then
        (let sign = (if tl s \<noteq> [] \<and> (hd (tl s) = CHR ''+'' \<or> hd (tl s) = CHR ''-'') then [hd (tl s)] else []);
             r = drop (length sign) (tl s)
         in if takeWhile digit r = [] then None
            else Some (hd s # sign @ takeWhile digit r, dropWhile digit r))
      else Some ([], s))"

definition number :: "string \<Rightarrow> (string \<times> string) option" where
  "number s =
     (let minus = (if s \<noteq> [] \<and> hd s = CHR ''-'' then ''-'' else [])
      in case int_part (drop (length minus) s) of
           None \<Rightarrow> None
         | Some (i, s1) \<Rightarrow>
            (case frac_part s1 of
               None \<Rightarrow> None
             | Some (f, s2) \<Rightarrow>
                (case exp_part s2 of None \<Rightarrow> None | Some (e, s3) \<Rightarrow> Some (minus @ i @ f @ e, s3))))"

section \<open>Reading\<close>

definition ws :: "char \<Rightarrow> bool" where
  "ws c \<longleftrightarrow> c = CHR '' '' \<or> byte c = 9 \<or> byte c = 10 \<or> byte c = 13"

abbreviation skip_ws :: "string \<Rightarrow> string" where
  "skip_ws \<equiv> dropWhile ws"

definition syntax_error :: go_error where
  "syntax_error = Errorf ''invalid JSON''"

text \<open>The limit on nested arrays and objects.\<close>

definition max_depth :: nat where
  "max_depth = 10000"

text \<open>
  The first argument is the fuel and \<open>None\<close> means that it ran out; the second is the number
  of levels that may still be opened.
\<close>

fun read_value :: "nat \<Rightarrow> nat \<Rightarrow> string \<Rightarrow> (json \<times> string) result option"
and read_members :: "nat \<Rightarrow> nat \<Rightarrow> string \<Rightarrow> ((string \<times> json) list \<times> string) result option"
and read_elements :: "nat \<Rightarrow> nat \<Rightarrow> string \<Rightarrow> (json list \<times> string) result option" where
  "read_value 0 d s = None"
| "read_value (Suc n) d s =
     (case skip_ws s of
        [] \<Rightarrow> Some (Inl syntax_error)
      | c # r \<Rightarrow>
         (if c = CHR ''{'' then
            (if d = 0 then Some (Inl syntax_error)
             else if take 1 (skip_ws r) = ''}'' then Some (Inr (JObj [], drop 1 (skip_ws r)))
             else map_option (map_sum id (apfst JObj)) (read_members n (d - 1) r))
          else if c = CHR ''['' then
            (if d = 0 then Some (Inl syntax_error)
             else if take 1 (skip_ws r) = '']'' then Some (Inr (JArr [], drop 1 (skip_ws r)))
             else map_option (map_sum id (apfst JArr)) (read_elements n (d - 1) r))
          else if c = CHR 0x22 then
            (case unquote 0 r of
               None \<Rightarrow> Some (Inl syntax_error)
             | Some (t, r) \<Rightarrow> Some (Inr (JStr t, r)))
          else if take 4 (c # r) = ''true'' then Some (Inr (JBool True, drop 3 r))
          else if take 5 (c # r) = ''false'' then Some (Inr (JBool False, drop 4 r))
          else if take 4 (c # r) = ''null'' then Some (Inr (JNull, drop 3 r))
          else
            (case number (c # r) of
               None \<Rightarrow> Some (Inl syntax_error)
             | Some (t, r) \<Rightarrow> Some (Inr (JNum t, r)))))"
| "read_members 0 d s = None"
| "read_members (Suc n) d s =
     (case skip_ws s of
        [] \<Rightarrow> Some (Inl syntax_error)
      | c # r \<Rightarrow>
         (if c \<noteq> CHR 0x22 then Some (Inl syntax_error)
          else
            (case unquote 0 r of
               None \<Rightarrow> Some (Inl syntax_error)
             | Some (k, r) \<Rightarrow>
                (if take 1 (skip_ws r) \<noteq> '':'' then Some (Inl syntax_error)
                 else
                   (case read_value n d (drop 1 (skip_ws r)) of
                      None \<Rightarrow> None
                    | Some (Inl e) \<Rightarrow> Some (Inl e)
                    | Some (Inr (v, r)) \<Rightarrow>
                       (if take 1 (skip_ws r) = '','' then
                          map_option (map_sum id (apfst ((#) (k, v)))) (read_members n d (drop 1 (skip_ws r)))
                        else if take 1 (skip_ws r) = ''}'' then Some (Inr ([(k, v)], drop 1 (skip_ws r)))
                        else Some (Inl syntax_error)))))))"
| "read_elements 0 d s = None"
| "read_elements (Suc n) d s =
     (case read_value n d s of
        None \<Rightarrow> None
      | Some (Inl e) \<Rightarrow> Some (Inl e)
      | Some (Inr (v, r)) \<Rightarrow>
         (if take 1 (skip_ws r) = '','' then
            map_option (map_sum id (apfst ((#) v))) (read_elements n d (drop 1 (skip_ws r)))
          else if take 1 (skip_ws r) = '']'' then Some (Inr ([v], drop 1 (skip_ws r)))
          else Some (Inl syntax_error)))"

text \<open>The syntax check of \<open>json.Unmarshal\<close>: one value and nothing but white space after it.\<close>

definition json_read :: "string \<Rightarrow> json result" where
  "json_read s =
     (case read_value (2 * length s + 1) max_depth s of
        None \<Rightarrow> Inl syntax_error
      | Some (Inl e) \<Rightarrow> Inl e
      | Some (Inr (v, r)) \<Rightarrow> (if skip_ws r = [] then Inr v else Inl syntax_error))"

section \<open>Writing\<close>

definition newline :: "string \<Rightarrow> nat \<Rightarrow> string" where
  "newline indent d = CHR 0x0A # concat (replicate d indent)"

text \<open>\<open>json.MarshalIndent\<close> with an empty prefix, at depth \<open>d\<close>.\<close>

fun write_indent :: "string \<Rightarrow> nat \<Rightarrow> json \<Rightarrow> string" where
  "write_indent indent d JNull = ''null''"
| "write_indent indent d (JBool b) = (if b then ''true'' else ''false'')"
| "write_indent indent d (JNum t) = t"
| "write_indent indent d (JStr s) = json_string s"
| "write_indent indent d (JObj kvs) =
     (if kvs = [] then ''{}''
      else ''{'' @ join (map (\<lambda>(k, v). newline indent (Suc d) @ json_string k @ '': '' @ write_indent indent (Suc d) v) kvs) '',''
           @ newline indent d @ ''}'')"
| "write_indent indent d (JArr vs) =
     (if vs = [] then ''[]''
      else ''['' @ join (map (\<lambda>v. newline indent (Suc d) @ write_indent indent (Suc d) v) vs) '',''
           @ newline indent d @ '']'')"

section \<open>Reading shortens the input\<close>

lemma skip_ws_length: "length (skip_ws s) \<le> length s"
  by (rule length_dropWhile_le)

lemma prepend_Some: "prepend p r = Some (t, rest) \<longleftrightarrow> (\<exists>u. r = Some (u, rest) \<and> t = p @ u)"
  by (auto simp: prepend_def)

lemma unquote_length: "unquote k s = Some (t, r) \<Longrightarrow> length r < length s"
proof (induction k s arbitrary: t rule: unquote.induct)
  case (2 k c cs)
  then show ?case by (fastforce simp: prepend_Some)
next
  case (3 c cs)
  have drop: "length r < length (drop m cs) \<Longrightarrow> length r < length (c # cs)" for m by simp
  from 3 show ?case
    by (fastforce simp: prepend_Some split: if_splits nat.splits option.splits dest: drop)
qed simp

lemma int_part_length: "int_part s = Some (t, r) \<Longrightarrow> length r < length s"
  by (cases s) (auto simp: int_part_def le_imp_less_Suc length_dropWhile_le split: if_splits)

lemma frac_part_length: "frac_part s = Some (t, r) \<Longrightarrow> length r \<le> length s"
  by (cases s) (auto simp: frac_part_def le_SucI length_dropWhile_le split: if_splits)

lemma exp_part_length: "exp_part s = Some (t, r) \<Longrightarrow> length r \<le> length s"
  using length_dropWhile_le[of digit] le_trans[OF length_dropWhile_le[of digit]]
  by (cases s) (fastforce simp: exp_part_def Let_def split: if_splits)+

lemma number_length: "number s = Some (t, r) \<Longrightarrow> length r < length s"
  by (auto simp: number_def Let_def split: option.splits prod.splits if_splits
      dest!: int_part_length frac_part_length exp_part_length)

lemma skip_ws_Cons: "skip_ws s = c # r \<Longrightarrow> length r < length s"
  using skip_ws_length[of s] by simp

lemma next_char: "take 1 (skip_ws r) = [c] \<Longrightarrow> length (drop 1 (skip_ws r)) < length r"
  using skip_ws_length[of r] by (cases "skip_ws r") auto

lemma take_nonempty: "take n s = t \<Longrightarrow> t \<noteq> [] \<Longrightarrow> s \<noteq> []"
  by auto

lemma mapped_Some:
  "map_option (map_sum id (apfst f)) x = Some (Inr (y, r)) \<longleftrightarrow> (\<exists>z. x = Some (Inr (z, r)) \<and> y = f z)"
  by (cases x rule: option.exhaust[case_names None Some]) (auto simp: map_sum_def apfst_def map_prod_def split: sum.splits)

text \<open>Each function of the reader, given what the others do with one unit of fuel less.\<close>

lemma value_length:
  assumes members: "\<And>d s kvs r. read_members n d s = Some (Inr (kvs, r)) \<Longrightarrow> length r < length s"
    and elements: "\<And>d s vs r. read_elements n d s = Some (Inr (vs, r)) \<Longrightarrow> length r < length s"
    and read: "read_value (Suc n) d s = Some (Inr (v, r))"
  shows "length r < length s"
proof (cases "skip_ws s")
  case Nil
  with read show ?thesis by simp
next
  case (Cons c t)
  have close: "length (drop 1 (skip_ws t)) \<le> length t" using skip_ws_length[of t] by simp
  from read Cons have "length r \<le> length t"
    by (auto simp del: map_option_eq_Some simp: mapped_Some split: if_splits option.splits prod.splits
        dest!: members elements unquote_length number_length intro: close[simplified])
  with skip_ws_Cons[OF Cons] show ?thesis by simp
qed

text \<open>What a successful reading of members or elements consists of.\<close>

lemma read_members_Some:
  assumes "read_members (Suc n) d s = Some (Inr (kvs, r))"
  obtains c t k t1 v t2 where "skip_ws s = c # t" "unquote 0 t = Some (k, t1)" "take 1 (skip_ws t1) = '':''"
    "read_value n d (drop 1 (skip_ws t1)) = Some (Inr (v, t2))"
    "(\<exists>kvs'. take 1 (skip_ws t2) = '','' \<and> read_members n d (drop 1 (skip_ws t2)) = Some (Inr (kvs', r))) \<or>
       take 1 (skip_ws t2) = ''}'' \<and> r = drop 1 (skip_ws t2)"
  using assms
  by (auto simp del: map_option_eq_Some simp: mapped_Some split: list.splits if_splits option.splits sum.splits prod.splits)

lemma read_elements_Some:
  assumes "read_elements (Suc n) d s = Some (Inr (vs, r))"
  obtains v t where "read_value n d s = Some (Inr (v, t))"
    "(\<exists>vs'. take 1 (skip_ws t) = '','' \<and> read_elements n d (drop 1 (skip_ws t)) = Some (Inr (vs', r))) \<or>
       take 1 (skip_ws t) = '']'' \<and> r = drop 1 (skip_ws t)"
  using assms by (auto simp del: map_option_eq_Some simp: mapped_Some split: if_splits option.splits sum.splits prod.splits)

lemma members_length:
  assumes "\<And>d s v r. read_value n d s = Some (Inr (v, r)) \<Longrightarrow> length r < length s"
    and "\<And>d s kvs r. read_members n d s = Some (Inr (kvs, r)) \<Longrightarrow> length r < length s"
    and "read_members (Suc n) d s = Some (Inr (kvs, r))"
  shows "length r < length s"
proof -
  from assms(3) obtain c t k t1 v t2 where st: "skip_ws s = c # t" "unquote 0 t = Some (k, t1)" "take 1 (skip_ws t1) = '':''"
    "read_value n d (drop 1 (skip_ws t1)) = Some (Inr (v, t2))"
    and rest: "(\<exists>kvs'. take 1 (skip_ws t2) = '','' \<and> read_members n d (drop 1 (skip_ws t2)) = Some (Inr (kvs', r))) \<or>
       take 1 (skip_ws t2) = ''}'' \<and> r = drop 1 (skip_ws t2)" by (rule read_members_Some)
  have "length t2 < length s"
    using assms(1)[OF st(4)] skip_ws_Cons[OF st(1)] unquote_length[OF st(2)] next_char[OF st(3)] by simp
  moreover have "length r \<le> length t2" using rest assms(2) next_char[of t2] by fastforce
  ultimately show ?thesis by simp
qed

lemma elements_length:
  assumes "\<And>d s v r. read_value n d s = Some (Inr (v, r)) \<Longrightarrow> length r < length s"
    and "\<And>d s vs r. read_elements n d s = Some (Inr (vs, r)) \<Longrightarrow> length r < length s"
    and "read_elements (Suc n) d s = Some (Inr (vs, r))"
  shows "length r < length s"
proof -
  from assms(3) obtain v t where v: "read_value n d s = Some (Inr (v, t))"
    and rest: "(\<exists>vs'. take 1 (skip_ws t) = '','' \<and> read_elements n d (drop 1 (skip_ws t)) = Some (Inr (vs', r))) \<or>
       take 1 (skip_ws t) = '']'' \<and> r = drop 1 (skip_ws t)" by (rule read_elements_Some)
  have "length r \<le> length t" using rest assms(2) next_char[of t] by fastforce
  with assms(1)[OF v] show ?thesis by simp
qed

lemma read_length:
  "read_value n d s = Some (Inr (v, r)) \<Longrightarrow> length r < length s"
  "read_members n d s = Some (Inr (kvs, r)) \<Longrightarrow> length r < length s"
  "read_elements n d s = Some (Inr (vs, r)) \<Longrightarrow> length r < length s"
proof (induction n arbitrary: d s v r kvs vs)
  case (Suc n)
  { case 1
    show ?case by (rule value_length[OF Suc.IH(2,3) 1]) }
  { case 2
    show ?case by (rule members_length[OF Suc.IH(1,2) 2]) }
  { case 3
    show ?case by (rule elements_length[OF Suc.IH(1,3) 3]) }
qed simp_all

section \<open>Fuel\<close>

text \<open>Fuel of twice the length of the input is enough, and more fuel does not change the outcome.\<close>

lemma value_fuel:
  assumes "\<And>d s. 2 * length s + 1 < n \<Longrightarrow> read_members n d s \<noteq> None"
    and "\<And>d s. 2 * length s + 1 < n \<Longrightarrow> read_elements n d s \<noteq> None" and "2 * length s < Suc n"
  shows "read_value (Suc n) d s \<noteq> None"
proof (cases "skip_ws s")
  case (Cons c t)
  then have "2 * length t + 1 < n" using skip_ws_Cons[OF Cons] assms(3) by simp
  with assms(1,2) have "read_members n (d - 1) t \<noteq> None" "read_elements n (d - 1) t \<noteq> None" by blast+
  with Cons show ?thesis by (simp split: option.splits prod.splits)
qed (simp del: dropWhile_eq_Nil_conv)

lemma members_fuel:
  assumes "\<And>d s. 2 * length s < n \<Longrightarrow> read_value n d s \<noteq> None"
    and "\<And>d s. 2 * length s + 1 < n \<Longrightarrow> read_members n d s \<noteq> None" and "2 * length s + 1 < Suc n"
  shows "read_members (Suc n) d s \<noteq> None"
proof (cases "\<exists>t k t1. skip_ws s = CHR 0x22 # t \<and> unquote 0 t = Some (k, t1) \<and> take 1 (skip_ws t1) = '':''")
  case True
  then obtain t k t1 where k: "skip_ws s = CHR 0x22 # t" "unquote 0 t = Some (k, t1)" "take 1 (skip_ws t1) = '':''" by blast
  have len: "2 * length (drop 1 (skip_ws t1)) < n"
    using assms(3) skip_ws_Cons[OF k(1)] unquote_length[OF k(2)] next_char[OF k(3)] by simp
  obtain x where x: "read_value n d (drop 1 (skip_ws t1)) = Some x" using assms(1)[OF len] by blast
  have "read_members n d (drop 1 (skip_ws t2)) \<noteq> None" if "x = Inr (v, t2)" "take 1 (skip_ws t2) = '',''" for v t2
    using assms(2)[of "drop 1 (skip_ws t2)" d] next_char[OF that(2)] read_length(1)[OF x[unfolded that(1)]] len by linarith
  with k x show ?thesis by (auto split: sum.splits prod.splits)
qed (auto simp del: dropWhile_eq_Nil_conv split: list.splits option.splits prod.splits)

lemma elements_fuel:
  assumes "\<And>d s. 2 * length s < n \<Longrightarrow> read_value n d s \<noteq> None"
    and "\<And>d s. 2 * length s + 1 < n \<Longrightarrow> read_elements n d s \<noteq> None" and "2 * length s + 1 < Suc n"
  shows "read_elements (Suc n) d s \<noteq> None"
proof -
  obtain x where x: "read_value n d s = Some x" using assms(1)[of s d] assms(3) by auto
  have "read_elements n d (drop 1 (skip_ws t)) \<noteq> None" if "x = Inr (v, t)" "take 1 (skip_ws t) = '',''" for v t
    using assms(2)[of "drop 1 (skip_ws t)" d] next_char[OF that(2)] read_length(1)[OF x[unfolded that(1)]] assms(3) by linarith
  with x show ?thesis by (auto split: sum.splits prod.splits)
qed

lemma read_fuel:
  "2 * length s < n \<Longrightarrow> read_value n d s \<noteq> None"
  "2 * length s + 1 < n \<Longrightarrow> read_members n d s \<noteq> None"
  "2 * length s + 1 < n \<Longrightarrow> read_elements n d s \<noteq> None"
proof (induction n arbitrary: d s)
  case (Suc n)
  { case 1
    show ?case by (rule value_fuel[OF Suc.IH(2,3) 1]) }
  { case 2
    show ?case by (rule members_fuel[OF Suc.IH(1,2) 2]) }
  { case 3
    show ?case by (rule elements_fuel[OF Suc.IH(1,3) 3]) }
qed simp_all

lemma value_mono:
  assumes "\<And>d s y. read_members n d s = Some y \<Longrightarrow> read_members m d s = Some y"
    and "\<And>d s z. read_elements n d s = Some z \<Longrightarrow> read_elements m d s = Some z" and "read_value (Suc n) d s = Some x"
  shows "read_value (Suc m) d s = Some x"
proof (cases "skip_ws s")
  case Nil
  with assms(3) show ?thesis by (simp del: dropWhile_eq_Nil_conv)
next
  case (Cons c t)
  have "map_option f (read_members n (d - 1) t) = Some x \<Longrightarrow> map_option f (read_members m (d - 1) t) = Some x"
    "map_option g (read_elements n (d - 1) t) = Some x \<Longrightarrow> map_option g (read_elements m (d - 1) t) = Some x" for f g
    using assms(1,2) by auto
  with assms(3) Cons show ?thesis by (simp del: map_option_eq_Some split: if_splits) blast
qed

lemma members_mono:
  assumes "\<And>d s x. read_value n d s = Some x \<Longrightarrow> read_value m d s = Some x"
    and "\<And>d s y. read_members n d s = Some y \<Longrightarrow> read_members m d s = Some y" and "read_members (Suc n) d s = Some y"
  shows "read_members (Suc m) d s = Some y"
  using assms(3)
  by (auto simp del: dropWhile_eq_Nil_conv split: list.splits if_splits option.splits sum.splits prod.splits dest!: assms(1,2))

lemma elements_mono:
  assumes "\<And>d s x. read_value n d s = Some x \<Longrightarrow> read_value m d s = Some x"
    and "\<And>d s z. read_elements n d s = Some z \<Longrightarrow> read_elements m d s = Some z" and "read_elements (Suc n) d s = Some z"
  shows "read_elements (Suc m) d s = Some z"
  using assms(3) by (auto split: if_splits option.splits sum.splits prod.splits dest!: assms(1,2))

lemma read_fuel_mono:
  "read_value n d s = Some x \<Longrightarrow> n \<le> m \<Longrightarrow> read_value m d s = Some x"
  "read_members n d s = Some y \<Longrightarrow> n \<le> m \<Longrightarrow> read_members m d s = Some y"
  "read_elements n d s = Some z \<Longrightarrow> n \<le> m \<Longrightarrow> read_elements m d s = Some z"
proof (induction n arbitrary: m d s x y z)
  case (Suc n)
  { case 1
    then obtain k where k: "m = Suc k" "n \<le> k" by (cases m) auto
    show ?case unfolding k(1) by (rule value_mono[OF Suc.IH(2)[OF _ k(2)] Suc.IH(3)[OF _ k(2)] 1(1)]) }
  { case 2
    then obtain k where k: "m = Suc k" "n \<le> k" by (cases m) auto
    show ?case unfolding k(1) by (rule members_mono[OF Suc.IH(1)[OF _ k(2)] Suc.IH(2)[OF _ k(2)] 2(1)]) }
  { case 3
    then obtain k where k: "m = Suc k" "n \<le> k" by (cases m) auto
    show ?case unfolding k(1) by (rule elements_mono[OF Suc.IH(1)[OF _ k(2)] Suc.IH(3)[OF _ k(2)] 3(1)]) }
qed simp_all

lemma read_value_enough:
  assumes "read_value n d s = Some x"
  shows "read_value (2 * length s + 1) d s = Some x"
proof -
  obtain y where "read_value (2 * length s + 1) d s = Some y" using read_fuel(1)[of s "2 * length s + 1" d] by auto
  with assms read_fuel_mono(1)[of _ d s _ "max n (2 * length s + 1)"] show ?thesis
    by (metis max.cobounded1 max.cobounded2)
qed

section \<open>Strings are read back\<close>

lemma byte_less [simp]: "byte c < 256"
  by (simp add: byte_def)

lemma char_of_byte [simp]: "char_of (byte c) = c"
  by (simp add: byte_def)

lemma byte_eq_iff: "byte c = byte d \<longleftrightarrow> c = d"
  by (simp add: byte_def)

lemma utf8_from_length: "utf8_from k s \<Longrightarrow> k \<le> length s"
  by (induction k s rule: utf8_from.induct) auto

lemma escape_from_silent: "escape_from 0 sil s = escape_from 0 False s"
  by (cases s) simp_all

lemma escape_from_copies: "n \<le> length s \<Longrightarrow> take n (escape_from n False s) = take n s \<and> n \<le> length (escape_from n False s)"
  by (induction n arbitrary: s) (auto simp: Suc_le_length_iff)

text \<open>The size of a rune depends on its own bytes only.\<close>

lemma in_bytes_take: "i < n \<Longrightarrow> take n s = take n s' \<Longrightarrow> in_bytes lo hi (drop i s) = in_bytes lo hi (drop i s')"
proof -
  assume i: "i < n" and eq: "take n s = take n s'"
  have "take 1 (drop i s) = take 1 (drop i (take n s))" using i by (simp add: drop_take)
  also have "\<dots> = take 1 (drop i s')" using i eq by (simp add: drop_take)
  finally have "take 1 (drop i s) = take 1 (drop i s')" .
  then show ?thesis by (cases "drop i s"; cases "drop i s'") (auto simp: in_bytes_def)
qed

lemma rune_len_take:
  assumes "rune_len s = n" "0 < n" "take n s = take n s'"
  shows "rune_len s' = n"
proof -
  have *: "i < n \<Longrightarrow> in_bytes lo hi (drop i s') = in_bytes lo hi (drop i s)" for i lo hi
    using in_bytes_take[OF _ assms(3)] by simp
  have head: "in_bytes lo hi s' = in_bytes lo hi s" for lo hi using *[of 0] assms(2) by simp
  have split: "in_bytes a b t \<Longrightarrow> in_bytes c d t \<Longrightarrow> c \<le> b \<and> a \<le> d" for a b c d t by (auto simp: in_bytes_def)
  from assms(1) consider "n = 1" "in_bytes 0 127 s"
    | "n = 2" "in_bytes 194 223 s" "continues (drop 1 s)"
    | "n = 3" "\<not> in_bytes 0 127 s" "\<not> in_bytes 194 223 s"
    | "n = 4"
    | "n = 0"
    by (auto simp: rune_len_def in_bytes_def split: if_splits)
  then show ?thesis
  proof cases
    case 1
    then show ?thesis by (simp add: rune_len_def head)
  next
    case 2
    then show ?thesis using *[of 1] split[of 194 223 s 0 127] by (auto simp: rune_len_def head continues_def)
  next
    case 3
    then show ?thesis using assms(1) *[of 1] *[of 2]
      by (simp add: rune_len_def head continues_def split: if_splits)
  next
    case 4
    then have "in_bytes lo hi (drop 1 s') = in_bytes lo hi (drop 1 s)"
      "in_bytes lo hi (drop 2 s') = in_bytes lo hi (drop 2 s)" "in_bytes lo hi (drop 3 s') = in_bytes lo hi (drop 3 s)" for lo hi
      using * by simp_all
    then have "rune_len s' = rune_len s" unfolding rune_len_def continues_def head by (simp only:)
    with assms(1) show ?thesis by simp
  qed (use assms(2) in simp)
qed

lemma hex_val_digit [simp]: "n < 16 \<Longrightarrow> hex_val (hex_digit n) = Some n"
  by (auto simp: hex_val_def hex_digit_def byte_def Let_def)

lemma rune_len_ascii [simp]: "byte c < 128 \<Longrightarrow> rune_len (c # cs) = 1"
  by (simp add: rune_len_def in_bytes_def)

lemma short_escapes_inverse: "map_of short_escapes c = Some e \<Longrightarrow> simple_escape e = Some c \<and> e \<noteq> CHR ''u''"
  by (auto simp: short_escapes_def simple_escape_def split: if_splits)

lemma unquote_escape_byte:
  assumes "byte c < 128"
  shows "unquote 0 (escape_byte c @ s) = prepend [c] (unquote 0 s)"
proof -
  have simple: "unquote 0 (CHR 0x5C # e # s) = prepend [x] (unquote 0 s)" if "simple_escape e = Some x" "e \<noteq> CHR ''u''" for e x
    using that by (simp add: byte_def)
  have hex: "unquote 0 (CHR 0x5C # CHR ''u'' # CHR ''0'' # CHR ''0'' # hex_digit (byte c div 16) # hex_digit (byte c mod 16) # s) =
      prepend [c] (unquote 0 s)"
  proof -
    have "byte c div 16 < 16" "byte c mod 16 < 16" using assms by auto
    then have "hex4 (CHR ''0'' # CHR ''0'' # hex_digit (byte c div 16) # hex_digit (byte c mod 16) # s) = Some (byte c)"
      by (simp add: hex_val_def[of "CHR ''0''"] byte_def[of "CHR ''0''"])
    with assms show ?thesis by (simp add: byte_def[of "CHR 0x5C"] encode_rune_def)
  qed
  show ?thesis
  proof (cases "map_of short_escapes c")
    case None
    then have "c \<noteq> CHR 0x22" "c \<noteq> CHR 0x5C" by (auto simp: short_escapes_def)
    with None hex assms show ?thesis by (auto simp: escape_byte_def simp del: hex4.simps)
  next
    case (Some e)
    with simple[of e c] short_escapes_inverse[of c e] show ?thesis by (simp add: escape_byte_def del: unquote.simps)
  qed
qed


lemma prepend_Some_eq [simp]: "prepend p (Some (t, r)) = Some (p @ t, r)"
  by (simp add: prepend_def)

lemma line_separator_bytes:
  "line_separator (c # cs) \<Longrightarrow> \<exists>x t. c = CHR 0xE2 \<and> cs = CHR 0x80 # x # t \<and> (x = CHR 0xA8 \<or> x = CHR 0xA9)"
proof -
  assume sep: "line_separator (c # cs)"
  then obtain x t where cs: "c = CHR 0xE2" "cs = CHR 0x80 # x # t" "168 \<le> byte x" "byte x \<le> 169"
    by (cases cs; cases "tl cs") (auto simp: line_separator_def in_bytes_def)
  then have "byte x = byte (CHR 0xA8) \<or> byte x = byte (CHR 0xA9)" by (auto simp: byte_def)
  with cs show ?thesis by (auto simp: byte_eq_iff)
qed

lemma unquote_line_separator:
  assumes "x = CHR 0xA8 \<or> x = CHR 0xA9"
  shows "unquote 0 (CHR 0x5C # CHR ''u'' # CHR ''2'' # CHR ''0'' # CHR ''2'' # hex_digit (byte x - 160) # s) =
    prepend [CHR 0xE2, CHR 0x80, x] (unquote 0 s)"
proof -
  have "char_of (226 :: nat) = CHR 0xE2" "char_of (128 :: nat) = CHR 0x80" "char_of (168 :: nat) = CHR 0xA8"
    "char_of (169 :: nat) = CHR 0xA9"
    by (simp_all add: char_of_def bit_0)
  with assms show ?thesis by (auto simp: byte_def hex_digit_def hex_val_def encode_rune_def)
qed

lemma unquote_escape:
  "utf8_from k s \<Longrightarrow> unquote k (escape_from k False s @ CHR 0x22 # r) = Some (s, r)"
proof (induction k s rule: utf8_from.induct)
  case (3 c cs)
  show ?case
  proof (cases "byte c < 128")
    case True
    with 3 show ?thesis by (simp add: unquote_escape_byte del: unquote.simps)
  next
    case big: False
    show ?thesis
    proof (cases "line_separator (c # cs)")
      case True
      then obtain x t where cs: "c = CHR 0xE2" "cs = CHR 0x80 # x # t" "x = CHR 0xA8 \<or> x = CHR 0xA9"
        using line_separator_bytes by blast
      have len: "rune_len (c # cs) = Suc 2"
        using cs by (auto simp: rune_len_def continues_def in_bytes_def byte_def numeral_2_eq_2)
      then have "utf8_from 2 cs" using "3.prems" by simp
      then have "utf8_from 0 t" by (simp add: cs numeral_2_eq_2)
      from "3.IH"[OF len \<open>utf8_from 2 cs\<close>]
      have "unquote 0 (escape_from 0 False t @ CHR 0x22 # r) = Some (t, r)"
        by (simp add: cs numeral_2_eq_2 prepend_Some prepend_def del: unquote.simps(3))
      then show ?thesis
        using True big cs unquote_line_separator[OF cs(3)]
        by (simp add: numeral_2_eq_2 escape_from_silent[of True] del: unquote.simps(3))
    next
      case False
      from "3.prems" obtain n where n: "rune_len (c # cs) = Suc n" "utf8_from n cs"
        by (auto split: nat.splits)
      have "take (Suc n) (c # escape_from n False cs @ CHR 0x22 # r) = take (Suc n) (c # cs)"
        using escape_from_copies[OF utf8_from_length[OF n(2)]] by simp
      then have "rune_len (c # escape_from n False cs @ CHR 0x22 # r) = Suc n"
        using rune_len_take[OF n(1)] by simp
      moreover have "c \<noteq> CHR 0x22" "c \<noteq> CHR 0x5C" using big by (auto simp: byte_def)
      ultimately show ?thesis using big False n "3.IH"[OF n] by simp
    qed
  qed
qed simp_all

lemma unquote_json_string: "utf8 s \<Longrightarrow> unquote 0 (drop 1 (json_string s) @ r) = Some (s, r)"
  by (simp add: json_string_def unquote_escape del: unquote.simps)

section \<open>Values are read back\<close>

text \<open>What may follow a value in the text of another one.\<close>

definition follows :: "string \<Rightarrow> bool" where
  "follows r \<longleftrightarrow> r = [] \<or> hd r \<in> {CHR '','', CHR 0x0A, CHR ''}'', CHR '']''}"

lemma takeWhile_stop: "r = [] \<or> \<not> P (hd r) \<Longrightarrow> takeWhile P (s @ r) = takeWhile P s \<and> dropWhile P (s @ r) = dropWhile P s @ r"
proof (induction s)
  case Nil
  then show ?case by (cases r) auto
qed auto

lemma follows_stops: "follows r \<Longrightarrow> r = [] \<or> \<not> digit (hd r)"
  by (auto simp: follows_def digit_def byte_def)

lemma digits_stop: "follows r \<Longrightarrow> takeWhile digit (s @ r) = takeWhile digit s \<and> dropWhile digit (s @ r) = dropWhile digit s @ r"
  by (rule takeWhile_stop) (rule follows_stops)

lemma int_part_append: "int_part s = Some (t, u) \<Longrightarrow> follows r \<Longrightarrow> int_part (s @ r) = Some (t, u @ r)"
  using digits_stop[of r s] by (cases s) (auto simp: int_part_def split: if_splits)

lemma frac_part_append: "frac_part s = Some (t, u) \<Longrightarrow> follows r \<Longrightarrow> frac_part (s @ r) = Some (t, u @ r)"
  using digits_stop[of r "tl s"]
  by (cases s) (auto simp: frac_part_def follows_def split: if_splits)

lemma exp_part_append: "exp_part s = Some (t, u) \<Longrightarrow> follows r \<Longrightarrow> exp_part (s @ r) = Some (t, u @ r)"
  using digits_stop[of r "tl s"] digits_stop[of r "tl (tl s)"]
  by (cases s; cases "tl s") (auto simp: exp_part_def follows_def Let_def split: if_splits)

lemma number_Some:
  "number s = Some (t, u) \<longleftrightarrow>
     (\<exists>m i s1 f s2 e. m = (if s \<noteq> [] \<and> hd s = CHR ''-'' then ''-'' else []) \<and>
        int_part (drop (length m) s) = Some (i, s1) \<and> frac_part s1 = Some (f, s2) \<and> exp_part s2 = Some (e, u) \<and>
        t = m @ i @ f @ e)"
  by (auto simp: number_def Let_def split: option.splits)

lemma number_append:
  assumes "number s = Some (t, u)" "follows r"
  shows "number (s @ r) = Some (t, u @ r)"
proof -
  from assms(1) obtain i s1 f s2 e where m: "int_part (drop (length (if s \<noteq> [] \<and> hd s = CHR ''-'' then ''-'' else [])) s) = Some (i, s1)"
    "frac_part s1 = Some (f, s2)" "exp_part s2 = Some (e, u)" "t = (if s \<noteq> [] \<and> hd s = CHR ''-'' then ''-'' else []) @ i @ f @ e"
    unfolding number_Some by blast
  have s: "s \<noteq> []" using m(1) by (auto simp: int_part_def)
  from int_part_append[OF m(1) assms(2)] frac_part_append[OF m(2) assms(2)] exp_part_append[OF m(3) assms(2)] m(4) s
  show ?thesis unfolding number_Some by (cases s) auto
qed

definition number_ok :: "string \<Rightarrow> bool" where
  "number_ok t \<longleftrightarrow> number t = Some (t, [])"

lemma number_start: "number (c # r) = Some x \<Longrightarrow> c = CHR ''-'' \<or> digit c"
  by (auto simp: number_def int_part_def Let_def split: option.splits prod.splits if_splits)

lemma byte_digit_char: "d < 10 \<Longrightarrow> byte (digit_char d) = d + 48"
  by (simp add: byte_def digit_char_def)

lemma digits_nat_dec: "takeWhile digit (nat_dec n) = nat_dec n" "dropWhile digit (nat_dec n) = []"
proof -
  have "digit c" if "c \<in> set (nat_dec n)" for c
    using nat_dec_digits[OF that] by (auto simp: digit_def byte_digit_char)
  then show "takeWhile digit (nat_dec n) = nat_dec n" "dropWhile digit (nat_dec n) = []"
    by (simp_all add: takeWhile_eq_all_conv)
qed

lemma nat_dec_head: "0 < n \<Longrightarrow> hd (nat_dec n) \<noteq> CHR ''0'' \<and> digit (hd (nat_dec n))"
proof (induction n rule: nat_dec.induct)
  case (1 n)
  show ?case
  proof (cases "n < 10")
    case True
    with 1 have "byte (digit_char n) \<noteq> byte (CHR ''0'')" by (simp add: byte_digit_char) (simp add: byte_def)
    then have "digit_char n \<noteq> CHR ''0''" by metis
    with True show ?thesis by (subst (1 2) nat_dec.simps) (auto simp: digit_def byte_digit_char)
  next
    case False
    with 1 show ?thesis by (subst (1 2) nat_dec.simps) simp
  qed
qed

lemma number_ok_itoa: "number_ok (itoa i)"
proof -
  have part: "int_part (nat_dec n) = Some (nat_dec n, [])" for n
  proof (cases "n = 0")
    case True
    have "digit_char 0 = CHR ''0''" using byte_digit_char[of 0] by (simp add: byte_eq_iff[symmetric]) (simp add: byte_def)
    with True show ?thesis by (simp add: int_part_def nat_dec.simps[of 0]) (simp add: digit_def byte_def)
  next
    case False
    with nat_dec_head[of n] digits_nat_dec[of n] show ?thesis by (simp add: int_part_def)
  qed
  have "hd (nat_dec n) \<noteq> CHR ''-''" for n by simp
  with part show ?thesis
    by (simp add: number_ok_def number_def itoa_def frac_part_def exp_part_def Let_def)
qed

text \<open>
  The values that are written faithfully: strings are valid UTF-8, numbers are JSON numbers, and the
  nesting is within the limit \<open>d\<close> of the reader.
\<close>

fun json_ok :: "nat \<Rightarrow> json \<Rightarrow> bool" where
  "json_ok d JNull = True"
| "json_ok d (JBool b) = True"
| "json_ok d (JNum t) = number_ok t"
| "json_ok d (JStr s) = utf8 s"
| "json_ok d (JObj kvs) = (0 < d \<and> (\<forall>(k, v) \<in> set kvs. utf8 k \<and> json_ok (d - 1) v))"
| "json_ok d (JArr vs) = (0 < d \<and> (\<forall>v \<in> set vs. json_ok (d - 1) v))"

definition blank :: "string \<Rightarrow> bool" where
  "blank w \<longleftrightarrow> (\<forall>c \<in> set w. ws c)"

lemma skip_blank [simp]: "blank w \<Longrightarrow> skip_ws (w @ s) = skip_ws s"
  by (simp add: blank_def)

lemma blank_newline [simp]: "blank indent \<Longrightarrow> blank (newline indent d)"
  by (auto simp: blank_def newline_def ws_def byte_def)

lemma read_value_blank [simp]: "blank w \<Longrightarrow> read_value n d (w @ s) = read_value n d s"
  by (cases n) simp_all

lemma follows_simps [simp]:
  "follows (CHR '','' # r)" "follows (CHR ''}'' # r)" "follows (CHR '']'' # r)" "follows (newline indent d @ r)" "follows []"
  by (simp_all add: follows_def newline_def)

lemma ws_simps [simp]:
  "\<not> ws (CHR 0x22)" "\<not> ws (CHR ''{'')" "\<not> ws (CHR ''['')" "\<not> ws (CHR '':'')" "\<not> ws (CHR '','')" "\<not> ws (CHR ''}'')" "\<not> ws (CHR '']'')"
  "\<not> ws (CHR ''t'')" "\<not> ws (CHR ''f'')" "\<not> ws (CHR ''n'')" "ws (CHR '' '')"
  by (simp_all add: ws_def byte_def)

lemma number_head: "c = CHR ''-'' \<or> digit c \<Longrightarrow>
  \<not> ws c \<and> c \<noteq> CHR '']'' \<and> c \<noteq> CHR ''{'' \<and> c \<noteq> CHR ''['' \<and> c \<noteq> CHR 0x22 \<and> c \<noteq> CHR ''t'' \<and> c \<noteq> CHR ''f'' \<and> c \<noteq> CHR ''n''"
  by (auto simp: ws_def digit_def byte_def)

lemma json_string_Cons: "json_string s = CHR 0x22 # (escape_from 0 False s @ [CHR 0x22])"
  by (simp add: json_string_def)

lemma write_head:
  assumes "json_ok d v"
  shows "write_indent indent k v \<noteq> [] \<and> \<not> ws (hd (write_indent indent k v)) \<and> hd (write_indent indent k v) \<noteq> CHR '']''"
proof (cases v)
  case (JNum u)
  with assms have u: "number u = Some (u, [])" by (simp add: number_ok_def)
  then obtain c t where ct: "u = c # t" by (cases u) (auto simp: number_def int_part_def)
  with u number_head[OF number_start[of c t]] JNum show ?thesis by auto
qed (auto simp: json_string_Cons)

lemma read_write_elements:
  assumes "blank indent" "vs \<noteq> []"
    and "\<And>v r. v \<in> set vs \<Longrightarrow> follows r \<Longrightarrow> \<exists>n. read_value n d (write_indent indent k v @ r) = Some (Inr (v, r))"
  shows "\<exists>n. read_elements n d (join (map (\<lambda>v. newline indent k @ write_indent indent k v) vs) '',''
      @ newline indent l @ CHR '']'' # r) = Some (Inr (vs, r))"
  using assms(2,3)
proof (induction vs)
  case (Cons v vs)
  show ?case
  proof (cases "vs = []")
    case True
    obtain n where "read_value n d (write_indent indent k v @ newline indent l @ CHR '']'' # r) =
        Some (Inr (v, newline indent l @ CHR '']'' # r))"
      using Cons.prems(2)[of v "newline indent l @ CHR '']'' # r"] by auto
    with True assms(1) show ?thesis by (intro exI[of _ "Suc n"]) simp
  next
    case False
    let ?rest = "join (map (\<lambda>v. newline indent k @ write_indent indent k v) vs) '','' @ newline indent l @ CHR '']'' # r"
    from False Cons obtain n where n: "read_elements n d ?rest = Some (Inr (vs, r))" by auto
    obtain m where m: "read_value m d (write_indent indent k v @ CHR '','' # ?rest) = Some (Inr (v, CHR '','' # ?rest))"
      using Cons.prems(2)[of v "CHR '','' # ?rest"] by auto
    have "read_value (max m n) d (write_indent indent k v @ CHR '','' # ?rest) = Some (Inr (v, CHR '','' # ?rest))"
      "read_elements (max m n) d ?rest = Some (Inr (vs, r))"
      using read_fuel_mono(1)[OF m] read_fuel_mono(3)[OF n] by simp_all
    with False assms(1) show ?thesis by (intro exI[of _ "Suc (max m n)"]) (simp add: join_Cons)
  qed
qed simp

text \<open>One member: its key and the colon are read, then its value.\<close>

lemma read_member:
  assumes "blank w" "utf8 key" "read_value n d t = Some (Inr (v, r))"
  shows "read_members (Suc n) d (w @ json_string key @ '': '' @ t) =
    (if take 1 (skip_ws r) = '','' then
       map_option (map_sum id (apfst ((#) (key, v)))) (read_members n d (drop 1 (skip_ws r)))
     else if take 1 (skip_ws r) = ''}'' then Some (Inr ([(key, v)], drop 1 (skip_ws r)))
     else Some (Inl syntax_error))"
proof -
  have "unquote 0 (escape_from 0 False key @ CHR 0x22 # '': '' @ t) = Some (key, '': '' @ t)"
    using unquote_escape[OF assms(2)] by simp
  moreover have "read_value n d ('' '' @ t) = read_value n d t" by (rule read_value_blank) (simp add: blank_def)
  ultimately show ?thesis using assms(1,3)
    by (subst read_members.simps) (simp add: json_string_Cons del: unquote.simps)
qed

lemma read_write_members:
  assumes "blank indent" "kvs \<noteq> []"
    and "\<And>key v r. (key, v) \<in> set kvs \<Longrightarrow> follows r \<Longrightarrow>
      utf8 key \<and> (\<exists>n. read_value n d (write_indent indent k v @ r) = Some (Inr (v, r)))"
  shows "\<exists>n. read_members n d (join (map (\<lambda>(key, v). newline indent k @ json_string key @ '': '' @ write_indent indent k v) kvs) '',''
      @ newline indent l @ CHR ''}'' # r) = Some (Inr (kvs, r))"
  using assms(2,3)
proof (induction kvs)
  case (Cons kv kvs)
  obtain key v where kv: "kv = (key, v)" by (cases kv)
  show ?case
  proof (cases "kvs = []")
    case True
    obtain n where "utf8 key" "read_value n d (write_indent indent k v @ newline indent l @ CHR ''}'' # r) =
        Some (Inr (v, newline indent l @ CHR ''}'' # r))"
      using Cons.prems(2)[of key v "newline indent l @ CHR ''}'' # r"] by (auto simp: kv)
    from read_member[OF blank_newline[OF assms(1)] this, of k] True assms(1) show ?thesis
      by (intro exI[of _ "Suc n"]) (simp add: kv)
  next
    case False
    let ?text = "\<lambda>kvs. join (map (\<lambda>(key, v). newline indent k @ json_string key @ '': '' @ write_indent indent k v) kvs) '',''
      @ newline indent l @ CHR ''}'' # r"
    have "\<exists>n. read_members n d (?text kvs) = Some (Inr (kvs, r))"
      by (rule Cons.IH[OF False]) (use Cons.prems(2) in auto)
    then obtain n where n: "read_members n d (?text kvs) = Some (Inr (kvs, r))" by blast
    obtain m where key: "utf8 key"
      and m: "read_value m d (write_indent indent k v @ CHR '','' # ?text kvs) = Some (Inr (v, CHR '','' # ?text kvs))"
      using Cons.prems(2)[of key v "CHR '','' # ?text kvs"] by (auto simp: kv)
    have "read_value (max m n) d (write_indent indent k v @ CHR '','' # ?text kvs) = Some (Inr (v, CHR '','' # ?text kvs))"
      "read_members (max m n) d (?text kvs) = Some (Inr (kvs, r))"
      using read_fuel_mono(1)[OF m] read_fuel_mono(2)[OF n] by simp_all
    with read_member[OF blank_newline[OF assms(1)] key this(1), of k] False show ?thesis
      by (intro exI[of _ "Suc (max m n)"]) (simp add: kv join_Cons)
  qed
qed simp

lemma read_write_object:
  assumes "blank indent" "json_ok d (JObj kvs)"
    and "\<And>key v r. (key, v) \<in> set kvs \<Longrightarrow> follows r \<Longrightarrow>
      utf8 key \<and> (\<exists>n. read_value n (d - 1) (write_indent indent (Suc k) v @ r) = Some (Inr (v, r)))"
  shows "\<exists>n. read_value n d (write_indent indent k (JObj kvs) @ r) = Some (Inr (JObj kvs, r))"
proof (cases kvs)
  case Nil
  with assms(2) show ?thesis by (intro exI[of _ 1]) simp
next
  case (Cons kv kvs')
  let ?t = "join (map (\<lambda>(key, v). newline indent (Suc k) @ json_string key @ '': '' @ write_indent indent (Suc k) v) kvs) '',''
    @ newline indent k @ CHR ''}'' # r"
  from Cons obtain n where "read_members n (d - 1) ?t = Some (Inr (kvs, r))"
    using read_write_members[OF assms(1), of kvs "d - 1" "Suc k" k r] assms(3) by blast
  moreover have "take 1 (skip_ws ?t) \<noteq> ''}''"
    using assms(1) by (cases kvs') (simp_all add: Cons json_string_Cons split: prod.splits)
  ultimately show ?thesis using assms(2) Cons by (intro exI[of _ "Suc n"]) simp
qed

lemma read_write_array:
  assumes "blank indent" "json_ok d (JArr vs)"
    and "\<And>v r. v \<in> set vs \<Longrightarrow> follows r \<Longrightarrow> \<exists>n. read_value n (d - 1) (write_indent indent (Suc k) v @ r) = Some (Inr (v, r))"
  shows "\<exists>n. read_value n d (write_indent indent k (JArr vs) @ r) = Some (Inr (JArr vs, r))"
proof (cases vs)
  case Nil
  with assms(2) show ?thesis by (intro exI[of _ 1]) simp
next
  case (Cons v vs')
  let ?t = "join (map (\<lambda>v. newline indent (Suc k) @ write_indent indent (Suc k) v) vs) '','' @ newline indent k @ CHR '']'' # r"
  from Cons obtain n where "read_elements n (d - 1) ?t = Some (Inr (vs, r))"
    using read_write_elements[OF assms(1), of vs "d - 1" "Suc k" k r] assms(3) by blast
  moreover have "write_indent indent (Suc k) v \<noteq> [] \<and> \<not> ws (hd (write_indent indent (Suc k) v)) \<and>
      hd (write_indent indent (Suc k) v) \<noteq> CHR '']''"
    using assms(2) by (intro write_head[of "d - 1"]) (simp add: Cons)
  then have "take 1 (skip_ws ?t) \<noteq> '']''"
    using assms(1) by (cases vs'; cases "write_indent indent (Suc k) v") (simp_all add: Cons)
  ultimately show ?thesis using assms(2) Cons by (intro exI[of _ "Suc n"]) simp
qed

lemma read_write:
  assumes "blank indent"
  shows "json_ok d v \<Longrightarrow> follows r \<Longrightarrow> \<exists>n. read_value n d (write_indent indent k v @ r) = Some (Inr (v, r))"
proof (induction v arbitrary: d k r)
  case JNull
  show ?case by (intro exI[of _ 1]) simp
next
  case (JBool b)
  show ?case by (intro exI[of _ 1]) simp
next
  case (JNum t)
  then have t: "number t = Some (t, [])" by (simp add: number_ok_def)
  then obtain c u where c: "t = c # u" by (cases t) (auto simp: number_def int_part_def)
  have "number (c # (u @ r)) = Some (t, r)" using number_append[OF t JNum(2)] c by simp
  moreover note number_head[OF number_start[OF this]]
  ultimately show ?case using c by (intro exI[of _ 1]) simp
next
  case (JStr s)
  then show ?case by (intro exI[of _ 1]) (simp add: json_string_Cons unquote_escape del: unquote.simps)
next
  case (JObj kvs)
  show ?case by (rule read_write_object[OF assms JObj(2)]) (use JObj in auto)
next
  case (JArr vs)
  show ?case by (rule read_write_array[OF assms JArr(2)]) (use JArr in auto)
qed

text \<open>Reading what was written gives the value back.\<close>

lemma json_read_write:
  assumes "json_ok max_depth v" "blank indent"
  shows "json_read (write_indent indent d v) = Inr v"
proof -
  obtain n where "read_value n max_depth (write_indent indent d v) = Some (Inr (v, []))"
    using read_write[OF assms(2,1), of "[]" d] by auto
  from read_value_enough[OF this] show ?thesis by (simp add: json_read_def)
qed

section \<open>ASCII\<close>

lemma byte_Char [simp]: "byte (Char b0 b1 b2 b3 b4 b5 b6 b7) = of_char (Char b0 b1 b2 b3 b4 b5 b6 b7)"
  by (simp add: byte_def)

lemma utf8_Cons [simp]: "byte c < 128 \<Longrightarrow> utf8 (c # cs) = utf8 cs"
  by simp

declare utf8_from.simps(3) [simp del]

lemma utf8_append: "utf8_from k s \<Longrightarrow> utf8 t \<Longrightarrow> utf8_from k (s @ t)"
proof (induction k s rule: utf8_from.induct)
  case (3 c cs)
  then obtain n where n: "rune_len (c # cs) = Suc n" "utf8_from n cs" by (auto simp: utf8_from.simps(3) split: nat.splits)
  then have "rune_len (c # cs @ t) = Suc n"
    using utf8_from_length[OF n(2)] by (intro rune_len_take[OF n(1)]) simp_all
  with n 3 show ?case by (simp add: utf8_from.simps(3))
qed simp_all

lemma utf8_ascii: "\<forall>c \<in> set s. byte c < 128 \<Longrightarrow> utf8 s"
  by (induction s) simp_all

lemma utf8_itoa [simp]: "utf8 (itoa i)"
proof (rule utf8_ascii, rule ballI)
  fix c assume "c \<in> set (itoa i)"
  then have "c = CHR ''-'' \<or> (\<exists>n. c \<in> set (nat_dec n))" by (auto simp: itoa_def split: if_splits)
  then show "byte c < 128" using nat_dec_digits byte_digit_char by fastforce
qed

end
