(* ===== verification/Kube_Api.thy ===== *)
theory Kube_Api
  imports Kube_Types Go_Json
begin

text \<open>
  The Kubernetes API server as the workers see it. The server is not under \<open>src/\<close>: its
  operations are the fields of a record that every worker definition takes as an argument, over a
  cluster state of any type \<open>'k\<close>. What the program relies on is the locale
  \<open>kube_api\<close>: a patch is applied to the addressed object only, a failed one changes
  nothing, and the two payload shapes the program sends to pods have the effect that JSON merge
  patch (RFC 7386) and JSON patch (RFC 6902) document. The in-memory server at the end shows that
  these laws can hold together.

  Payloads are JSON values with \<open>render\<close>, the text the sources build by concatenation without any
  escaping; it is shown that a JSON reader reads the value back from that text when the names in it are
  printable ASCII without quotes and backslashes, as names of Kubernetes objects are. The server takes the value.
\<close>

section \<open>Payloads\<close>

definition quote :: "string \<Rightarrow> string" where
  "quote s = [CHR 0x22] @ s @ [CHR 0x22]"

fun render :: "json \<Rightarrow> string" where
  "render JNull = ''null''"
| "render (JBool b) = (if b then ''true'' else ''false'')"
| "render (JNum t) = t"
| "render (JStr s) = quote s"
| "render (JObj kvs) = ''{'' @ join (map (\<lambda>(k, v). quote k @ '': '' @ render v) kvs) '', '' @ ''}''"
| "render (JArr vs) = ''['' @ join (map render vs) '', '' @ '']''"

datatype patchType = JSONPatchType | MergePatchType | StrategicMergePatchType

text \<open>\<open>{"metadata": {"labels": {k: v, ...}}}\<close>, sent to pods as a merge patch.\<close>

definition labelsPatch :: "(string \<times> string) list \<Rightarrow> json" where
  "labelsPatch kvs = JObj [(''metadata'', JObj [(''labels'', JObj (map (\<lambda>(k, v). (k, JStr v)) kvs))])]"

text \<open>\<open>{"spec": {"suspend": false, "template": {"metadata": {"labels": {...}}}}}\<close>, sent to jobs.\<close>

definition unsuspendPatch :: "(string \<times> string) list \<Rightarrow> json" where
  "unsuspendPatch kvs = JObj [(''spec'', JObj [(''suspend'', JBool False), (''template'', labelsPatch kvs)])]"

text \<open>\<open>{"spec": {"template": {"metadata": {"labels": {...}}}}}\<close>, sent to stateful sets.\<close>

definition templatePatch :: "(string \<times> string) list \<Rightarrow> json" where
  "templatePatch kvs = JObj [(''spec'', JObj [(''template'', labelsPatch kvs)])]"

text \<open>\<open>[{"op": "remove", "path": "/spec/schedulingGates/<i>"}]\<close>, a JSON patch on a pod.\<close>

definition removeGatePatch :: "int \<Rightarrow> json" where
  "removeGatePatch i =
     JArr [JObj [(''op'', JStr ''remove''), (''path'', JStr (''/spec/schedulingGates/'' @ itoa i))]]"

text \<open>\<open>[{"op": "replace", "path": "/spec/suspend", "value": null}]\<close>, a JSON patch on a job.\<close>

definition replaceSuspendPatch :: json where
  "replaceSuspendPatch =
     JArr [JObj [(''op'', JStr ''replace''), (''path'', JStr ''/spec/suspend''), (''value'', JNull)]]"

section \<open>Payloads are read back\<close>

text \<open>Strings that need no escaping between quotes, and values made of them.\<close>

definition plain :: "string \<Rightarrow> bool" where
  "plain s \<longleftrightarrow> (\<forall>c \<in> set s. 32 \<le> byte c \<and> byte c < 128 \<and> c \<noteq> CHR 0x22 \<and> c \<noteq> CHR 0x5C)"

fun plain_json :: "nat \<Rightarrow> json \<Rightarrow> bool" where
  "plain_json d JNull = True"
| "plain_json d (JBool b) = True"
| "plain_json d (JNum t) = number_ok t"
| "plain_json d (JStr s) = plain s"
| "plain_json d (JObj kvs) = (0 < d \<and> (\<forall>(k, v) \<in> set kvs. plain k \<and> plain_json (d - 1) v))"
| "plain_json d (JArr vs) = (0 < d \<and> (\<forall>v \<in> set vs. plain_json (d - 1) v))"

lemma plain_append [simp]: "plain (s @ t) \<longleftrightarrow> plain s \<and> plain t"
  by (auto simp: plain_def)

lemma plain_Nil [simp]: "plain []"
  by (simp add: plain_def)

lemma plain_join: "\<forall>x \<in> set xs. plain x \<Longrightarrow> plain sep \<Longrightarrow> plain (join xs sep)"
  by (induction xs sep rule: join.induct) simp_all

lemma plain_itoa [simp]: "plain (itoa i)"
  unfolding plain_def
proof
  fix c assume "c \<in> set (itoa i)"
  then have "c = CHR ''-'' \<or> (\<exists>d < 10. c = digit_char d)" using nat_dec_digits by (auto simp: itoa_def split: if_splits)
  then show "32 \<le> byte c \<and> byte c < 128 \<and> c \<noteq> CHR 0x22 \<and> c \<noteq> CHR 0x5C"
    by (auto simp: byte_digit_char byte_eq_iff[symmetric])
qed

lemma unquote_plain: "plain s \<Longrightarrow> unquote 0 (s @ CHR 0x22 # r) = Some (s, r)"
  by (induction s) (auto simp: plain_def prepend_def)

lemma read_quoted_member:
  assumes "blank w" "plain key" "read_value n d t = Some (Inr (v, r))"
  shows "read_members (Suc n) d (w @ quote key @ '': '' @ t) =
    (if take 1 (skip_ws r) = '','' then
       map_option (map_sum id (apfst ((#) (key, v)))) (read_members n d (drop 1 (skip_ws r)))
     else if take 1 (skip_ws r) = ''}'' then Some (Inr ([(key, v)], drop 1 (skip_ws r)))
     else Some (Inl syntax_error))"
proof -
  have "unquote 0 (key @ CHR 0x22 # '': '' @ t) = Some (key, '': '' @ t)" using unquote_plain[OF assms(2)] by simp
  moreover have "read_value n d ('' '' @ t) = read_value n d t" by (rule read_value_blank) (simp add: blank_def)
  ultimately show ?thesis using assms(1,3) by (subst read_members.simps) (simp add: quote_def del: unquote.simps)
qed

lemma read_render_members:
  assumes "kvs \<noteq> []" "blank w"
    and "\<And>key v r. (key, v) \<in> set kvs \<Longrightarrow> follows r \<Longrightarrow> plain key \<and> (\<exists>n. read_value n d (render v @ r) = Some (Inr (v, r)))"
  shows "\<exists>n. read_members n d (w @ join (map (\<lambda>(k, v). quote k @ '': '' @ render v) kvs) '', '' @ CHR ''}'' # r) = Some (Inr (kvs, r))"
  using assms
proof (induction kvs arbitrary: w)
  case (Cons kv kvs)
  obtain key v where kv: "kv = (key, v)" by (cases kv)
  show ?case
  proof (cases "kvs = []")
    case True
    obtain n where "plain key" "read_value n d (render v @ CHR ''}'' # r) = Some (Inr (v, CHR ''}'' # r))"
      using Cons.prems(3)[of key v "CHR ''}'' # r"] by (auto simp: kv)
    from read_quoted_member[OF Cons.prems(2) this] True show ?thesis by (intro exI[of _ "Suc n"]) (simp add: kv)
  next
    case False
    let ?t = "'' '' @ join (map (\<lambda>(k, v). quote k @ '': '' @ render v) kvs) '', '' @ CHR ''}'' # r"
    have "\<exists>n. read_members n d ?t = Some (Inr (kvs, r))"
      by (rule Cons.IH[OF False]) (use Cons.prems(3) in \<open>auto simp: blank_def\<close>)
    then obtain n where n: "read_members n d ?t = Some (Inr (kvs, r))" by blast
    obtain m where key: "plain key" and m: "read_value m d (render v @ CHR '','' # ?t) = Some (Inr (v, CHR '','' # ?t))"
      using Cons.prems(3)[of key v "CHR '','' # ?t"] by (auto simp: kv)
    have "read_value (max m n) d (render v @ CHR '','' # ?t) = Some (Inr (v, CHR '','' # ?t))"
      "read_members (max m n) d ?t = Some (Inr (kvs, r))"
      using read_fuel_mono(1)[OF m] read_fuel_mono(2)[OF n] by simp_all
    with read_quoted_member[OF Cons.prems(2) key this(1)] False show ?thesis
      by (intro exI[of _ "Suc (max m n)"]) (simp add: kv join_Cons)
  qed
qed simp

lemma read_render_elements:
  assumes "vs \<noteq> []" "blank w" "\<And>v r. v \<in> set vs \<Longrightarrow> follows r \<Longrightarrow> \<exists>n. read_value n d (render v @ r) = Some (Inr (v, r))"
  shows "\<exists>n. read_elements n d (w @ join (map render vs) '', '' @ CHR '']'' # r) = Some (Inr (vs, r))"
  using assms
proof (induction vs arbitrary: w)
  case (Cons v vs)
  show ?case
  proof (cases "vs = []")
    case True
    obtain n where "read_value n d (render v @ CHR '']'' # r) = Some (Inr (v, CHR '']'' # r))"
      using Cons.prems(3)[of v "CHR '']'' # r"] by auto
    with True Cons.prems(2) show ?thesis by (intro exI[of _ "Suc n"]) simp
  next
    case False
    let ?t = "'' '' @ join (map render vs) '', '' @ CHR '']'' # r"
    have "\<exists>n. read_elements n d ?t = Some (Inr (vs, r))"
      by (rule Cons.IH[OF False]) (use Cons.prems(3) in \<open>auto simp: blank_def\<close>)
    then obtain n where n: "read_elements n d ?t = Some (Inr (vs, r))" by blast
    obtain m where m: "read_value m d (render v @ CHR '','' # ?t) = Some (Inr (v, CHR '','' # ?t))"
      using Cons.prems(3)[of v "CHR '','' # ?t"] by auto
    have "read_value (max m n) d (render v @ CHR '','' # ?t) = Some (Inr (v, CHR '','' # ?t))"
      "read_elements (max m n) d ?t = Some (Inr (vs, r))"
      using read_fuel_mono(1)[OF m] read_fuel_mono(3)[OF n] by simp_all
    with False Cons.prems(2) show ?thesis by (intro exI[of _ "Suc (max m n)"]) (simp add: join_Cons)
  qed
qed simp

lemma render_head: "plain_json d v \<Longrightarrow> \<exists>c t. render v = c # t \<and> \<not> ws c \<and> c \<noteq> CHR '']''"
proof (cases v)
  case (JNum u)
  moreover assume "plain_json d v"
  ultimately have u: "number u = Some (u, [])" by (simp add: number_ok_def)
  then obtain c t where ct: "u = c # t" by (cases u) (auto simp: number_def int_part_def)
  with u number_head[OF number_start[of c t]] JNum show ?thesis by auto
qed (auto simp: quote_def)

lemma read_render_object:
  assumes "0 < d" "\<And>key v r. (key, v) \<in> set kvs \<Longrightarrow> follows r \<Longrightarrow>
      plain key \<and> (\<exists>n. read_value n (d - 1) (render v @ r) = Some (Inr (v, r)))"
  shows "\<exists>n. read_value n d (render (JObj kvs) @ r) = Some (Inr (JObj kvs, r))"
proof (cases kvs)
  case Nil
  with assms(1) show ?thesis by (intro exI[of _ 1]) simp
next
  case (Cons kv kvs')
  let ?t = "join (map (\<lambda>(k, v). quote k @ '': '' @ render v) kvs) '', '' @ CHR ''}'' # r"
  have "\<exists>n. read_members n (d - 1) ([] @ ?t) = Some (Inr (kvs, r))"
    by (rule read_render_members) (use Cons assms(2) in \<open>auto simp: blank_def\<close>)
  then obtain n where "read_members n (d - 1) ?t = Some (Inr (kvs, r))" by auto
  moreover have "take 1 (skip_ws ?t) \<noteq> ''}''" by (cases kvs') (simp_all add: Cons quote_def split: prod.splits)
  ultimately show ?thesis using assms(1) Cons by (intro exI[of _ "Suc n"]) simp
qed

lemma read_render_array:
  assumes "plain_json d (JArr vs)" "\<And>v r. v \<in> set vs \<Longrightarrow> follows r \<Longrightarrow> \<exists>n. read_value n (d - 1) (render v @ r) = Some (Inr (v, r))"
  shows "\<exists>n. read_value n d (render (JArr vs) @ r) = Some (Inr (JArr vs, r))"
proof (cases vs)
  case Nil
  with assms(1) show ?thesis by (intro exI[of _ 1]) simp
next
  case (Cons v vs')
  let ?t = "join (map render vs) '', '' @ CHR '']'' # r"
  have "\<exists>n. read_elements n (d - 1) ([] @ ?t) = Some (Inr (vs, r))"
    by (rule read_render_elements) (use Cons assms(2) in \<open>auto simp: blank_def\<close>)
  then obtain n where "read_elements n (d - 1) ?t = Some (Inr (vs, r))" by auto
  moreover obtain c t where "render v = c # t" "\<not> ws c" "c \<noteq> CHR '']''" using render_head[of "d - 1" v] assms(1) Cons by auto
  then have "take 1 (skip_ws ?t) \<noteq> '']''" by (cases vs') (simp_all add: Cons)
  ultimately show ?thesis using assms(1) Cons by (intro exI[of _ "Suc n"]) simp
qed

lemma read_render: "plain_json d v \<Longrightarrow> follows r \<Longrightarrow> \<exists>n. read_value n d (render v @ r) = Some (Inr (v, r))"
proof (induction v arbitrary: d r)
  case (JNum t)
  then have t: "number t = Some (t, [])" by (simp add: number_ok_def)
  then obtain c u where c: "t = c # u" by (cases t) (auto simp: number_def int_part_def)
  have "number (c # (u @ r)) = Some (t, r)" using number_append[OF t JNum(2)] c by simp
  moreover note number_head[OF number_start[OF this]]
  ultimately show ?case using c by (intro exI[of _ 1]) simp
next
  case (JStr s)
  then show ?case by (intro exI[of _ 1]) (simp add: quote_def unquote_plain del: unquote.simps)
next
  case (JObj kvs)
  then show ?case by (intro read_render_object) auto
next
  case (JArr vs)
  show ?case by (rule read_render_array[OF JArr(2)]) (use JArr in auto)
qed (intro exI[of _ 1], simp)+

lemma json_read_render:
  assumes "plain_json max_depth v"
  shows "json_read (render v) = Inr v"
proof -
  obtain n where "read_value n max_depth (render v) = Some (Inr (v, []))" using read_render[OF assms, of "[]"] by auto
  from read_value_enough[OF this] show ?thesis by (simp add: json_read_def)
qed

section \<open>The server interface\<close>

record ('q, 'k) kubeOps =
  ko_newForConfig :: "go_error option"
  ko_patchPod :: "string \<Rightarrow> string \<Rightarrow> patchType \<Rightarrow> json \<Rightarrow> 'k \<Rightarrow> go_error option \<times> 'k"
  ko_patchJob :: "string \<Rightarrow> string \<Rightarrow> patchType \<Rightarrow> json \<Rightarrow> 'k \<Rightarrow> go_error option \<times> 'k"
  ko_patchStatefulSet :: "string \<Rightarrow> string \<Rightarrow> patchType \<Rightarrow> json \<Rightarrow> 'k \<Rightarrow> go_error option \<times> 'k"
  ko_getPod :: "string \<Rightarrow> string \<Rightarrow> 'k \<Rightarrow> 'q pod result"
  ko_listPods :: "string \<Rightarrow> string \<Rightarrow> 'k \<Rightarrow> 'q pod list \<times> go_error option"

definition set_labels :: "(string \<times> string) list \<Rightarrow> 'q pod \<Rightarrow> 'q pod" where
  "set_labels kvs p =
     p\<lparr>pod_Meta := (pod_Meta p)\<lparr>om_Labels := Some (label_init (pod_Labels p) ++ map_of (rev kvs))\<rparr>\<rparr>"

definition drop_gate :: "nat \<Rightarrow> 'q pod \<Rightarrow> 'q pod" where
  "drop_gate i p =
     p\<lparr>pod_Spec := (pod_Spec p)\<lparr>ps_SchedulingGates := take i (pod_Gates p) @ drop (Suc i) (pod_Gates p)\<rparr>\<rparr>"

locale kube_api =
  fixes K :: "('q, 'k) kubeOps"
    and pods :: "'k \<Rightarrow> (string \<times> string) \<rightharpoonup> 'q pod"
    and after :: "patchType \<Rightarrow> json \<Rightarrow> 'q pod \<Rightarrow> 'q pod result"
  assumes patch_ok: "ko_patchPod K ns n pt pl k = (None, k') \<Longrightarrow>
      \<exists>p p'. pods k (ns, n) = Some p \<and> after pt pl p = Inr p' \<and> pods k' = (pods k)((ns, n) \<mapsto> p')"
    and patch_fail: "ko_patchPod K ns n pt pl k = (Some e, k') \<Longrightarrow> pods k' = pods k"
    and get_ok: "ko_getPod K ns n k = Inr p \<Longrightarrow> pods k (ns, n) = Some p"
    and list_ok: "ko_listPods K ns sel k = (ps, None) \<Longrightarrow> p \<in> set ps \<Longrightarrow>
      pod_Namespace p = ns \<and> pods k (ns, pod_Name p) = Some p"
    and list_distinct: "ko_listPods K ns sel k = (ps, None) \<Longrightarrow> distinct (map pod_Name ps)"
    and after_labels: "after MergePatchType (labelsPatch kvs) p = Inr (set_labels kvs p)"
    and after_removeGate: "i < 2 ^ 63 \<Longrightarrow> after JSONPatchType (removeGatePatch (int i)) p =
      (if i < length (pod_Gates p) then Inr (drop_gate i p) else Inl (Errorf ''remove of a missing path''))"
begin

lemma patch_pods:
  "ko_patchPod K ns n pt pl k = (e, k') \<Longrightarrow> (ns', n') \<noteq> (ns, n) \<Longrightarrow> pods k' (ns', n') = pods k (ns', n')"
proof (cases e)
  case None
  moreover assume "ko_patchPod K ns n pt pl k = (e, k')" "(ns', n') \<noteq> (ns, n)"
  ultimately show ?thesis using patch_ok[of ns n pt pl k k'] by auto
next
  case (Some x)
  moreover assume "ko_patchPod K ns n pt pl k = (e, k')"
  ultimately show ?thesis using patch_fail by simp
qed

end

text \<open>
  The server also holds the batch jobs. Patching a job leaves the pods alone and the other way
  round; the strategic merge patch of the program unsuspends the job and extends the labels of its
  pod template, and replacing \<open>/spec/suspend\<close> by null clears that field.
\<close>

definition release_job :: "(string \<times> string) list \<Rightarrow> 'q batch_job \<Rightarrow> 'q batch_job" where
  "release_job kvs j =
     j\<lparr>job_Suspend := Some False,
       job_Template := (job_Template j)\<lparr>pt_Labels := Some (label_init (pt_Labels (job_Template j)) ++ map_of (rev kvs))\<rparr>\<rparr>"

locale kube_server = kube_api K pods after
  for K :: "('q, 'k) kubeOps" and pods :: "'k \<Rightarrow> (string \<times> string) \<rightharpoonup> 'q pod"
    and after :: "patchType \<Rightarrow> json \<Rightarrow> 'q pod \<Rightarrow> 'q pod result" +
  fixes jobs :: "'k \<Rightarrow> (string \<times> string) \<rightharpoonup> 'q batch_job"
  assumes patchPod_jobs: "ko_patchPod K ns n pt pl k = (e, k') \<Longrightarrow> jobs k' = jobs k"
    and patchJob_pods: "ko_patchJob K ns n pt pl k = (e, k') \<Longrightarrow> pods k' = pods k"
    and patchJob_fail: "ko_patchJob K ns n pt pl k = (Some x, k') \<Longrightarrow> jobs k' = jobs k"
    and unsuspend_ok: "ko_patchJob K ns n StrategicMergePatchType (unsuspendPatch kvs) k = (None, k') \<Longrightarrow>
      \<exists>j. jobs k (ns, n) = Some j \<and> jobs k' = (jobs k)((ns, n) \<mapsto> release_job kvs j)"
    and replaceSuspend_ok: "ko_patchJob K ns n JSONPatchType replaceSuspendPatch k = (None, k') \<Longrightarrow>
      \<exists>j. jobs k (ns, n) = Some j \<and> jobs k' = (jobs k)((ns, n) \<mapsto> j\<lparr>job_Suspend := None\<rparr>)"

section \<open>An in-memory server\<close>

text \<open>
  Pods and jobs by namespace and name. A selector matches the pods of the namespace that satisfy
  \<open>matches\<close>; the listing follows the given order of names, as the server lists by key.
\<close>

definition mem_after :: "patchType \<Rightarrow> json \<Rightarrow> 'q pod \<Rightarrow> 'q pod result" where
  "mem_after pt pl p =
     (case (pt, pl) of
        (MergePatchType, JObj [(m, JObj [(l, JObj kvs)])]) \<Rightarrow>
          Inr (set_labels (map (\<lambda>(k, v). (k, case v of JStr s \<Rightarrow> s | _ \<Rightarrow> [])) kvs) p)
      | (JSONPatchType, JArr [JObj [(a, b), (c, JStr path)]]) \<Rightarrow>
          (case parseInt (drop (length ''/spec/schedulingGates/'') path) 64 of
             (i, None) \<Rightarrow> (if 0 \<le> i \<and> i < int (length (pod_Gates p)) then Inr (drop_gate (nat i) p)
                          else Inl (Errorf ''remove of a missing path''))
           | (_, Some _) \<Rightarrow> Inl (Errorf ''remove of a missing path''))
      | _ \<Rightarrow> Inl (Errorf ''unsupported patch''))"

record 'q mem_cluster =
  mc_order :: "string list"
  mc_pods :: "(string \<times> string) \<rightharpoonup> 'q pod"
  mc_jobs :: "(string \<times> string) \<rightharpoonup> 'q batch_job"

definition mem_patchPod ::
  "string \<Rightarrow> string \<Rightarrow> patchType \<Rightarrow> json \<Rightarrow> 'q mem_cluster \<Rightarrow> go_error option \<times> 'q mem_cluster" where
  "mem_patchPod ns n pt pl k =
     (case mc_pods k (ns, n) of
        None \<Rightarrow> (Some (NotFound n), k)
      | Some p \<Rightarrow> (case mem_after pt pl p of
          Inl e \<Rightarrow> (Some e, k)
        | Inr p' \<Rightarrow> (None, k\<lparr>mc_pods := (mc_pods k)((ns, n) \<mapsto> p')\<rparr>)))"

definition mem_job_after :: "patchType \<Rightarrow> json \<Rightarrow> 'q batch_job \<Rightarrow> 'q batch_job result" where
  "mem_job_after pt pl j =
     (case (pt, pl) of
        (StrategicMergePatchType, JObj [(s, JObj [(u, b), (t, JObj [(m, JObj [(l, JObj kvs)])])])]) \<Rightarrow>
          Inr (release_job (map (\<lambda>(k, v). (k, case v of JStr s \<Rightarrow> s | _ \<Rightarrow> [])) kvs) j)
      | (JSONPatchType, JArr [JObj [(a, b), (c, d), (e, JNull)]]) \<Rightarrow> Inr (j\<lparr>job_Suspend := None\<rparr>)
      | _ \<Rightarrow> Inl (Errorf ''unsupported patch''))"

definition mem_patchJob ::
  "string \<Rightarrow> string \<Rightarrow> patchType \<Rightarrow> json \<Rightarrow> 'q mem_cluster \<Rightarrow> go_error option \<times> 'q mem_cluster" where
  "mem_patchJob ns n pt pl k =
     (case mc_jobs k (ns, n) of
        None \<Rightarrow> (Some (NotFound n), k)
      | Some j \<Rightarrow> (case mem_job_after pt pl j of
          Inl e \<Rightarrow> (Some e, k)
        | Inr j' \<Rightarrow> (None, k\<lparr>mc_jobs := (mc_jobs k)((ns, n) \<mapsto> j')\<rparr>)))"

fun mem_rows :: "((string \<times> string) \<rightharpoonup> 'q pod) \<Rightarrow> string \<Rightarrow> string list \<Rightarrow> 'q pod list" where
  "mem_rows m ns [] = []"
| "mem_rows m ns (n # names) =
     (case m (ns, n) of
        None \<Rightarrow> mem_rows m ns names
      | Some p \<Rightarrow> (if pod_Name p = n \<and> pod_Namespace p = ns then p # mem_rows m ns names
                   else mem_rows m ns names))"

definition mem_listPods :: "('q pod \<Rightarrow> string \<Rightarrow> bool) \<Rightarrow> string \<Rightarrow> string \<Rightarrow> 'q mem_cluster \<Rightarrow> 'q pod list \<times> go_error option" where
  "mem_listPods matches ns sel k =
     (filter (\<lambda>p. matches p sel) (mem_rows (mc_pods k) ns (remdups (mc_order k))), None)"

definition mem_ops :: "('q pod \<Rightarrow> string \<Rightarrow> bool) \<Rightarrow> ('q, 'q mem_cluster) kubeOps" where
  "mem_ops matches =
     \<lparr>ko_newForConfig = None, ko_patchPod = mem_patchPod,
      ko_patchJob = mem_patchJob,
      ko_patchStatefulSet = (\<lambda>_ n _ _ k. (Some (NotFound n), k)),
      ko_getPod = (\<lambda>ns n k. case mc_pods k (ns, n) of None \<Rightarrow> Inl (NotFound n) | Some p \<Rightarrow> Inr p),
      ko_listPods = mem_listPods matches\<rparr>"

lemma payload_labels: "map (\<lambda>(k, v). (k, case v of JStr s \<Rightarrow> s | _ \<Rightarrow> [])) (map (\<lambda>(k, v). (k, JStr v)) kvs) = kvs"
  by (induction kvs) auto

lemma mem_after_labels: "mem_after MergePatchType (labelsPatch kvs) p = Inr (set_labels kvs p)"
  using payload_labels[of kvs] by (simp add: mem_after_def labelsPatch_def)

lemma mem_job_after_simps:
  "mem_job_after StrategicMergePatchType (unsuspendPatch kvs) j = Inr (release_job kvs j)"
  "mem_job_after JSONPatchType replaceSuspendPatch j = Inr (j\<lparr>job_Suspend := None\<rparr>)"
  using payload_labels[of kvs] by (simp_all add: mem_job_after_def unsuspendPatch_def labelsPatch_def replaceSuspendPatch_def)

lemma mem_rows_sound:
  "p \<in> set (mem_rows m ns names) \<Longrightarrow> pod_Namespace p = ns \<and> pod_Name p \<in> set names \<and> m (ns, pod_Name p) = Some p"
  by (induction names) (auto split: option.splits if_splits)

lemma mem_rows_distinct: "distinct names \<Longrightarrow> distinct (map pod_Name (mem_rows m ns names))"
  by (induction names) (auto split: option.splits dest: mem_rows_sound)

lemma mem_after_removeGate:
  assumes "i < 2 ^ 63"
  shows "mem_after JSONPatchType (removeGatePatch (int i)) p =
    (if i < length (pod_Gates p) then Inr (drop_gate i p) else Inl (Errorf ''remove of a missing path''))"
proof -
  have "parseInt (itoa (int i)) 64 = (int i, None)" using assms by (intro parseInt_itoa) auto
  then show ?thesis by (simp add: mem_after_def removeGatePatch_def)
qed

interpretation mem: kube_api "mem_ops matches" mc_pods mem_after for matches
proof (unfold_locales, goal_cases)
  case (1 ns n pt pl k k')
  then show ?case by (auto simp: mem_ops_def mem_patchPod_def split: option.splits sum.splits)
next
  case (2 ns n pt pl k e k')
  then show ?case by (auto simp: mem_ops_def mem_patchPod_def split: option.splits sum.splits)
next
  case (3 ns n k p)
  then show ?case by (auto simp: mem_ops_def split: option.splits)
next
  case (4 ns sel k ps p)
  then show ?case by (auto simp: mem_ops_def mem_listPods_def dest: mem_rows_sound)
next
  case (5 ns sel k ps)
  then show ?case by (auto simp: mem_ops_def mem_listPods_def intro: mem_rows_distinct distinct_map_filter)
next
  case (6 kvs p)
  show ?case by (rule mem_after_labels)
next
  case (7 i p)
  then show ?case by (rule mem_after_removeGate)
qed

interpretation mem_srv: kube_server "mem_ops matches" mc_pods mem_after mc_jobs for matches
  by unfold_locales
     (auto simp: mem_ops_def mem_patchPod_def mem_patchJob_def mem_job_after_simps split: option.splits sum.splits)

end
