(* ===== verification/Worker_Env.thy ===== *)
theory Worker_Env
  imports Queue Kube_Api
begin

text \<open>
  What the river workers of \<open>pkg/fluxqueue/strategy/workers\<close> run against: the queue's state,
  the Kubernetes cluster and Fluxion. The Fluxion service (\<open>github.com/converged-computing/fluxion\<close>)
  is not under \<open>src/\<close>: its client is a record of operations over a state of any type
  \<open>'x\<close>. The failures of the database pool, of the reservation statements and of a river
  insert are fields of \<open>workerFaults\<close>.
\<close>

record matchRequest =
  mr_Jobspec :: string
  mr_Reservation :: bool

record matchResponse =
  mp_Allocation :: string
  mp_Reserved :: bool
  mp_Jobid :: int

record 'x fluxionOps =
  fo_NewClient :: "go_error option"
  fo_Match :: "matchRequest \<Rightarrow> 'x \<Rightarrow> matchResponse result \<times> 'x"
  fo_Cancel :: "int \<Rightarrow> 'x \<Rightarrow> go_error option \<times> 'x"

record workerFaults =
  wf_pool :: "go_error option"
  wf_reserve :: "go_error option"
  wf_getReservations :: "go_error option"
  wf_deleteReservation :: "int \<Rightarrow> go_error option"
  wf_insert :: "go_error option"

definition no_workerFaults :: workerFaults where
  "no_workerFaults = \<lparr>wf_pool = None, wf_reserve = None, wf_getReservations = None,
     wf_deleteReservation = (\<lambda>_. None), wf_insert = None\<rparr>"

record ('k, 'x) world =
  w_sys :: sys
  w_kube :: 'k
  w_fluxion :: 'x

text \<open>A logging Fluxion client: it answers every match with a given response and records every call.\<close>

datatype fluxionCall = CMatch matchRequest | CCancel int

definition log_fluxion :: "matchResponse result \<Rightarrow> (int \<Rightarrow> go_error option) \<Rightarrow> fluxionCall list fluxionOps" where
  "log_fluxion resp cancel =
     \<lparr>fo_NewClient = None, fo_Match = (\<lambda>r l. (resp, l @ [CMatch r])),
      fo_Cancel = (\<lambda>i l. (cancel i, l @ [CCancel i]))\<rparr>"

text \<open>A logging API server: it answers every request with a given result and records the patches.\<close>

datatype kubeCall =
    KPatchPod string string patchType json
  | KPatchJob string string patchType json
  | KPatchStatefulSet string string patchType json

definition log_kube ::
  "(kubeCall \<Rightarrow> go_error option) \<Rightarrow> (string \<Rightarrow> string \<Rightarrow> 'q pod result) \<Rightarrow>
   (string \<Rightarrow> string \<Rightarrow> 'q pod list \<times> go_error option) \<Rightarrow> ('q, kubeCall list) kubeOps" where
  "log_kube answer getp listp =
     \<lparr>ko_newForConfig = None,
      ko_patchPod = (\<lambda>ns n pt pl l. (answer (KPatchPod ns n pt pl), l @ [KPatchPod ns n pt pl])),
      ko_patchJob = (\<lambda>ns n pt pl l. (answer (KPatchJob ns n pt pl), l @ [KPatchJob ns n pt pl])),
      ko_patchStatefulSet =
        (\<lambda>ns n pt pl l. (answer (KPatchStatefulSet ns n pt pl), l @ [KPatchStatefulSet ns n pt pl])),
      ko_getPod = (\<lambda>ns n l. getp ns n), ko_listPods = (\<lambda>ns sel l. listp ns sel)\<rparr>"

end
