(* ===== verification/Allocation.thy ===== *)
theory Allocation
  imports Go_Json
begin

text \<open>
  The allocation that Fluxion returns, \<open>pkg/types/types.go\<close>, and \<open>json.Unmarshal\<close>
  into it. Decoding follows \<open>encoding/json\<close>: a key selects the field with the same name,
  else the one that is equal up to case folding; unknown keys are ignored; \<open>null\<close> leaves a
  field as it is and clears a slice or a map; a repeated key decodes into what is already there; the
  first value of a wrong type is the error. Elements that a repeated key cut off a slice are taken as
  zero when a third occurrence grows it again.
\<close>

section \<open>Types\<close>

text \<open>A node with the fields of its metadata; edges are pairs of source and target.\<close>

record allocNode =
  an_ID :: string
  an_Type :: string
  an_Id :: int32
  an_Rank :: int32
  an_Basename :: string
  an_Exclusive :: bool
  an_Paths :: labels

type_synonym allocationResponse = "allocNode list \<times> (string \<times> string) list"

definition zero_node :: allocNode where
  "zero_node = \<lparr>an_ID = [], an_Type = [], an_Id = 0, an_Rank = 0, an_Basename = [], an_Exclusive = False,
     an_Paths = Map.empty\<rparr>"

section \<open>Decoding\<close>

text \<open>A decoder takes the value that the field has so far.\<close>

type_synonym 'a decoder = "json \<Rightarrow> 'a \<Rightarrow> 'a result"

definition type_error :: go_error where
  "type_error = Errorf ''json: cannot unmarshal''"

definition decode_string :: "string decoder" where
  "decode_string j x = (case j of JNull \<Rightarrow> Inr x | JStr s \<Rightarrow> Inr s | _ \<Rightarrow> Inl type_error)"

definition decode_bool :: "bool decoder" where
  "decode_bool j x = (case j of JNull \<Rightarrow> Inr x | JBool b \<Rightarrow> Inr b | _ \<Rightarrow> Inl type_error)"

definition decode_int32 :: "int32 decoder" where
  "decode_int32 j x =
     (case j of
        JNull \<Rightarrow> Inr x
      | JNum t \<Rightarrow>
         (case parseInt t 64 of
            (i, None) \<Rightarrow> (if - (2 ^ 31) \<le> i \<and> i < 2 ^ 31 then Inr (word_of_int i) else Inl type_error)
          | (_, Some _) \<Rightarrow> Inl type_error)
      | _ \<Rightarrow> Inl type_error)"

fun decode_members :: "(string \<Rightarrow> 'a decoder) \<Rightarrow> (string \<times> json) list \<Rightarrow> 'a \<Rightarrow> 'a result" where
  "decode_members f [] x = Inr x"
| "decode_members f ((key, j) # kvs) x =
     (case f key j x of Inl e \<Rightarrow> Inl e | Inr y \<Rightarrow> decode_members f kvs y)"

definition decode_struct :: "(string \<Rightarrow> 'a decoder) \<Rightarrow> 'a decoder" where
  "decode_struct f j x =
     (case j of JNull \<Rightarrow> Inr x | JObj kvs \<Rightarrow> decode_members f kvs x | _ \<Rightarrow> Inl type_error)"

definition decode_map :: "labels decoder" where
  "decode_map j m =
     (case j of
        JNull \<Rightarrow> Inr Map.empty
      | JObj kvs \<Rightarrow> decode_members (\<lambda>key j m. map_sum id (\<lambda>s. m(key \<mapsto> s)) (decode_string j [])) kvs m
      | _ \<Rightarrow> Inl type_error)"

fun decode_elements :: "'a decoder \<Rightarrow> 'a \<Rightarrow> json list \<Rightarrow> 'a list \<Rightarrow> 'a list result" where
  "decode_elements f zero [] xs = Inr []"
| "decode_elements f zero (j # js) xs =
     (case f j (if xs = [] then zero else hd xs) of
        Inl e \<Rightarrow> Inl e
      | Inr y \<Rightarrow> map_sum id ((#) y) (decode_elements f zero js (tl xs)))"

definition decode_slice :: "'a decoder \<Rightarrow> 'a \<Rightarrow> 'a list decoder" where
  "decode_slice f zero j xs =
     (case j of JNull \<Rightarrow> Inr [] | JArr js \<Rightarrow> decode_elements f zero js xs | _ \<Rightarrow> Inl type_error)"

section \<open>Fields\<close>

text \<open>
  Case folding of a key: ASCII letters, and the two runes outside ASCII that fold to a letter, the
  long s and the Kelvin sign.
\<close>

fun fold_name :: "string \<Rightarrow> string" where
  "fold_name [] = []"
| "fold_name (c # cs) =
     (if 97 \<le> byte c \<and> byte c \<le> 122 then char_of (byte c - 32) # fold_name cs
      else if c = CHR 0xC5 \<and> take 1 cs = [CHR 0xBF] then CHR ''S'' # fold_name (drop 1 cs)
      else if c = CHR 0xE2 \<and> take 2 cs = [CHR 0x84, CHR 0xAA] then CHR ''K'' # fold_name (drop 2 cs)
      else c # fold_name cs)"

definition field :: "string list \<Rightarrow> string \<Rightarrow> string option" where
  "field names key =
     (if key \<in> set names then Some key else find (\<lambda>n. fold_name n = fold_name key) names)"

definition metadata_field :: "string \<Rightarrow> allocNode decoder" where
  "metadata_field key j n =
     (case field [''type'', ''id'', ''rank'', ''basename'', ''exclusive'', ''paths''] key of
        None \<Rightarrow> Inr n
      | Some f \<Rightarrow>
         (if f = ''type'' then map_sum id (\<lambda>x. n\<lparr>an_Type := x\<rparr>) (decode_string j (an_Type n))
          else if f = ''id'' then map_sum id (\<lambda>x. n\<lparr>an_Id := x\<rparr>) (decode_int32 j (an_Id n))
          else if f = ''rank'' then map_sum id (\<lambda>x. n\<lparr>an_Rank := x\<rparr>) (decode_int32 j (an_Rank n))
          else if f = ''basename'' then map_sum id (\<lambda>x. n\<lparr>an_Basename := x\<rparr>) (decode_string j (an_Basename n))
          else if f = ''exclusive'' then map_sum id (\<lambda>x. n\<lparr>an_Exclusive := x\<rparr>) (decode_bool j (an_Exclusive n))
          else map_sum id (\<lambda>x. n\<lparr>an_Paths := x\<rparr>) (decode_map j (an_Paths n))))"

definition node_field :: "string \<Rightarrow> allocNode decoder" where
  "node_field key j n =
     (case field [''id'', ''metadata''] key of
        None \<Rightarrow> Inr n
      | Some f \<Rightarrow>
         (if f = ''id'' then map_sum id (\<lambda>x. n\<lparr>an_ID := x\<rparr>) (decode_string j (an_ID n))
          else decode_struct metadata_field j n))"

definition edge_field :: "string \<Rightarrow> (string \<times> string) decoder" where
  "edge_field key j e =
     (case field [''source'', ''target''] key of
        None \<Rightarrow> Inr e
      | Some f \<Rightarrow>
         (if f = ''source'' then map_sum id (\<lambda>x. (x, snd e)) (decode_string j (fst e))
          else map_sum id (\<lambda>x. (fst e, x)) (decode_string j (snd e))))"

definition graph_field :: "string \<Rightarrow> allocationResponse decoder" where
  "graph_field key j g =
     (case field [''nodes'', ''edges''] key of
        None \<Rightarrow> Inr g
      | Some f \<Rightarrow>
         (if f = ''nodes'' then map_sum id (\<lambda>x. (x, snd g)) (decode_slice (decode_struct node_field) zero_node j (fst g))
          else map_sum id (\<lambda>x. (fst g, x)) (decode_slice (decode_struct edge_field) ([], []) j (snd g))))"

definition allocation_field :: "string \<Rightarrow> allocationResponse decoder" where
  "allocation_field key j g =
     (case field [''graph''] key of None \<Rightarrow> Inr g | Some _ \<Rightarrow> decode_struct graph_field j g)"

definition Unmarshal :: "string \<Rightarrow> allocationResponse result" where
  "Unmarshal s =
     (case json_read s of
        Inl e \<Rightarrow> Inl e
      | Inr j \<Rightarrow> decode_struct allocation_field j ([], []))"

section \<open>Lower-case keys\<close>

text \<open>Among keys in lower case, folding adds no matches.\<close>

definition lower :: "string \<Rightarrow> bool" where
  "lower s \<longleftrightarrow> (\<forall>c \<in> set s. 97 \<le> byte c \<and> byte c \<le> 122 \<or> c = CHR ''_'')"

definition fold_char :: "char \<Rightarrow> char" where
  "fold_char c = (if c = CHR ''_'' then c else char_of (byte c - 32))"

lemma fold_name_lower: "lower s \<Longrightarrow> fold_name s = map fold_char s"
  by (induction s) (auto simp: lower_def fold_char_def)

lemma fold_char_inject:
  assumes "97 \<le> byte c \<and> byte c \<le> 122 \<or> c = CHR ''_''" "97 \<le> byte d \<and> byte d \<le> 122 \<or> d = CHR ''_''"
  shows "fold_char c = fold_char d \<longleftrightarrow> c = d"
proof -
  have fold: "byte (fold_char c) = (if c = CHR ''_'' then 95 else byte c - 32)"
    if "97 \<le> byte c \<and> byte c \<le> 122 \<or> c = CHR ''_''" for c
    using that by (auto simp: fold_char_def byte_def)
  have "byte (fold_char c) = byte (fold_char d) \<longrightarrow> byte c = byte d"
    unfolding fold[OF assms(1)] fold[OF assms(2)] using assms by (auto split: if_splits)
  then show ?thesis using byte_eq_iff by metis
qed

lemma fold_name_inject: "lower s \<Longrightarrow> lower t \<Longrightarrow> fold_name s = fold_name t \<longleftrightarrow> s = t"
  unfolding fold_name_lower
proof (induction s arbitrary: t)
  case (Cons c s)
  then show ?case using fold_char_inject by (cases t) (auto simp: lower_def)
qed auto

lemma field_lower:
  assumes "lower key" "\<forall>n \<in> set names. lower n"
  shows "field names key = (if key \<in> set names then Some key else None)"
proof -
  have "find (\<lambda>n. fold_name n = fold_name key) names = None" if "key \<notin> set names"
    using that assms by (auto simp: find_None_iff fold_name_inject)
  then show ?thesis by (simp add: field_def)
qed

lemma lower_Cons [simp]: "97 \<le> byte c \<and> byte c \<le> 122 \<or> c = CHR ''_'' \<Longrightarrow> lower (c # s) = lower s"
  and lower_Nil [simp]: "lower []"
  by (auto simp: lower_def)

lemma metadata_fields:
  "metadata_field ''type'' j n = map_sum id (\<lambda>x. n\<lparr>an_Type := x\<rparr>) (decode_string j (an_Type n))"
  "metadata_field ''id'' j n = map_sum id (\<lambda>x. n\<lparr>an_Id := x\<rparr>) (decode_int32 j (an_Id n))"
  "metadata_field ''rank'' j n = map_sum id (\<lambda>x. n\<lparr>an_Rank := x\<rparr>) (decode_int32 j (an_Rank n))"
  "metadata_field ''basename'' j n = map_sum id (\<lambda>x. n\<lparr>an_Basename := x\<rparr>) (decode_string j (an_Basename n))"
  "metadata_field ''exclusive'' j n = map_sum id (\<lambda>x. n\<lparr>an_Exclusive := x\<rparr>) (decode_bool j (an_Exclusive n))"
  "metadata_field ''paths'' j n = map_sum id (\<lambda>x. n\<lparr>an_Paths := x\<rparr>) (decode_map j (an_Paths n))"
  by (simp_all add: metadata_field_def field_def)

lemma metadata_unknown:
  "lower key \<Longrightarrow> key \<notin> {''type'', ''id'', ''rank'', ''basename'', ''exclusive'', ''paths''} \<Longrightarrow> metadata_field key j n = Inr n"
  by (simp add: metadata_field_def field_lower)

lemma node_fields:
  "node_field ''id'' j n = map_sum id (\<lambda>x. n\<lparr>an_ID := x\<rparr>) (decode_string j (an_ID n))"
  "node_field ''metadata'' j n = decode_struct metadata_field j n"
  "lower key \<Longrightarrow> key \<notin> {''id'', ''metadata''} \<Longrightarrow> node_field key j n = Inr n"
  by (simp_all add: node_field_def field_def[of _ "''id''"] field_def[of _ "''metadata''"] field_lower)

lemma edge_fields:
  "edge_field ''source'' j e = map_sum id (\<lambda>x. (x, snd e)) (decode_string j (fst e))"
  "edge_field ''target'' j e = map_sum id (\<lambda>x. (fst e, x)) (decode_string j (snd e))"
  "lower key \<Longrightarrow> key \<notin> {''source'', ''target''} \<Longrightarrow> edge_field key j e = Inr e"
  by (simp_all add: edge_field_def field_def[of _ "''source''"] field_def[of _ "''target''"] field_lower)

lemma graph_fields:
  "graph_field ''nodes'' j g = map_sum id (\<lambda>x. (x, snd g)) (decode_slice (decode_struct node_field) zero_node j (fst g))"
  "graph_field ''edges'' j g = map_sum id (\<lambda>x. (fst g, x)) (decode_slice (decode_struct edge_field) ([], []) j (snd g))"
  "lower key \<Longrightarrow> key \<notin> {''nodes'', ''edges''} \<Longrightarrow> graph_field key j g = Inr g"
  by (simp_all add: graph_field_def field_def[of _ "''nodes''"] field_def[of _ "''edges''"] field_lower)

lemma allocation_fields: "allocation_field ''graph'' j g = decode_struct graph_field j g"
  by (simp add: allocation_field_def field_def)

lemmas decode_fields = metadata_fields metadata_unknown node_fields edge_fields graph_fields allocation_fields

end
