(* ===== verification/Worker_Job.thy ===== *)
theory Worker_Job
  imports Worker_Env Allocation
begin

text \<open>
  The job worker of \<open>workers/job.go\<close>: it asks Fluxion for an allocation, records a
  reservation, and releases the object (unsuspends a job, queues the ungating of pods) or marks it
  unschedulable.
\<close>

section \<open>Allocations\<close>

fun parse_nodes_loop ::
  "allocNode list \<Rightarrow> (string \<rightharpoonup> nat) \<Rightarrow> string list \<Rightarrow> (string \<rightharpoonup> nat) \<times> string list" where
  "parse_nodes_loop [] nodesWithCores nodes = (nodesWithCores, nodes)"
| "parse_nodes_loop (node # rest) nodesWithCores nodes =
     (if an_Type node = ''node'' then
        (let nodeId = an_Basename node
         in case nodesWithCores nodeId of
              None \<Rightarrow> parse_nodes_loop rest (nodesWithCores(nodeId \<mapsto> 1)) (nodes @ [nodeId])
            | Some n \<Rightarrow> parse_nodes_loop rest (nodesWithCores(nodeId \<mapsto> n + 1)) nodes)
      else parse_nodes_loop rest nodesWithCores nodes)"

definition parseNodes :: "string \<Rightarrow> string list result" where
  "parseNodes allocation =
     (case Unmarshal allocation of
        Inl e \<Rightarrow> Inl e
      | Inr graph \<Rightarrow> Inr (snd (parse_nodes_loop (fst graph) Map.empty [])))"

section \<open>Kubernetes operations\<close>

definition node_labels :: "string list \<Rightarrow> int \<Rightarrow> (string \<times> string) list" where
  "node_labels nodes fluxId = [(NodesLabel, join nodes ''__''), (FluxJobIdLabel, itoa fluxId)]"

definition unsuspendJob ::
  "('q, 'k) kubeOps \<Rightarrow> string \<Rightarrow> string \<Rightarrow> string list \<Rightarrow> int \<Rightarrow> 'k \<Rightarrow> go_error option \<times> 'k" where
  "unsuspendJob K namespace name nodes fluxId k =
     (case ko_newForConfig K of
        Some e \<Rightarrow> (Some e, k)
      | None \<Rightarrow> ko_patchJob K namespace name StrategicMergePatchType (unsuspendPatch (node_labels nodes fluxId)) k)"

definition ungateSet ::
  "('q, 'k) kubeOps \<Rightarrow> string \<Rightarrow> string \<Rightarrow> string list \<Rightarrow> int \<Rightarrow> 'k \<Rightarrow> go_error option \<times> 'k" where
  "ungateSet K namespace name nodes fluxId k =
     (case ko_newForConfig K of
        Some e \<Rightarrow> (Some e, k)
      | None \<Rightarrow> ko_patchStatefulSet K namespace name StrategicMergePatchType (templatePatch (node_labels nodes fluxId)) k)"

definition patchUnsuspend :: "('q, 'k) kubeOps \<Rightarrow> string \<Rightarrow> string \<Rightarrow> 'k \<Rightarrow> go_error option \<times> 'k" where
  "patchUnsuspend K namespace name k = ko_patchJob K namespace name JSONPatchType replaceSuspendPatch k"

text \<open>The call at the end passes \<open>name, namespace\<close> for the parameters \<open>namespace, name\<close>.\<close>

definition rejectJob :: "('q, 'k) kubeOps \<Rightarrow> string \<Rightarrow> string \<Rightarrow> 'k \<Rightarrow> go_error option \<times> 'k" where
  "rejectJob K namespace name k =
     (case ko_newForConfig K of
        Some e \<Rightarrow> (Some e, k)
      | None \<Rightarrow>
         (case ko_patchJob K namespace name StrategicMergePatchType
                 (unsuspendPatch [(UnschedulableLabel, ''yes'')]) k of
            (Some e, k) \<Rightarrow> (Some e, k)
          | (None, k) \<Rightarrow> patchUnsuspend K name namespace k))"

text \<open>The index of the program's gate, 0 when the pod has none.\<close>

fun gate_index :: "int \<Rightarrow> string list \<Rightarrow> int" where
  "gate_index i [] = 0"
| "gate_index i (g # gs) = (if g = SchedulingGateName then i else gate_index (i + 1) gs)"

definition removeGate :: "('q, 'k) kubeOps \<Rightarrow> string \<Rightarrow> string \<Rightarrow> 'k \<Rightarrow> go_error option \<times> 'k" where
  "removeGate K namespace name k =
     (case ko_getPod K namespace name k of
        Inl e \<Rightarrow> (Some e, k)
      | Inr p \<Rightarrow> ko_patchPod K namespace name JSONPatchType (removeGatePatch (gate_index 0 (pod_Gates p))) k)"

definition rejectPod :: "('q, 'k) kubeOps \<Rightarrow> string \<Rightarrow> string \<Rightarrow> 'k \<Rightarrow> go_error option \<times> 'k" where
  "rejectPod K namespace name k =
     (case ko_newForConfig K of
        Some e \<Rightarrow> (Some e, k)
      | None \<Rightarrow>
         (case ko_patchPod K namespace name MergePatchType (labelsPatch [(UnschedulableLabel, ''yes'')]) k of
            (Some e, k) \<Rightarrow> (Some e, k)
          | (None, k) \<Rightarrow> removeGate K namespace name k))"

section \<open>The worker\<close>

definition ungatePod ::
  "workerFaults \<Rightarrow> string \<Rightarrow> string \<Rightarrow> string \<Rightarrow> string list \<Rightarrow> int \<Rightarrow> sys \<Rightarrow> go_error option \<times> sys" where
  "ungatePod f namespace name jobType nodes fluxId s =
     (let insertOpts = \<lparr>io_MaxAttempts = 0, io_Tags = [''ungate''], io_Queue = ''task_queue''\<rparr>;
          args = \<lparr>ua_Name = name, ua_Type = jobType, ua_Namespace = namespace, ua_Nodes = nodes, ua_JobID = fluxId\<rparr>
      in case wf_insert f of
           Some e \<Rightarrow> (Some e, s)
         | None \<Rightarrow> (None, s\<lparr>s_river := s_river s @ [\<lparr>im_Args = AUngate args, im_Opts = insertOpts\<rparr>]\<rparr>))"

text \<open>The result of \<open>ungatePod\<close> is not assigned to \<open>err\<close>, which stays nil.\<close>

definition releaseJob ::
  "('q, 'k) kubeOps \<Rightarrow> workerFaults \<Rightarrow> jobArgs \<Rightarrow> int \<Rightarrow> string list \<Rightarrow> ('k, 'x) world \<Rightarrow>
   go_error option \<times> ('k, 'x) world" where
  "releaseJob K f args fluxID nodes w =
     (if ja_Type args = jobWrapped_String JobWrappedJob then
        (case unsuspendJob K (ja_Namespace args) (ja_Name args) nodes fluxID (w_kube w) of
           (e, k) \<Rightarrow> (e, w\<lparr>w_kube := k\<rparr>))
      else if ja_Type args = jobWrapped_String JobWrappedDeployment
           \<or> ja_Type args = jobWrapped_String JobWrappedPod
           \<or> ja_Type args = jobWrapped_String JobWrappedReplicaSet
           \<or> ja_Type args = jobWrapped_String JobWrappedStatefulSet then
        (None, w\<lparr>w_sys := snd (ungatePod f (ja_Namespace args) (ja_Name args) (ja_Type args) nodes fluxID (w_sys w))\<rparr>)
      else (Some (Errorf (''unknown job type '' @ ja_Type args @ '' passed to fluxion schedule for job '' @
              ja_Namespace args @ ''/'' @ ja_Name args)), w))"

definition markUnschedulable ::
  "('q, 'k) kubeOps \<Rightarrow> jobArgs \<Rightarrow> 'k \<Rightarrow> go_error option \<times> 'k" where
  "markUnschedulable K args k =
     (if ja_Type args = jobWrapped_String JobWrappedJob then rejectJob K (ja_Namespace args) (ja_Name args) k
      else if ja_Type args = jobWrapped_String JobWrappedPod then rejectPod K (ja_Namespace args) (ja_Name args) k
      else (None, k))"

definition reserveJob :: "workerFaults \<Rightarrow> jobArgs \<Rightarrow> int \<Rightarrow> sys \<Rightarrow> go_error option \<times> sys" where
  "reserveJob f args fluxID s =
     (case wf_pool f of Some e \<Rightarrow> (Some (Errorf (''issue creating new pool: '' @ error_text e)), s) | None \<Rightarrow>
      (case wf_reserve f of Some e \<Rightarrow> (Some e, s) | None \<Rightarrow>
       (case AddReservationQuery (ja_Name args) fluxID (db_reservations (s_db s)) of
          Inl e \<Rightarrow> (Some e, s)
        | Inr t \<Rightarrow> (None, s\<lparr>s_db := (s_db s)\<lparr>db_reservations := t\<rparr>\<rparr>))))"

definition JobWorker_Work ::
  "('q, 'k) kubeOps \<Rightarrow> 'x fluxionOps \<Rightarrow> workerFaults \<Rightarrow>
   jobArgs \<Rightarrow> ('k, 'x) world \<Rightarrow> go_error option \<times> ('k, 'x) world" where
  "JobWorker_Work K X f args w =
     (let request = \<lparr>mr_Jobspec = ja_Jobspec args, mr_Reservation = (ja_Reservation args = 1)\<rparr>
      in case fo_NewClient X of
           Some e \<Rightarrow> (Some e, w)
         | None \<Rightarrow>
            (case fo_Match X request (w_fluxion w) of
               (Inl e, x) \<Rightarrow> (Some e, w\<lparr>w_fluxion := x\<rparr>)
             | (Inr response, x) \<Rightarrow>
                (let w = w\<lparr>w_fluxion := x\<rparr>
                 in if ja_Reservation args = 1 \<and> \<not> mp_Reserved response \<and> mp_Allocation response = [] then
                      (Some (JobCancel (Errorf (''fluxion could not allocate nodes for '' @ ja_Namespace args @ ''/'' @
                         ja_Name args @ '', likely Unsatisfiable''))),
                       w\<lparr>w_kube := snd (markUnschedulable K args (w_kube w))\<rparr>)
                    else
                      (let fluxID = mp_Jobid response;
                           w = (if mp_Reserved response
                                then w\<lparr>w_sys := snd (reserveJob f args fluxID (w_sys w))\<rparr> else w)
                       in if mp_Allocation response = [] then
                            (Some (Errorf (''fluxion could not allocate nodes for job '' @ ja_Namespace args @ ''/'' @
                               ja_Name args)), w)
                          else
                            (case parseNodes (mp_Allocation response) of
                               Inl e \<Rightarrow> (Some e, w)
                             | Inr nodes \<Rightarrow> releaseJob K f args fluxID nodes w)))))"

section \<open>Facts\<close>

text \<open>The first occurrences of a list, in order.\<close>

fun firsts :: "'a list \<Rightarrow> 'a list" where
  "firsts [] = []"
| "firsts (x # xs) = x # filter (\<lambda>y. y \<noteq> x) (firsts xs)"

lemma set_firsts [simp]: "set (firsts xs) = set xs"
  by (induction xs) auto

lemma distinct_firsts [simp]: "distinct (firsts xs)"
  by (induction xs) auto

definition node_names :: "allocNode list \<Rightarrow> string list" where
  "node_names ns = map an_Basename (filter (\<lambda>n. an_Type n = ''node'') ns)"

lemma parse_nodes_loop_nodes:
  "dom m = set nodes \<Longrightarrow>
   snd (parse_nodes_loop ns m nodes) = nodes @ filter (\<lambda>x. x \<notin> set nodes) (firsts (node_names ns))"
proof (induction ns arbitrary: m nodes)
  case (Cons n ns)
  show ?case
  proof (cases "an_Type n = ''node'' \<and> an_Basename n \<notin> set nodes")
    case True
    then have "m (an_Basename n) = None" using Cons.prems by (metis domIff)
    moreover have "snd (parse_nodes_loop ns (m(an_Basename n \<mapsto> 1)) (nodes @ [an_Basename n])) =
        (nodes @ [an_Basename n]) @ filter (\<lambda>x. x \<notin> set (nodes @ [an_Basename n])) (firsts (node_names ns))"
      by (intro Cons.IH) (auto simp flip: Cons.prems)
    ultimately show ?thesis using True by (simp add: node_names_def Let_def conj_commute)
  next
    case False
    show ?thesis
    proof (cases "an_Type n = ''node''")
      case True
      with False obtain c where c: "m (an_Basename n) = Some c" using Cons.prems by (metis domD)
      have "snd (parse_nodes_loop ns (m(an_Basename n \<mapsto> c + 1)) nodes) =
          nodes @ filter (\<lambda>x. x \<notin> set nodes) (firsts (node_names ns))"
        using c by (intro Cons.IH) (auto simp flip: Cons.prems split: if_splits)
      moreover have "filter (\<lambda>x. x \<noteq> an_Basename n \<and> x \<notin> set nodes) xs = filter (\<lambda>x. x \<notin> set nodes) xs" for xs
        using False True by (metis)
      ultimately show ?thesis using True False c by (simp add: node_names_def Let_def)
    qed (use Cons in \<open>simp add: node_names_def\<close>)
  qed
qed (simp add: node_names_def)

text \<open>The map beside it counts, per name, the vertices of type node.\<close>

lemma parse_nodes_loop_counts:
  "fst (parse_nodes_loop ns m nodes) x =
     (if x \<in> set (node_names ns) then Some ((case m x of None \<Rightarrow> 0 | Some c \<Rightarrow> c) + count_list (node_names ns) x)
      else m x)"
  by (induction ns arbitrary: m nodes) (auto simp: node_names_def Let_def split: option.splits)

lemma releaseJob_job:
  "ja_Type args = jobWrapped_String JobWrappedJob \<Longrightarrow> ko_newForConfig K = None \<Longrightarrow>
   releaseJob K f args fluxID nodes w =
     (case ko_patchJob K (ja_Namespace args) (ja_Name args) StrategicMergePatchType
             (unsuspendPatch (node_labels nodes fluxID)) (w_kube w) of (e, k) \<Rightarrow> (e, w\<lparr>w_kube := k\<rparr>))"
  by (simp add: releaseJob_def unsuspendJob_def)

definition gated_type :: "string \<Rightarrow> bool" where
  "gated_type t \<longleftrightarrow> t \<in> {jobWrapped_String JobWrappedDeployment, jobWrapped_String JobWrappedPod,
     jobWrapped_String JobWrappedReplicaSet, jobWrapped_String JobWrappedStatefulSet}"

lemma gated_type_not_job [simp]: "gated_type t \<Longrightarrow> t \<noteq> jobWrapped_String JobWrappedJob"
  by (auto simp: gated_type_def jobWrapped_defs)

lemma releaseJob_gated:
  "gated_type (ja_Type args) \<Longrightarrow> releaseJob K f args fluxID nodes w =
     (None, w\<lparr>w_sys := snd (ungatePod f (ja_Namespace args) (ja_Name args) (ja_Type args) nodes fluxID (w_sys w))\<rparr>)"
  using gated_type_not_job[of "ja_Type args"] by (auto simp: releaseJob_def gated_type_def)

section \<open>A small allocation\<close>

text \<open>A cluster vertex and three node vertices, two of them with one name; used to evaluate the properties.\<close>

definition ex_vertex :: "string \<Rightarrow> string \<Rightarrow> json" where
  "ex_vertex ty n = JObj [(''id'', JStr ''0''), (''metadata'', JObj [(''type'', JStr ty), (''basename'', JStr n)])]"

definition ex_alloc :: json where
  "ex_alloc = JObj [(''graph'', JObj [(''nodes'', JArr [ex_vertex ''cluster'' ''c'', ex_vertex ''node'' ''n0'',
     ex_vertex ''node'' ''n1'', ex_vertex ''node'' ''n0'']), (''edges'', JArr [])])]"

definition ex_text :: string where
  "ex_text = write_indent [] 0 ex_alloc"

lemma ex_read: "json_read ex_text = Inr ex_alloc"
  unfolding ex_text_def
  by (rule json_read_write) (simp_all add: ex_alloc_def ex_vertex_def max_depth_def blank_def)

lemma ex_Unmarshal:
  "Unmarshal ex_text = Inr (map (\<lambda>(t, n). zero_node\<lparr>an_ID := ''0'', an_Type := t, an_Basename := n\<rparr>)
     [(''cluster'', ''c''), (''node'', ''n0''), (''node'', ''n1''), (''node'', ''n0'')], [])"
  by (simp add: Unmarshal_def ex_read)
     (simp add: ex_alloc_def ex_vertex_def decode_struct_def allocation_field_def graph_field_def node_field_def
        metadata_field_def field_def decode_slice_def decode_string_def)

definition ex_args :: "jobWrapped \<Rightarrow> int32 \<Rightarrow> jobArgs" where
  "ex_args ty res = \<lparr>ja_Jobspec = ''spec'', ja_Name = ''j'', ja_Namespace = ''ns'', ja_FluxJobName = ''j-job'',
     ja_Type = jobWrapped_String ty, ja_Reservation = res, ja_Duration = 0, ja_Size = 2, ja_Nodes = []\<rparr>"

definition ex_resp :: "string \<Rightarrow> matchResponse" where
  "ex_resp alloc = \<lparr>mp_Allocation = alloc, mp_Reserved = False, mp_Jobid = 7\<rparr>"

definition ex_world :: "(kubeCall list, fluxionCall list) world" where
  "ex_world = \<lparr>w_sys = ex_sys, w_kube = [], w_fluxion = []\<rparr>"

definition ex_fluxion :: "string \<Rightarrow> fluxionCall list fluxionOps" where
  "ex_fluxion alloc = log_fluxion (Inr (ex_resp alloc)) (\<lambda>_. None)"

definition ex_kube :: "(int, kubeCall list) kubeOps" where
  "ex_kube = log_kube (\<lambda>_. None) (\<lambda>_ n. Inl (NotFound n)) (\<lambda>_ _. ([], None))"

lemmas ex_worker_defs = ex_args_def ex_resp_def ex_world_def ex_fluxion_def ex_kube_def log_fluxion_def log_kube_def
  no_workerFaults_def gated_type_def

lemma ex_nodes: "parseNodes ex_text = Inr [''n0'', ''n1'']" "ex_text \<noteq> []"
  by (simp_all add: parseNodes_def ex_Unmarshal Let_def) (simp add: ex_text_def ex_alloc_def)

section \<open>Properties\<close>

text \<open>C25: the nodes parsed from an allocation are the base names of its vertices of type node, each
  once, in the order they first occur.\<close>
theorem parseNodes_first_occurrences:
  "parseNodes allocation =
     map_sum id (\<lambda>graph. firsts (node_names (fst graph))) (Unmarshal allocation) \<and>
   (\<forall>nodes. parseNodes allocation = Inr nodes \<longrightarrow> distinct nodes)"
  by (auto simp: parseNodes_def parse_nodes_loop_nodes split: sum.splits)

theorem parseNodes_first_occurrences_witness:
  "parseNodes ex_text = Inr [''n0'', ''n1''] \<and> distinct [''n0'', ''n1'']"
  using parseNodes_first_occurrences[of ex_text]
  by (simp add: ex_Unmarshal node_names_def)

text \<open>Parsing the nodes ends on every text that Fluxion may send: the reader consumes it within
  \<open>2 * length allocation + 1\<close> steps, more fuel gives the same result, and the result of
  \<open>parseNodes\<close> is the one read, an error or the nodes.\<close>

lemma parseNodes_terminates:
  assumes "2 * length allocation < n"
  shows "\<exists>r. read_value n max_depth allocation = Some r \<and>
    parseNodes allocation =
      (case r of
         Inl e \<Rightarrow> Inl e
       | Inr (v, rest) \<Rightarrow>
          if skip_ws rest = [] then map_sum id (\<lambda>graph. firsts (node_names (fst graph))) (decode_struct allocation_field v ([], []))
          else Inl syntax_error)"
proof -
  obtain r where r: "read_value n max_depth allocation = Some r" using read_fuel(1)[OF assms] by auto
  note enough = read_value_enough[OF r]
  then show ?thesis
    using r by (auto simp: parseNodes_def Unmarshal_def json_read_def parse_nodes_loop_nodes split: sum.splits)
qed

text \<open>C23: an allocation for a wrapped pod, deployment, replica set or stateful set ends the work with
  success and one ungate job in the task queue, with the parsed nodes and Fluxion's job id; the
  cluster is not touched.\<close>
theorem JobWorker_queues_ungate:
  assumes "gated_type (ja_Type args)" "fo_NewClient X = None"
    and "fo_Match X \<lparr>mr_Jobspec = ja_Jobspec args, mr_Reservation = (ja_Reservation args = 1)\<rparr> (w_fluxion w) = (Inr resp, x)"
    and "mp_Allocation resp \<noteq> []" "parseNodes (mp_Allocation resp) = Inr nodes" "wf_insert f = None"
  shows "\<exists>w'. JobWorker_Work K X f args w = (None, w') \<and> w_kube w' = w_kube w \<and>
    s_river (w_sys w') = s_river (w_sys w) @
      [\<lparr>im_Args = AUngate \<lparr>ua_Name = ja_Name args, ua_Type = ja_Type args, ua_Namespace = ja_Namespace args,
                            ua_Nodes = nodes, ua_JobID = mp_Jobid resp\<rparr>,
        im_Opts = \<lparr>io_MaxAttempts = 0, io_Tags = [''ungate''], io_Queue = ''task_queue''\<rparr>\<rparr>]"
  using assms
  by (simp add: JobWorker_Work_def releaseJob_gated ungatePod_def reserveJob_def Let_def
      split: option.splits sum.splits)

theorem JobWorker_queues_ungate_witness:
  "\<exists>w'. JobWorker_Work ex_kube (ex_fluxion ex_text) no_workerFaults
      (ex_args JobWrappedPod 0) ex_world = (None, w') \<and> w_kube w' = [] \<and>
    map im_Args (s_river (w_sys w')) =
      [AUngate \<lparr>ua_Name = ''j'', ua_Type = jobWrapped_String JobWrappedPod, ua_Namespace = ''ns'',
                ua_Nodes = [''n0'', ''n1''], ua_JobID = 7\<rparr>]"
  using JobWorker_queues_ungate[of "ex_args JobWrappedPod 0" "ex_fluxion ex_text" ex_world "ex_resp ex_text"
      "[CMatch \<lparr>mr_Jobspec = ''spec'', mr_Reservation = False\<rparr>]" "[''n0'', ''n1'']"
      no_workerFaults ex_kube] ex_nodes
  by (auto simp: ex_worker_defs ex_sys_def)

text \<open>C24: an allocation for a wrapped job unsuspends it with one patch, addressed to the job, that
  labels its pod template with the joined nodes and Fluxion's job id, and the result of the patch is the
  result of the work.\<close>
theorem JobWorker_unsuspends:
  assumes "ja_Type args = jobWrapped_String JobWrappedJob" "fo_NewClient X = None" "ko_newForConfig K = None"
    and "fo_Match X \<lparr>mr_Jobspec = ja_Jobspec args, mr_Reservation = (ja_Reservation args = 1)\<rparr> (w_fluxion w) = (Inr resp, x)"
    and "mp_Allocation resp \<noteq> []" "parseNodes (mp_Allocation resp) = Inr nodes"
    and "ko_patchJob K (ja_Namespace args) (ja_Name args) StrategicMergePatchType
           (unsuspendPatch [(NodesLabel, join nodes ''__''), (FluxJobIdLabel, itoa (mp_Jobid resp))]) (w_kube w) = (e, k)"
  shows "\<exists>w'. JobWorker_Work K X f args w = (e, w') \<and> w_kube w' = k \<and>
    s_river (w_sys w') = s_river (w_sys w)"
  using assms
  by (simp add: JobWorker_Work_def releaseJob_job reserveJob_def node_labels_def Let_def
      split: option.splits sum.splits)

theorem JobWorker_unsuspends_witness:
  "\<exists>w'. JobWorker_Work ex_kube (ex_fluxion ex_text) no_workerFaults
      (ex_args JobWrappedJob 0) ex_world = (None, w') \<and>
    w_kube w' = [KPatchJob ''ns'' ''j'' StrategicMergePatchType
      (unsuspendPatch [(NodesLabel, ''n0__n1''), (FluxJobIdLabel, itoa 7)])] \<and> s_river (w_sys w') = []"
  using JobWorker_unsuspends[of "ex_args JobWrappedJob 0" "ex_fluxion ex_text" ex_kube ex_world "ex_resp ex_text"
      "[CMatch \<lparr>mr_Jobspec = ''spec'', mr_Reservation = False\<rparr>]" "[''n0'', ''n1'']" None
      "[KPatchJob ''ns'' ''j'' StrategicMergePatchType
      (unsuspendPatch [(NodesLabel, ''n0__n1''), (FluxJobIdLabel, itoa 7)])]" no_workerFaults] ex_nodes
  by (auto simp: ex_worker_defs ex_sys_def)

text \<open>A failed insert of the ungate job is dropped: the work reports success although no ungate
  job exists, so the pods stay gated while Fluxion holds their allocation.\<close>

lemma JobWorker_loses_failed_ungate:
  assumes "gated_type (ja_Type args)" "fo_NewClient X = None"
    and "fo_Match X \<lparr>mr_Jobspec = ja_Jobspec args, mr_Reservation = (ja_Reservation args = 1)\<rparr> (w_fluxion w) = (Inr resp, x)"
    and "mp_Allocation resp \<noteq> []" "parseNodes (mp_Allocation resp) = Inr nodes" "wf_insert f = Some err"
  shows "\<exists>w'. JobWorker_Work K X f args w = (None, w') \<and> w_kube w' = w_kube w \<and>
    s_river (w_sys w') = s_river (w_sys w)"
  using assms
  by (simp add: JobWorker_Work_def releaseJob_gated ungatePod_def reserveJob_def Let_def
      split: option.splits sum.splits)

text \<open>Without an allocation the work of a job that did not ask for a reservation fails with an
  error that lets river run it again, and neither the cluster nor the river queue changes.\<close>

lemma JobWorker_retries_without_allocation:
  assumes "ja_Reservation args \<noteq> 1" "fo_NewClient X = None"
    and "fo_Match X \<lparr>mr_Jobspec = ja_Jobspec args, mr_Reservation = False\<rparr> (w_fluxion w) = (Inr resp, x)"
    and "mp_Allocation resp = []"
  shows "\<exists>m w'. JobWorker_Work K X f args w = (Some (Errorf m), w') \<and> w_kube w' = w_kube w \<and>
    s_river (w_sys w') = s_river (w_sys w)"
  using assms by (simp add: JobWorker_Work_def reserveJob_def Let_def split: option.splits sum.splits)

text \<open>A job that asked for a reservation and got neither that nor an allocation is cancelled in
  river and marked unschedulable. For a wrapped job this sends two patches; the second one swaps name
  and namespace, so it addresses another object.\<close>

lemma JobWorker_rejects_job:
  assumes "ja_Reservation args = 1" "ja_Type args = jobWrapped_String JobWrappedJob"
    and "mp_Allocation resp = []" "\<not> mp_Reserved resp"
  shows "\<exists>e w'. JobWorker_Work (log_kube (\<lambda>_. None) getp listp) (log_fluxion (Inr resp) cancel) f args w =
      (Some (JobCancel e), w') \<and>
    w_kube w' = w_kube w @
      [KPatchJob (ja_Namespace args) (ja_Name args) StrategicMergePatchType (unsuspendPatch [(UnschedulableLabel, ''yes'')]),
       KPatchJob (ja_Name args) (ja_Namespace args) JSONPatchType replaceSuspendPatch]"
  using assms
  by (simp add: JobWorker_Work_def markUnschedulable_def rejectJob_def patchUnsuspend_def
      log_kube_def log_fluxion_def Let_def)

text \<open>C35: the payloads are the JSON values they are meant to be. Each text that the sources build by
  concatenation, the label patches of pods, of the templates of jobs and of stateful sets, the marks on what
  is rejected and the two JSON patches, is read by a JSON reader as the value that the model hands to the
  API server, provided the names of the nodes are printable ASCII without quotes and backslashes.\<close>
theorem payloads_read_back:
  assumes "\<forall>n \<in> set nodes. plain n"
  shows "json_read (''{'' @ quote ''metadata'' @ '': {'' @ quote ''labels'' @ '': {'' @ quote NodesLabel @ '': '' @
     quote (join nodes ''__'') @ '', '' @ quote FluxJobIdLabel @ '': '' @ quote (itoa i) @ ''}}}'') =
       Inr (labelsPatch (node_labels nodes i)) \<and>
   (\<forall>n \<in> set nodes. json_read (''{'' @ quote ''metadata'' @ '': {'' @ quote ''labels'' @ '': {'' @ quote NodesLabel @ '': '' @
     quote n @ '', '' @ quote FluxJobIdLabel @ '': '' @ quote (itoa i) @ ''}}}'') =
       Inr (labelsPatch [(NodesLabel, n), (FluxJobIdLabel, itoa i)])) \<and>
   json_read (''{'' @ quote ''spec'' @ '': {'' @ quote ''suspend'' @ '': false, '' @ quote ''template'' @ '': {'' @
     quote ''metadata'' @ '': {'' @ quote ''labels'' @ '': {'' @ quote NodesLabel @ '': '' @
     quote (join nodes ''__'') @ '', '' @ quote FluxJobIdLabel @ '': '' @ quote (itoa i) @ ''}}}}}'') =
       Inr (unsuspendPatch (node_labels nodes i)) \<and>
   json_read (''{'' @ quote ''spec'' @ '': {'' @ quote ''template'' @ '': {'' @
     quote ''metadata'' @ '': {'' @ quote ''labels'' @ '': {'' @ quote NodesLabel @ '': '' @
     quote (join nodes ''__'') @ '', '' @ quote FluxJobIdLabel @ '': '' @ quote (itoa i) @ ''}}}}}'') =
       Inr (templatePatch (node_labels nodes i)) \<and>
   json_read (''{'' @ quote ''metadata'' @ '': {'' @ quote ''labels'' @ '': {'' @ quote UnschedulableLabel @ '': '' @
     quote ''yes'' @ ''}}}'') = Inr (labelsPatch [(UnschedulableLabel, ''yes'')]) \<and>
   json_read (''{'' @ quote ''spec'' @ '': {'' @ quote ''suspend'' @ '': false, '' @ quote ''template'' @ '': {'' @
     quote ''metadata'' @ '': {'' @ quote ''labels'' @ '': {'' @ quote UnschedulableLabel @ '': '' @
     quote ''yes'' @ ''}}}}}'') = Inr (unsuspendPatch [(UnschedulableLabel, ''yes'')]) \<and>
   json_read (''[{'' @ quote ''op'' @ '': '' @ quote ''remove'' @ '', '' @ quote ''path'' @ '': '' @
     quote (''/spec/schedulingGates/'' @ itoa j) @ ''}]'') = Inr (removeGatePatch j) \<and>
   json_read (''[{'' @ quote ''op'' @ '': '' @ quote ''replace'' @ '', '' @ quote ''path'' @ '': '' @
     quote ''/spec/suspend'' @ '', '' @ quote ''value'' @ '': null}]'') = Inr replaceSuspendPatch"
proof -
  have names: "plain ''__''" "plain ''metadata''" "plain ''labels''" "plain ''spec''" "plain ''suspend''" "plain ''template''"
    "plain ''yes''" "plain ''op''" "plain ''path''" "plain ''value''" "plain ''remove''" "plain ''replace''" "plain ''/spec/suspend''"
    "plain ''/spec/schedulingGates/''" "plain NodesLabel" "plain FluxJobIdLabel" "plain UnschedulableLabel"
    by (simp_all add: plain_def label_name_defs)
  have ok: "plain_json max_depth (labelsPatch kvs)" "plain_json max_depth (unsuspendPatch kvs)" "plain_json max_depth (templatePatch kvs)"
    if "\<forall>(k, v) \<in> set kvs. plain k \<and> plain v" for kvs
    using that names by (auto simp: labelsPatch_def unsuspendPatch_def templatePatch_def max_depth_def)
  have pairs: "\<forall>(k, v) \<in> set (node_labels nodes i). plain k \<and> plain v"
    "n \<in> set nodes \<Longrightarrow> \<forall>(k, v) \<in> set [(NodesLabel, n), (FluxJobIdLabel, itoa i)]. plain k \<and> plain v"
    "\<forall>(k, v) \<in> set [(UnschedulableLabel, ''yes'')]. plain k \<and> plain v" for n
    using assms names plain_join[OF assms names(1)] by (auto simp: node_labels_def)
  have "plain (''/spec/schedulingGates/'' @ itoa j)" using names by (simp only: plain_append plain_itoa)
  then have ops: "plain_json max_depth (removeGatePatch j)" "plain_json max_depth replaceSuspendPatch"
    using names by (simp_all add: removeGatePatch_def replaceSuspendPatch_def max_depth_def)
  note read = json_read_render[OF ok(1)[OF pairs(1)]] json_read_render[OF ok(1)[OF pairs(2)]] json_read_render[OF ok(2)[OF pairs(1)]]
    json_read_render[OF ok(3)[OF pairs(1)]] json_read_render[OF ok(1)[OF pairs(3)]] json_read_render[OF ok(2)[OF pairs(3)]]
    json_read_render[OF ops(1)] json_read_render[OF ops(2)]
  show ?thesis
    using read by (simp add: labelsPatch_def unsuspendPatch_def templatePatch_def removeGatePatch_def replaceSuspendPatch_def node_labels_def)
qed

theorem payloads_read_back_witness:
  "json_read (''{'' @ quote ''metadata'' @ '': {'' @ quote ''labels'' @ '': {'' @ quote NodesLabel @ '': '' @
     quote ''n0__n1'' @ '', '' @ quote FluxJobIdLabel @ '': '' @ quote (itoa 7) @ ''}}}'') =
   Inr (labelsPatch (node_labels [''n0'', ''n1''] 7))"
proof -
  have "\<forall>n \<in> set [''n0'', ''n1'']. plain n" by (simp add: plain_def)
  from payloads_read_back[OF this, of 7, THEN conjunct1] show ?thesis by simp
qed

end
