(* ===== verification/Worker_Ungate.thy ===== *)
theory Worker_Ungate
  imports Worker_Job
begin

text \<open>
  The ungate worker of \<open>workers/ungate.go\<close>: it writes the node assignment and the flux job
  id into the labels of the pods of a released object and removes their scheduling gate.
\<close>

section \<open>Definitions\<close>

text \<open>The inner loop that looks for the program's gate; \<open>ungated\<close> is its negation.\<close>

fun has_gate :: "string list \<Rightarrow> bool" where
  "has_gate [] = False"
| "has_gate (g # gs) = (if g = SchedulingGateName then True else has_gate gs)"

definition ungate_selector :: "ungateArgs \<Rightarrow> string" where
  "ungate_selector args =
     (if ua_Type args = jobWrapped_String JobWrappedDeployment then
        SelectorLabel @ ''=deployment-'' @ ua_Name args @ ''-'' @ ua_Namespace args
      else if ua_Type args = jobWrapped_String JobWrappedReplicaSet then
        SelectorLabel @ ''=replicaset-'' @ ua_Name args @ ''-'' @ ua_Namespace args
      else if ua_Type args = jobWrapped_String JobWrappedStatefulSet then
        SelectorLabel @ ''=statefulset-'' @ ua_Name args @ ''-'' @ ua_Namespace args
      else [])"

text \<open>
  The loop over the listed pods, \<open>i\<close> the index and \<open>n\<close> the number of listed pods. The
  guard compares the index with the number of pods, so it never breaks, and
  \<open>job.Args.Nodes[i]\<close> panics when there are more pods than nodes. A run that panics has already
  written to the pods before, so the state of the cluster is a result beside the panic.
\<close>

fun ungate_loop ::
  "('q, 'k) kubeOps \<Rightarrow> ungateArgs \<Rightarrow> nat \<Rightarrow> nat \<Rightarrow> 'q pod list \<Rightarrow> 'k \<Rightarrow> go_error option go \<times> 'k" where
  "ungate_loop K args n i [] k = (Ret None, k)"
| "ungate_loop K args n i (p # ps) k =
     (if i \<ge> n then (Ret None, k)
      else if \<not> has_gate (pod_Gates p) then ungate_loop K args n (Suc i) ps k
      else if i \<ge> length (ua_Nodes args) then (Panic ''index out of range'', k)
      else
        (case ko_patchPod K (ua_Namespace args) (pod_Name p) MergePatchType
                (labelsPatch [(NodesLabel, ua_Nodes args ! i), (FluxJobIdLabel, itoa (ua_JobID args))]) k of
           (Some e, k) \<Rightarrow> (Ret (Some e), k)
         | (None, k) \<Rightarrow>
            (case removeGate K (pod_Namespace p) (pod_Name p) k of
               (Some e, k) \<Rightarrow> (Ret (Some e), k)
             | (None, k) \<Rightarrow> ungate_loop K args n (Suc i) ps k)))"

definition UngateWorker_Work :: "('q, 'k) kubeOps \<Rightarrow> ungateArgs \<Rightarrow> 'k \<Rightarrow> go_error option go \<times> 'k" where
  "UngateWorker_Work K args k =
     (case ko_newForConfig K of
        Some e \<Rightarrow> (Ret (Some e), k)
      | None \<Rightarrow>
         (if ua_Type args = jobWrapped_String JobWrappedPod then
            (case ko_patchPod K (ua_Namespace args) (ua_Name args) MergePatchType
                    (labelsPatch (node_labels (ua_Nodes args) (ua_JobID args))) k of
               (Some e, k) \<Rightarrow> (Ret (Some e), k)
             | (None, k) \<Rightarrow> (case removeGate K (ua_Namespace args) (ua_Name args) k of (e, k) \<Rightarrow> (Ret e, k)))
          else
            (case ko_listPods K (ua_Namespace args) (ungate_selector args) k of
               (_, Some e) \<Rightarrow> (Ret (Some e), k)
             | (items, None) \<Rightarrow>
                (case ungate_loop K args (length items) 0 items k of
                   (Panic m, k) \<Rightarrow> (Panic m, k)
                 | (Ret (Some e), k) \<Rightarrow> (Ret (Some e), k)
                 | (Ret None, k) \<Rightarrow>
                    (if length items < length (ua_Nodes args)
                     then (Ret (Some (Errorf ''ungate pods job did not have all pods'')), k)
                     else (Ret None, k))))))"

section \<open>Gates\<close>

lemma has_gate_iff: "has_gate gs \<longleftrightarrow> SchedulingGateName \<in> set gs"
  by (induction gs) auto

lemma gate_index_absent: "SchedulingGateName \<notin> set gs \<Longrightarrow> gate_index i gs = 0"
  by (induction gs arbitrary: i) auto

lemma gate_index_split:
  "SchedulingGateName \<notin> set xs \<Longrightarrow> gate_index i (xs @ SchedulingGateName # ys) = i + int (length xs)"
  by (induction xs arbitrary: i) auto

lemma gate_index_nonneg: "0 \<le> i \<Longrightarrow> 0 \<le> gate_index i gs"
  by (induction gs arbitrary: i) auto

text \<open>The gate the patch removes: the first gate of the program, else the pod's first gate.\<close>

lemma gates_after_removal:
  "take (nat (gate_index 0 gs)) gs @ drop (Suc (nat (gate_index 0 gs))) gs =
     (if SchedulingGateName \<in> set gs then remove1 SchedulingGateName gs else tl gs)"
proof (cases "SchedulingGateName \<in> set gs")
  case True
  then obtain xs ys where "gs = xs @ SchedulingGateName # ys" "SchedulingGateName \<notin> set xs"
    by (metis split_list_first)
  then show ?thesis by (simp add: gate_index_split remove1_append)
next
  case False
  then show ?thesis by (simp add: gate_index_absent drop_Suc)
qed

lemma gate_index_range: "gs \<noteq> [] \<Longrightarrow> 0 \<le> gate_index 0 gs \<and> gate_index 0 gs < int (length gs)"
proof (cases "SchedulingGateName \<in> set gs")
  case True
  then obtain xs ys where "gs = xs @ SchedulingGateName # ys" "SchedulingGateName \<notin> set xs"
    by (metis split_list_first)
  then show ?thesis by (simp add: gate_index_split)
qed (simp add: gate_index_absent)

text \<open>A pod after its labels were patched and its gate removed.\<close>

definition ungated_pod :: "(string \<times> string) list \<Rightarrow> 'q pod \<Rightarrow> 'q pod" where
  "ungated_pod kvs p = drop_gate (nat (gate_index 0 (pod_Gates p))) (set_labels kvs p)"

definition ungate_result :: "ungateArgs \<Rightarrow> nat \<Rightarrow> 'q pod \<Rightarrow> 'q pod" where
  "ungate_result args i p =
     (if has_gate (pod_Gates p)
      then ungated_pod [(NodesLabel, ua_Nodes args ! i), (FluxJobIdLabel, itoa (ua_JobID args))] p
      else p)"

lemma set_labels_simps [simp]:
  "pod_Gates (set_labels kvs p) = pod_Gates p" "pod_Name (set_labels kvs p) = pod_Name p"
  "pod_Namespace (set_labels kvs p) = pod_Namespace p"
  by (simp_all add: set_labels_def)

lemma ungated_pod_gates:
  "pod_Gates (ungated_pod kvs p) =
     (if SchedulingGateName \<in> set (pod_Gates p) then remove1 SchedulingGateName (pod_Gates p)
      else tl (pod_Gates p))"
  using gates_after_removal[of "pod_Gates p"] by (simp add: ungated_pod_def drop_gate_def)

lemma ungated_pod_labels [simp]:
  "pod_Labels (ungated_pod [(NodesLabel, v), (FluxJobIdLabel, j)] p) =
     Some ((label_init (pod_Labels p))(NodesLabel \<mapsto> v, FluxJobIdLabel \<mapsto> j))"
  by (simp add: ungated_pod_def drop_gate_def set_labels_def fun_upd_twist)

lemma ungated_pod_other_labels:
  "k \<noteq> NodesLabel \<Longrightarrow> k \<noteq> FluxJobIdLabel \<Longrightarrow>
   label_get (pod_Labels (ungated_pod [(NodesLabel, v), (FluxJobIdLabel, j)] p)) k = label_get (pod_Labels p) k"
  by simp

section \<open>The worker on a server that keeps its contract\<close>

context kube_api
begin

lemma removeGate_ok:
  assumes "removeGate K ns n k = (None, k')" "\<And>p. pods k (ns, n) = Some p \<Longrightarrow> length (pod_Gates p) < 2 ^ 63"
  shows "\<exists>p. pods k (ns, n) = Some p \<and> pod_Gates p \<noteq> [] \<and>
    pods k' = (pods k)((ns, n) \<mapsto> drop_gate (nat (gate_index 0 (pod_Gates p))) p)"
proof -
  obtain p where get: "ko_getPod K ns n k = Inr p" and
    patch: "ko_patchPod K ns n JSONPatchType (removeGatePatch (gate_index 0 (pod_Gates p))) k = (None, k')"
    using assms(1) by (auto simp: removeGate_def split: sum.splits)
  have p: "pods k (ns, n) = Some p" using get by (rule get_ok)
  from patch_ok[OF patch] p obtain p' where
    aft: "after JSONPatchType (removeGatePatch (gate_index 0 (pod_Gates p))) p = Inr p'" and
    pods': "pods k' = (pods k)((ns, n) \<mapsto> p')" by auto
  let ?i = "nat (gate_index 0 (pod_Gates p))"
  have i: "int ?i = gate_index 0 (pod_Gates p)"
    by (simp add: gate_index_nonneg)
  have "?i < 2 ^ 63"
    using gate_index_range[of "pod_Gates p"] assms(2)[OF p] by (cases "pod_Gates p = []") auto
  from after_removeGate[OF this, of p] aft have "?i < length (pod_Gates p)" "p' = drop_gate ?i p"
    unfolding i by (simp_all split: if_splits)
  with p pods' show ?thesis by auto
qed

lemma ungate_one:
  assumes "ko_patchPod K ns n MergePatchType (labelsPatch kvs) k = (None, k1)"
    and "removeGate K ns n k1 = (None, k2)" "pods k (ns, n) = Some p" "length (pod_Gates p) < 2 ^ 63"
  shows "pods k2 = (pods k)((ns, n) \<mapsto> ungated_pod kvs p) \<and> pod_Gates p \<noteq> []"
proof -
  have k1: "pods k1 = (pods k)((ns, n) \<mapsto> set_labels kvs p)"
    using patch_ok[OF assms(1)] assms(3) after_labels by auto
  with assms(4) removeGate_ok[OF assms(2)] show ?thesis
    by (auto simp: ungated_pod_def)
qed

text \<open>The run for a single pod.\<close>

lemma ungate_single:
  assumes "ua_Type u = jobWrapped_String JobWrappedPod" "pods k (ua_Namespace u, ua_Name u) = Some p"
    and "length (pod_Gates p) < 2 ^ 63" "UngateWorker_Work K u k = (Ret None, k')"
  shows "pods k' = (pods k)((ua_Namespace u, ua_Name u) \<mapsto> ungated_pod (node_labels (ua_Nodes u) (ua_JobID u)) p) \<and>
    pod_Gates p \<noteq> []"
proof -
  from assms(1,4) obtain k1 where
    "ko_patchPod K (ua_Namespace u) (ua_Name u) MergePatchType (labelsPatch (node_labels (ua_Nodes u) (ua_JobID u))) k = (None, k1)"
    "removeGate K (ua_Namespace u) (ua_Name u) k1 = (None, k')"
    by (auto simp: UngateWorker_Work_def split: option.splits prod.splits)
  from ungate_one[OF this assms(2,3)] show ?thesis by simp
qed

text \<open>
  One step of the loop: the pod at the front is replaced by its result, and the loop goes on.
\<close>

lemma ungate_loop_step:
  assumes "ungate_loop K args n i (p # ps) k = (Ret None, k')" "i < n"
    and "pod_Namespace p = ua_Namespace args" "pods k (ua_Namespace args, pod_Name p) = Some p"
    and "length (pod_Gates p) < 2 ^ 63"
  obtains k2 where "ungate_loop K args n (Suc i) ps k2 = (Ret None, k')"
    "pods k2 = (pods k)((ua_Namespace args, pod_Name p) \<mapsto> ungate_result args i p)"
    "has_gate (pod_Gates p) \<longrightarrow> i < length (ua_Nodes args)"
proof (cases "has_gate (pod_Gates p)")
  case False
  with assms show ?thesis by (intro that[of k]) (auto simp: ungate_result_def fun_upd_idem)
next
  case True
  let ?kvs = "[(NodesLabel, ua_Nodes args ! i), (FluxJobIdLabel, itoa (ua_JobID args))]"
  from True assms(1-3) obtain k1 k2 where
    1: "ko_patchPod K (ua_Namespace args) (pod_Name p) MergePatchType (labelsPatch ?kvs) k = (None, k1)" and
    2: "removeGate K (ua_Namespace args) (pod_Name p) k1 = (None, k2)" and
    3: "ungate_loop K args n (Suc i) ps k2 = (Ret None, k')" "i < length (ua_Nodes args)"
    by (auto split: if_splits prod.splits option.splits)
  from ungate_one[OF 1 2 assms(4,5)] 3 True show ?thesis
    by (intro that[of k2]) (auto simp: ungate_result_def)
qed

text \<open>
  One run over the listed pods: the pod at index \<open>i\<close> gets the node at index \<open>i\<close> if it
  was gated, and is left alone otherwise.
\<close>

lemma ungate_loop_ok:
  assumes "ungate_loop K args n i ps k = (Ret None, k')" "n = i + length ps"
    and "\<forall>p \<in> set ps. pod_Namespace p = ua_Namespace args \<and>
           pods k (ua_Namespace args, pod_Name p) = Some p \<and> length (pod_Gates p) < 2 ^ 63"
    and "distinct (map pod_Name ps)"
  shows "(\<forall>j < length ps. pods k' (ua_Namespace args, pod_Name (ps ! j)) = Some (ungate_result args (i + j) (ps ! j))
            \<and> (has_gate (pod_Gates (ps ! j)) \<longrightarrow> i + j < length (ua_Nodes args))) \<and>
    (\<forall>x. (\<forall>p \<in> set ps. x \<noteq> (ua_Namespace args, pod_Name p)) \<longrightarrow> pods k' x = pods k x)"
  using assms
proof (induction ps arbitrary: i k)
  case (Cons p ps)
  let ?ns = "ua_Namespace args"
  have front: "i < n" "pod_Namespace p = ?ns" "pods k (?ns, pod_Name p) = Some p" "length (pod_Gates p) < 2 ^ 63"
    using Cons.prems(2,3) by auto
  obtain k2 where k2: "ungate_loop K args n (Suc i) ps k2 = (Ret None, k')"
    "pods k2 = (pods k)((?ns, pod_Name p) \<mapsto> ungate_result args i p)"
    "has_gate (pod_Gates p) \<longrightarrow> i < length (ua_Nodes args)"
    by (rule ungate_loop_step[OF Cons.prems(1) front])
  have notin: "\<forall>q \<in> set ps. pod_Name p \<noteq> pod_Name q" using Cons.prems(4) by (auto simp: image_iff)
  have IH: "(\<forall>j < length ps. pods k' (?ns, pod_Name (ps ! j)) = Some (ungate_result args (Suc i + j) (ps ! j))
            \<and> (has_gate (pod_Gates (ps ! j)) \<longrightarrow> Suc i + j < length (ua_Nodes args))) \<and>
    (\<forall>x. (\<forall>q \<in> set ps. x \<noteq> (?ns, pod_Name q)) \<longrightarrow> pods k' x = pods k2 x)"
    using Cons.prems notin by (intro Cons.IH[OF k2(1)]) (auto simp: k2(2))
  have first: "pods k' (?ns, pod_Name p) = Some (ungate_result args i p)"
    using conjunct2[OF IH, rule_format, of "(?ns, pod_Name p)"] notin by (auto simp: k2(2))
  have "pods k' (?ns, pod_Name ((p # ps) ! j)) = Some (ungate_result args (i + j) ((p # ps) ! j)) \<and>
      (has_gate (pod_Gates ((p # ps) ! j)) \<longrightarrow> i + j < length (ua_Nodes args))"
    if "j < length (p # ps)" for j
    using that first IH k2(3) by (cases j) auto
  moreover have "pods k' x = pods k x" if "\<forall>q \<in> set (p # ps). x \<noteq> (?ns, pod_Name q)" for x
    using that conjunct2[OF IH, rule_format, of x] by (simp add: k2(2))
  ultimately show ?case by blast
qed simp

end

lemma ungate_loop_panic:
  assumes "\<And>ns n pt pl k. fst (ko_patchPod K ns n pt pl k) = None" "\<And>ns n k. \<exists>p. ko_getPod K ns n k = Inr p"
    and "j < length ps" "has_gate (pod_Gates (ps ! j))" "length (ua_Nodes args) \<le> i + j" "n = i + length ps"
  shows "\<exists>m k'. ungate_loop K args n i ps k = (Panic m, k')"
  using assms(3-6)
proof (induction ps arbitrary: i j k)
  case (Cons p ps)
  have patch: "\<exists>k'. ko_patchPod K ns n pt pl k = (None, k')" for ns n pt pl k
    using assms(1)[of ns n pt pl k] by (metis prod.collapse)
  then have gate: "\<exists>k'. removeGate K ns n k = (None, k')" for ns n k
    using assms(2)[of ns n k] by (auto simp: removeGate_def)
  show ?case
  proof (cases j)
    case 0
    with Cons.prems show ?thesis by simp
  next
    case (Suc j')
    then have "\<exists>m k''. ungate_loop K args n (Suc i) ps k' = (Panic m, k'')" for k'
      using Cons.IH[of j' "Suc i" k'] Cons.prems by simp
    moreover obtain k1 where "ko_patchPod K (ua_Namespace args) (pod_Name p) MergePatchType
        (labelsPatch [(NodesLabel, ua_Nodes args ! i), (FluxJobIdLabel, itoa (ua_JobID args))]) k = (None, k1)"
      using patch by blast
    moreover obtain k2 where "removeGate K (pod_Namespace p) (pod_Name p) k1 = (None, k2)"
      using gate by blast
    ultimately show ?thesis using Cons.prems by auto
  qed
qed simp

section \<open>A small cluster\<close>

text \<open>Two gated pods of a deployment; used to evaluate the properties.\<close>

definition ex_pod :: "string \<Rightarrow> int pod" where
  "ex_pod n = \<lparr>pod_Meta = \<lparr>om_Name = n, om_Namespace = ''ns'', om_Labels = None, om_CreationTimestamp = None\<rparr>,
     pod_Spec = \<lparr>ps_SchedulingGates = [''other'', SchedulingGateName], ps_SchedulerName = SchedulerName,
       ps_ActiveDeadlineSeconds = None, ps_Containers = [], ps_InitContainers = [], ps_Overhead = None\<rparr>,
     pod_ContainerStatuses = [], pod_Resize = []\<rparr>"

definition ex_cluster :: "int mem_cluster" where
  "ex_cluster = \<lparr>mc_order = [''p'', ''q''],
     mc_pods = [(''ns'', ''p'') \<mapsto> ex_pod ''p'', (''ns'', ''q'') \<mapsto> ex_pod ''q''],
     mc_jobs = Map.empty\<rparr>"

definition ex_server :: "(int, int mem_cluster) kubeOps" where
  "ex_server = mem_ops (\<lambda>_ _. True)"

definition ex_ungate :: "jobWrapped \<Rightarrow> string list \<Rightarrow> ungateArgs" where
  "ex_ungate ty nodes = \<lparr>ua_Name = ''p'', ua_Type = jobWrapped_String ty, ua_Namespace = ''ns'',
     ua_Nodes = nodes, ua_JobID = 7\<rparr>"

lemmas ex_cluster_defs = ex_pod_def ex_cluster_def ex_server_def ex_ungate_def mem_ops_def mem_listPods_def
  mem_patchPod_def SchedulingGateName_def jobWrapped_defs

lemma ex_server_api: "kube_api ex_server mc_pods mem_after"
  unfolding ex_server_def by (rule mem.kube_api_axioms)

lemma ex_listed:
  "ko_listPods ex_server (ua_Namespace (ex_ungate ty nodes)) (ungate_selector (ex_ungate ty nodes)) ex_cluster =
     ([ex_pod ''p'', ex_pod ''q''], None)"
  by (simp add: ex_cluster_defs)

section \<open>Properties\<close>

text \<open>C9: when the ungate worker succeeds for a deployment, replica set or stateful set, there were at
  least as many pods as nodes, and each listed pod that was gated carries its own node (the one at its
  index) and the flux job id in its labels and has lost the program's gate; all other pods are as
  before.\<close>
theorem Ungate_assigns_nodes:
  assumes "kube_api K pods after" "ua_Type args \<noteq> jobWrapped_String JobWrappedPod"
    and "ko_listPods K (ua_Namespace args) (ungate_selector args) k = (ps, None)"
    and "\<forall>p \<in> set ps. length (pod_Gates p) < 2 ^ 63"
    and "UngateWorker_Work K args k = (Ret None, k')"
  shows "length (ua_Nodes args) \<le> length ps \<and>
    (\<forall>j < length ps. has_gate (pod_Gates (ps ! j)) \<longrightarrow> j < length (ua_Nodes args) \<and>
       (\<exists>p'. pods k' (ua_Namespace args, pod_Name (ps ! j)) = Some p' \<and>
          label_get (pod_Labels p') NodesLabel = Some (ua_Nodes args ! j) \<and>
          label_get (pod_Labels p') FluxJobIdLabel = Some (itoa (ua_JobID args)) \<and>
          pod_Gates p' = remove1 SchedulingGateName (pod_Gates (ps ! j)))) \<and>
    (\<forall>x. (\<forall>p \<in> set ps. has_gate (pod_Gates p) \<longrightarrow> x \<noteq> (ua_Namespace args, pod_Name p)) \<longrightarrow> pods k' x = pods k x)"
proof -
  let ?ns = "ua_Namespace args"
  from assms(2,3,5) have loop: "ungate_loop K args (length ps) 0 ps k = (Ret None, k')"
    and len: "length (ua_Nodes args) \<le> length ps"
    by (auto simp: UngateWorker_Work_def split: option.splits go.splits prod.splits if_splits)
  have listed: "\<forall>p \<in> set ps. pod_Namespace p = ?ns \<and> pods k (?ns, pod_Name p) = Some p \<and> length (pod_Gates p) < 2 ^ 63"
    using kube_api.list_ok[OF assms(1,3)] assms(4) by blast
  note ok = kube_api.ungate_loop_ok[OF assms(1) loop _ listed kube_api.list_distinct[OF assms(1,3)], simplified]
  have gated: "j < length (ua_Nodes args) \<and> (\<exists>p'. pods k' (?ns, pod_Name (ps ! j)) = Some p' \<and>
          label_get (pod_Labels p') NodesLabel = Some (ua_Nodes args ! j) \<and>
          label_get (pod_Labels p') FluxJobIdLabel = Some (itoa (ua_JobID args)) \<and>
          pod_Gates p' = remove1 SchedulingGateName (pod_Gates (ps ! j)))"
    if "j < length ps" "has_gate (pod_Gates (ps ! j))" for j
    using that conjunct1[OF ok, rule_format, OF that(1)]
    by (simp add: ungate_result_def ungated_pod_gates has_gate_iff)
  have other: "pods k' x = pods k x"
    if x: "\<forall>p \<in> set ps. has_gate (pod_Gates p) \<longrightarrow> x \<noteq> (?ns, pod_Name p)" for x
  proof (cases "\<exists>p \<in> set ps. x = (?ns, pod_Name p)")
    case True
    then obtain j where j: "j < length ps" "x = (?ns, pod_Name (ps ! j))" by (metis in_set_conv_nth)
    then have "\<not> has_gate (pod_Gates (ps ! j))" using x by auto
    then show ?thesis using conjunct1[OF ok, rule_format, OF j(1)] listed j by (simp add: ungate_result_def)
  next
    case False
    then show ?thesis using conjunct2[OF ok] by (cases x) auto
  qed
  from len gated other show ?thesis by blast
qed

theorem Ungate_assigns_nodes_witness:
  "\<exists>k' p'. UngateWorker_Work ex_server (ex_ungate JobWrappedDeployment [''n0'', ''n1'']) ex_cluster = (Ret None, k') \<and>
    mc_pods k' (''ns'', ''q'') = Some p' \<and> label_get (pod_Labels p') NodesLabel = Some ''n1'' \<and>
    pod_Gates p' = [''other'']"
proof -
  have "\<exists>k'. UngateWorker_Work ex_server (ex_ungate JobWrappedDeployment [''n0'', ''n1'']) ex_cluster = (Ret None, k')"
    by (simp add: UngateWorker_Work_def ex_cluster_defs removeGate_def mem_after_labels
        mem_after_removeGate[of 1, simplified])
  then obtain k' where run:
    "UngateWorker_Work ex_server (ex_ungate JobWrappedDeployment [''n0'', ''n1'']) ex_cluster = (Ret None, k')" by blast
  have "ua_Type (ex_ungate JobWrappedDeployment [''n0'', ''n1'']) \<noteq> jobWrapped_String JobWrappedPod"
    "\<forall>p \<in> set [ex_pod ''p'', ex_pod ''q'']. length (pod_Gates p) < 2 ^ 63"
    by (simp_all add: ex_cluster_defs)
  note result = Ungate_assigns_nodes[OF ex_server_api this(1) ex_listed this(2) run]
  from result[THEN conjunct2, THEN conjunct1, rule_format, of 1] run show ?thesis
    by (auto simp: has_gate_iff ex_ungate_def ex_pod_def SchedulingGateName_def)
qed

text \<open>With more gated pods than nodes the ungate worker panics: the loop's guard compares the index
  with the number of pods, not of nodes, and the node list is indexed out of range.\<close>

lemma Ungate_more_pods_than_nodes_panics:
  assumes "ko_newForConfig K = None" "ua_Type args \<noteq> jobWrapped_String JobWrappedPod"
    and "ko_listPods K (ua_Namespace args) (ungate_selector args) k = (ps, None)"
    and "\<And>ns n pt pl k. fst (ko_patchPod K ns n pt pl k) = None" "\<And>ns n k. \<exists>p. ko_getPod K ns n k = Inr p"
    and "j < length ps" "has_gate (pod_Gates (ps ! j))" "length (ua_Nodes args) \<le> j"
  shows "\<exists>m k'. UngateWorker_Work K args k = (Panic m, k')"
proof -
  obtain m k' where "ungate_loop K args (length ps) 0 ps k = (Panic m, k')"
    using ungate_loop_panic[of K j ps args 0 "length ps" k] assms(4-8) by auto
  with assms(1-3) show ?thesis by (simp add: UngateWorker_Work_def)
qed

text \<open>When the ungate worker succeeds for a single pod, the pod carries all nodes, joined, and the
  flux job id in its labels and one gate less: the program's gate if it had it, else its first
  gate.\<close>

lemma Ungate_single_pod:
  assumes "kube_api K pods after" "ua_Type args = jobWrapped_String JobWrappedPod"
    and "pods k (ua_Namespace args, ua_Name args) = Some p" "length (pod_Gates p) < 2 ^ 63"
    and "UngateWorker_Work K args k = (Ret None, k')"
  shows "\<exists>p'. pods k' = (pods k)((ua_Namespace args, ua_Name args) \<mapsto> p') \<and>
    label_get (pod_Labels p') NodesLabel = Some (join (ua_Nodes args) ''__'') \<and>
    label_get (pod_Labels p') FluxJobIdLabel = Some (itoa (ua_JobID args)) \<and>
    pod_Gates p \<noteq> [] \<and>
    pod_Gates p' = (if SchedulingGateName \<in> set (pod_Gates p) then remove1 SchedulingGateName (pod_Gates p)
                    else tl (pod_Gates p))"
  using kube_api.ungate_single[OF assms(1-5)] assms(2-5)
  by (intro exI[of _ "ungated_pod (node_labels (ua_Nodes args) (ua_JobID args)) p"])
     (simp add: node_labels_def ungated_pod_gates)

end
