(* ===== verification/Worker_Cleanup.thy ===== *)
theory Worker_Cleanup
  imports Worker_Env
begin

text \<open>
  The cleanup worker (\<open>workers/cleanup.go\<close>), which cancels a job in Fluxion, and the
  reservation worker (\<open>workers/reservation.go\<close>), which cancels the stored reservations and
  deletes them. Scanning a result set into structs (\<open>pgx.CollectRows\<close> with
  \<open>pgx.RowToStructByName\<close>) is the parameter \<open>collect\<close>; the locale
  \<open>row_to_struct\<close> states what its documentation promises.
\<close>

section \<open>Cleanup\<close>

definition deleteFluxion :: "'x fluxionOps \<Rightarrow> int \<Rightarrow> 'x \<Rightarrow> go_error option \<times> 'x" where
  "deleteFluxion X fluxID x =
     (case fo_NewClient X of
        Some e \<Rightarrow> (Some e, x)
      | None \<Rightarrow>
         (case fo_Cancel X fluxID x of
            (Some e, x) \<Rightarrow> (Some (Errorf (''[Fluxion] Issue with cancel '' @ error_text e)), x)
          | (None, x) \<Rightarrow> (None, x)))"

definition Cleanup :: "'x fluxionOps \<Rightarrow> int \<Rightarrow> 'x \<Rightarrow> go_error option \<times> 'x" where
  "Cleanup X fluxid x = (if fluxid > - 1 then deleteFluxion X fluxid x else (None, x))"

definition CleanupWorker_Work :: "'x fluxionOps \<Rightarrow> cleanupArgs \<Rightarrow> 'x \<Rightarrow> go_error option \<times> 'x" where
  "CleanupWorker_Work X args x = Cleanup X (ca_FluxID args) x"

section \<open>Reservations\<close>

record reservationModel =
  rm_JobId :: int
  rm_Name :: string

text \<open>
  A failed cancel is logged and the next row is taken; a failed delete ends the work with an
  error.
\<close>

fun reservation_loop ::
  "'x fluxionOps \<Rightarrow> workerFaults \<Rightarrow> reservationModel list \<Rightarrow> 'x \<Rightarrow> reservationRow list \<Rightarrow>
   go_error option \<times> 'x \<times> reservationRow list" where
  "reservation_loop X f [] x t = (None, x, t)"
| "reservation_loop X f (item # rows) x t =
     (case fo_Cancel X (rm_JobId item) x of
        (Some e, x') \<Rightarrow> reservation_loop X f rows x' t
      | (None, x') \<Rightarrow>
         (case wf_deleteReservation f (rm_JobId item) of
            Some e \<Rightarrow> (Some e, x', t)
          | None \<Rightarrow> reservation_loop X f rows x' (DeleteSingleReservationsQuery (rm_JobId item) t)))"

definition ReservationWorker_Work ::
  "'x fluxionOps \<Rightarrow> (result_set \<Rightarrow> reservationModel list result) \<Rightarrow> workerFaults \<Rightarrow>
   ('k, 'x) world \<Rightarrow> go_error option \<times> ('k, 'x) world" where
  "ReservationWorker_Work X collect f w =
     (case wf_pool f of Some e \<Rightarrow> (Some e, w) | None \<Rightarrow>
      (case wf_getReservations f of Some e \<Rightarrow> (Some e, w) | None \<Rightarrow>
       (case fo_NewClient X of Some e \<Rightarrow> (Some e, w) | None \<Rightarrow>
        (case collect (GetReservationsQuery (db_reservations (s_db (w_sys w)))) of
           Inl e \<Rightarrow> (Some e, w)
         | Inr rows \<Rightarrow>
            (case reservation_loop X f rows (w_fluxion w) (db_reservations (s_db (w_sys w))) of
               (e, x, t) \<Rightarrow>
                 (e, w\<lparr>w_fluxion := x,
                       w_sys := (w_sys w)\<lparr>s_db := (s_db (w_sys w))\<lparr>db_reservations := t\<rparr>\<rparr>\<rparr>))))))"

section \<open>Row scanning\<close>

locale row_to_struct =
  fixes collect :: "result_set \<Rightarrow> reservationModel list result"
  assumes collect_empty: "rset_rows rs = [] \<Longrightarrow> collect rs = Inr []"
    and collect_mismatch: "rset_rows rs \<noteq> [] \<Longrightarrow> set (rset_columns rs) \<noteq> {''flux_id'', ''name''} \<Longrightarrow>
      \<exists>e. collect rs = Inl e"
    and collect_match: "rset_columns rs = [''name'', ''flux_id''] \<Longrightarrow>
      rset_rows rs = map (\<lambda>r. [SText (rs_name r), SInt (rs_flux_id r)]) (t :: reservationRow list) \<Longrightarrow>
      collect rs = Inr (map (\<lambda>r. \<lparr>rm_JobId = rs_flux_id r, rm_Name = rs_name r\<rparr>) t)"
begin

lemma collect_reservations:
  "(\<exists>e. collect (GetReservationsQuery t) = Inl e) \<longleftrightarrow> t \<noteq> []"
proof (cases "t = []")
  case True
  then show ?thesis using collect_empty[of "GetReservationsQuery t"] by (simp add: GetReservationsQuery_def)
next
  case False
  then show ?thesis using collect_mismatch[of "GetReservationsQuery t"] by (auto simp: GetReservationsQuery_def)
qed

end

text \<open>A scan by column name: every field of the struct has a column and every column a field.\<close>

fun column_value :: "string \<Rightarrow> string list \<Rightarrow> sql_value list \<Rightarrow> sql_value option" where
  "column_value c (d # ds) (v # vs) = (if c = d then Some v else column_value c ds vs)"
| "column_value c _ _ = None"

definition scan_row :: "string list \<Rightarrow> sql_value list \<Rightarrow> reservationModel option" where
  "scan_row cols row =
     (if length cols \<noteq> 2 then None
      else case (column_value ''name'' cols row, column_value ''flux_id'' cols row) of
             (Some (SText n), Some (SInt i)) \<Rightarrow> Some \<lparr>rm_JobId = i, rm_Name = n\<rparr>
           | _ \<Rightarrow> None)"

definition collect_by_name :: "result_set \<Rightarrow> reservationModel list result" where
  "collect_by_name rs =
     (let ms = map (scan_row (rset_columns rs)) (rset_rows rs)
      in if None \<in> set ms then Inl (Errorf ''struct doesn't have corresponding row field'')
         else Inr (map the ms))"

lemma column_value_in: "column_value c cols row = Some v \<Longrightarrow> c \<in> set cols"
  by (induction c cols row rule: column_value.induct) (auto split: if_splits)

lemma scan_row_columns:
  assumes "scan_row cols row = Some m"
  shows "set cols = {''flux_id'', ''name''}"
proof -
  from assms have len: "length cols = 2" and mem: "''name'' \<in> set cols" "''flux_id'' \<in> set cols"
    by (auto simp: scan_row_def split: if_splits option.splits sql_value.splits dest: column_value_in)
  from len obtain a b where "cols = [a, b]"
    by (metis One_nat_def Suc_1 length_0_conv length_Suc_conv)
  with mem show ?thesis by auto
qed

interpretation by_name: row_to_struct collect_by_name
proof (unfold_locales, goal_cases)
  case (1 rs)
  then show ?case by (simp add: collect_by_name_def)
next
  case (2 rs)
  then have "scan_row (rset_columns rs) row = None" for row
    using scan_row_columns by (metis option.exhaust)
  with 2 show ?case by (cases "rset_rows rs") (simp_all add: collect_by_name_def Let_def)
next
  case (3 rs t)
  then show ?case by (auto simp: collect_by_name_def scan_row_def comp_def)
qed

section \<open>The loop over reservations\<close>

text \<open>
  Without a failed delete the loop ends without an error and keeps only rows whose cancel failed.
  \<open>cancels\<close> lists the ids sent to Fluxion.
\<close>

lemma reservation_loop_no_delete_fault:
  assumes "\<And>i. wf_deleteReservation f i = None"
  shows "fst (reservation_loop X f rows x t) = None"
  using assms by (induction X f rows x t rule: reservation_loop.induct) (auto split: prod.splits option.splits)

lemma reservation_loop_subset:
  "set (snd (snd (reservation_loop X f rows x t))) \<subseteq> set t"
proof (induction X f rows x t rule: reservation_loop.induct)
  case (2 X f item rows x t)
  then show ?case
    by (fastforce simp: DeleteSingleReservationsQuery_def split: prod.splits option.splits)
qed simp

lemma reservation_loop_cleared:
  assumes "\<And>i. wf_deleteReservation f i = None" "\<And>i x. fst (fo_Cancel X i x) = None"
    and "\<And>r. r \<in> set t \<Longrightarrow> rs_flux_id r \<in> rm_JobId ` set rows"
  shows "snd (snd (reservation_loop X f rows x t)) = []"
  using assms(3)
proof (induction rows arbitrary: x t)
  case Nil
  then show ?case by (cases t) auto
next
  case (Cons item rows)
  obtain x' where c: "fo_Cancel X (rm_JobId item) x = (None, x')"
    using assms(2)[of "rm_JobId item" x] by (metis prod.collapse)
  have "r \<in> set (DeleteSingleReservationsQuery (rm_JobId item) t) \<Longrightarrow> rs_flux_id r \<in> rm_JobId ` set rows" for r
    using Cons.prems by (auto simp: DeleteSingleReservationsQuery_def)
  then show ?case using Cons.IH assms(1) c by simp
qed

section \<open>Properties\<close>

text \<open>The cleanup worker asks Fluxion to cancel exactly the ids that are not negative, once, and
  reports a failed cancel so that river runs it again.\<close>

lemma CleanupWorker_cancels:
  "CleanupWorker_Work (log_fluxion resp cancel) args log =
     (if 0 \<le> ca_FluxID args
      then (map_option (\<lambda>e. Errorf (''[Fluxion] Issue with cancel '' @ error_text e)) (cancel (ca_FluxID args)),
            log @ [CCancel (ca_FluxID args)])
      else (None, log))"
  by (auto simp: CleanupWorker_Work_def Cleanup_def deleteFluxion_def log_fluxion_def split: option.splits)

text \<open>As long as a reservation is stored, the reservation worker fails before its first cancel: its
  query returns one composite column that does not match the fields of the model. No reservation is
  ever cancelled or deleted by it.\<close>

lemma ReservationWorker_never_clears:
  assumes "row_to_struct collect" "db_reservations (s_db (w_sys w)) \<noteq> []"
  shows "\<exists>e. ReservationWorker_Work X collect f w = (Some e, w)"
proof -
  obtain e where "collect (GetReservationsQuery (db_reservations (s_db (w_sys w)))) = Inl e"
    using row_to_struct.collect_reservations[OF assms(1)] assms(2) by blast
  then show ?thesis by (simp add: ReservationWorker_Work_def split: option.splits)
qed

text \<open>Given the rows of the table, the loop of the reservation worker cancels and deletes: without
  a failed cancel or delete it ends without an error and empties the table.\<close>

lemma reservation_loop_clears_table:
  assumes "\<And>i. wf_deleteReservation f i = None" "\<And>i x. fst (fo_Cancel X i x) = None"
  shows "\<exists>x'. reservation_loop X f (map (\<lambda>r. \<lparr>rm_JobId = rs_flux_id r, rm_Name = rs_name r\<rparr>) t) x t = (None, x', [])"
proof -
  let ?r = "reservation_loop X f (map (\<lambda>r. \<lparr>rm_JobId = rs_flux_id r, rm_Name = rs_name r\<rparr>) t) x t"
  have "fst ?r = None" using assms(1) by (rule reservation_loop_no_delete_fault)
  moreover have "snd (snd ?r) = []"
    by (rule reservation_loop_cleared[OF assms]) (auto simp: image_iff)
  ultimately show ?thesis by (metis prod.collapse)
qed

end
