(* ===== verification/System.thy ===== *)
theory System
  imports Webhook Controller Worker_Ungate Worker_Cleanup
begin

text \<open>
  The operator as a whole. Admission requests (\<open>Handle\<close>), reconciles, pod deletions and the
  four river workers happen in any order and with any faults, each handler as one step. The state is
  the queue's state, the Kubernetes objects and Fluxion as the workers see them, and the cluster's
  FluxJobs as the client of the controller sees them. River may run an inserted job any number of
  times. A run of the ungate worker that panics is a step too: river recovers it, and what it wrote stays.
  The parameters of the handlers are the fields of \<open>operator\<close>.
\<close>

section \<open>Steps\<close>

record ('r, 'q, 'js, 'p, 'x, 'k) operator =
  op_codec :: "('r, 'q) codec"
  op_client :: "'k clientOps"
  op_jobspec :: "'js jobspecOps"
  op_quantity :: "'q quantityOps"
  op_kube :: "('q, 'p) kubeOps"
  op_fluxion :: "'x fluxionOps"
  op_collect :: "result_set \<Rightarrow> reservationModel list result"

definition in_river :: "riverArgs \<Rightarrow> sys \<Rightarrow> bool" where
  "in_river a s \<longleftrightarrow> a \<in> im_Args ` set (s_river s)"

text \<open>The handlers of requests, of reconciles and of river jobs; and with the informer, which reports that a pod
  was deleted.\<close>

inductive handler_step ::
  "('r, 'q, 'js, 'p, 'x, 'k) operator \<Rightarrow> ('p, 'x) world \<times> 'k \<Rightarrow> ('p, 'x) world \<times> 'k \<Rightarrow> bool"
  for E :: "('r, 'q, 'js, 'p, 'x, 'k) operator" where
  webhook: "Handle (op_codec E) (op_client E) (op_jobspec E) (op_quantity E) req k = Ret (r, k') \<Longrightarrow>
    handler_step E (w, k) (w, k')"
| reconcile: "Reconcile (op_client E) f (easy_queue depth) ns n (w_sys w) k = Ret (r, s', k') \<Longrightarrow>
    handler_step E (w, k) (w\<lparr>w_sys := s'\<rparr>, k')"
| job_worker: "in_river (AJob args) (w_sys w) \<Longrightarrow>
    JobWorker_Work (op_kube E) (op_fluxion E) wfs args w = (e, w') \<Longrightarrow>
    handler_step E (w, k) (w', k)"
| ungate_worker: "in_river (AUngate u) (w_sys w) \<Longrightarrow>
    UngateWorker_Work (op_kube E) u (w_kube w) = (e, p) \<Longrightarrow> handler_step E (w, k) (w\<lparr>w_kube := p\<rparr>, k)"
| cleanup_worker: "in_river (ACleanup c) (w_sys w) \<Longrightarrow>
    CleanupWorker_Work (op_fluxion E) c (w_fluxion w) = (e, x) \<Longrightarrow> handler_step E (w, k) (w\<lparr>w_fluxion := x\<rparr>, k)"
| reservation_worker: "in_river AReservation (w_sys w) \<Longrightarrow>
    ReservationWorker_Work (op_fluxion E) (op_collect E) wfs w = (e, w') \<Longrightarrow> handler_step E (w, k) (w', k)"
| clock: "handler_step E (w, k) (w\<lparr>w_sys := (w_sys w)\<lparr>s_db := (s_db (w_sys w))\<lparr>db_now := t\<rparr>\<rparr>\<rparr>, k)"

inductive sys_step ::
  "('r, 'q, 'js, 'p, 'x, 'k) operator \<Rightarrow> ('p, 'x) world \<times> 'k \<Rightarrow> ('p, 'x) world \<times> 'k \<Rightarrow> bool"
  for E :: "('r, 'q, 'js, 'p, 'x, 'k) operator" where
  handler: "handler_step E c c' \<Longrightarrow> sys_step E c c'"
| deletion: "DeleteFunc f (easy_queue depth) (obj :: 'q deletedObj) (w_sys w) = Ret s' \<Longrightarrow>
    sys_step E (w, k) (w\<lparr>w_sys := s'\<rparr>, k)"

section \<open>Jobs are accounted for\<close>

text \<open>The job of a key is pending or was handed to river.\<close>

definition accounted :: "sys \<Rightarrow> key \<Rightarrow> bool" where
  "accounted s key \<longleftrightarrow> key \<in> row_key ` set (db_pending (s_db s)) \<or>
     (\<exists>a. in_river (AJob a) s \<and> job_key a = key)"

definition sys_inv :: "('k \<Rightarrow> (string \<times> string) \<rightharpoonup> fluxJob) \<Rightarrow> sys \<times> 'k \<Rightarrow> bool" where
  "sys_inv jobs = (\<lambda>(s, k). pending_wf (db_pending (s_db s)) \<and>
     (\<forall>ns n j. jobs k (ns, n) = Some j \<longrightarrow> fj_key j = (ns, n) \<and>
        (fj_Status j = SubmitStatusSubmit \<longrightarrow> accounted s (ns, fs_Name (fj_Spec j)))))"

text \<open>Operations that only add rows or river jobs keep what is accounted for.\<close>

definition grows :: "sys \<Rightarrow> sys \<Rightarrow> bool" where
  "grows s s' \<longleftrightarrow> (pending_wf (db_pending (s_db s)) \<longrightarrow> pending_wf (db_pending (s_db s'))) \<and>
     (\<forall>key. accounted s key \<longrightarrow> accounted s' key)"

lemma grows_refl [simp]: "grows s s"
  by (simp add: grows_def)

lemma grows_trans: "grows s t \<Longrightarrow> grows t u \<Longrightarrow> grows s u"
  by (auto simp: grows_def)

lemma grows_append:
  "db_pending (s_db s') = db_pending (s_db s) \<Longrightarrow> s_river s' = s_river s @ ps \<Longrightarrow> grows s s'"
  by (auto simp: grows_def accounted_def in_river_def)

lemma in_river_db [simp]: "in_river a (s\<lparr>s_db := d\<rparr>) = in_river a s"
  by (simp add: in_river_def)

lemma Enqueue_grows: "Enqueue f spec s = (r, s') \<Longrightarrow> grows s s'"
proof -
  assume run: "Enqueue f spec s = (r, s')"
  have "accounted s key \<Longrightarrow> accounted s' key" for key
    using run by (auto simp: Enqueue_eq accounted_def split: option.splits if_splits)
  then show ?thesis using Enqueue_keeps_wf[of s f spec] run by (simp add: grows_def)
qed

lemma Schedule_river_grows:
  assumes "Schedule f (easy_queue depth) s = Ret (e, s')"
  shows "\<exists>ps. s_river s' = s_river s @ ps"
proof (cases "IsInScheduleLoop s")
  case True
  with assms show ?thesis by (simp add: easy.Schedule_busy)
next
  case False
  then show ?thesis
    by (rule easy.Schedule_outcome[where f = f and q = "easy_queue depth"]) (use assms in auto)
qed

lemma Schedule_grows:
  assumes "Schedule f (easy_queue depth) s = Ret (e, s')"
  shows "grows s s'"
proof -
  have "accounted s' key" if "accounted s key" for key
  proof -
    from that consider (row) r where "r \<in> set (db_pending (s_db s))" "row_key r = key"
      | (sent) a where "in_river (AJob a) s" "job_key a = key"
      by (auto simp: accounted_def)
    then show ?thesis
    proof cases
      case row
      with easy.Schedule_no_loss[OF _ assms row(1)] show ?thesis by (force simp: accounted_def in_river_def)
    next
      case sent
      with Schedule_river_grows[OF assms] show ?thesis by (force simp: accounted_def in_river_def)
    qed
  qed
  then show ?thesis using easy.Schedule_keeps_wf[OF _ assms] by (simp add: grows_def)
qed

text \<open>A job that was submitted without an error is accounted for.\<close>

lemma submitJob_grows: "submitJob f (easy_queue depth) spec s = Ret (r, s') \<Longrightarrow> grows s s'"
  by (cases rule: submitJob_cases[where f = f and spec = spec and s = s and depth = depth])
     (auto intro: grows_trans Enqueue_grows Schedule_grows)

lemma submitJob_accounted:
  assumes "submitJob f (easy_queue depth) spec s = Ret ((r, None), s')"
  shows "accounted s' (fj_Namespace spec, fs_Name (fj_Spec spec))"
proof (cases rule: submitJob_cases[where f = f and spec = spec and s = s and depth = depth])
  case (refused st e t)
  with assms show ?thesis by simp
next
  case (queued st t e s'')
  have "accounted t (fj_Namespace spec, fs_Name (fj_Spec spec))"
    using queued(1)
    by (auto simp: Enqueue_eq accounted_def in_river_def enqueue_row_def row_key_def split: option.splits if_splits)
  moreover have "grows t s'" using Schedule_grows[OF queued(2)] queued(3) assms by simp
  ultimately show ?thesis by (simp add: grows_def)
qed

text \<open>The workers leave the pending table alone and only append to river.\<close>

lemma reserveJob_grows: "grows s (snd (reserveJob wfs args i s))"
  by (auto simp: reserveJob_def intro!: grows_append[where ps = "[]"] split: option.splits sum.splits)

lemma ungatePod_grows: "grows s (snd (ungatePod wfs ns n ty nodes i s))"
  by (auto simp: ungatePod_def Let_def intro: grows_append split: option.splits)

lemma JobWorker_grows:
  assumes "JobWorker_Work K X wfs args w = (e, w')"
  shows "grows (w_sys w) (w_sys w')"
proof -
  have release: "releaseJob K wfs args i nodes v = (e, v') \<Longrightarrow> grows (w_sys v) (w_sys v')" for i nodes v e v'
    by (auto simp: releaseJob_def ungatePod_grows split: prod.splits if_splits)
  from assms show ?thesis
    by (auto simp: JobWorker_Work_def Let_def reserveJob_grows split: option.splits prod.splits sum.splits if_splits
        dest!: release intro: grows_trans[OF reserveJob_grows])
qed

lemma ReservationWorker_grows:
  "ReservationWorker_Work X collect wfs w = (e, w') \<Longrightarrow> grows (w_sys w) (w_sys w')"
  by (auto simp: ReservationWorker_Work_def intro!: grows_append[where ps = "[]"]
      split: option.splits sum.splits prod.splits)

lemma DeleteFunc_grows: "DeleteFunc f (easy_queue depth) obj s = Ret s' \<Longrightarrow> grows s s'"
  by (auto simp: DeleteFunc_def queue_Cleanup_easy intro: grows_append
      split: deletedObj.splits option.splits prod.splits if_splits)

section \<open>The invariant\<close>

lemma sys_inv_grows: "sys_inv jobs (s, k) \<Longrightarrow> grows s s' \<Longrightarrow> jobs k' = jobs k \<Longrightarrow> sys_inv jobs (s', k')"
  by (auto simp: sys_inv_def grows_def)

context crd_client
begin

lemma submit_inv:
  assumes "SubmitFluxJob C J Q ty name ns nodes containers k = (e, k')" "sys_inv jobs (s, k)"
  shows "sys_inv jobs (s, k')"
proof -
  from Submit_effect[OF assms(1)] consider "jobs k' = jobs k"
    | (new) j where "submitted ty name ns nodes j" "jobs k' = (jobs k)((ns, GetJobName ty name) \<mapsto> j)" by blast
  then show ?thesis
  proof cases
    case new
    with assms(2) show ?thesis by (auto simp: sys_inv_def submitted_def)
  qed (use assms(2) in \<open>simp add: sys_inv_grows\<close>)
qed

text \<open>Changing the status of a FluxJob keeps the invariant when a submitted one is accounted for.\<close>

lemma status_inv:
  assumes "updateStatus C spec status k = (e, k')" "jobs k (fj_key spec) = Some spec" "sys_inv jobs (s, k)"
    and "status = SubmitStatusSubmit \<longrightarrow> accounted s (fj_Namespace spec, fs_Name (fj_Spec spec))"
  shows "sys_inv jobs (s, k')"
proof (cases "fj_Status spec = status")
  case True
  with assms show ?thesis by (simp add: updateStatus_def)
next
  case False
  with assms(1) have up: "co_UpdateStatus C (spec\<lparr>fj_Status := status\<rparr>) k = (e, k')" by (simp add: updateStatus_def)
  have "jobs k' = jobs k \<or> jobs k' = (jobs k)(fj_key spec \<mapsto> spec\<lparr>fj_Status := status\<rparr>)"
    using up status_ok[of "spec\<lparr>fj_Status := status\<rparr>" k k'] status_fail[of "spec\<lparr>fj_Status := status\<rparr>" k _ k'] assms(2)
    by (cases e) auto
  then show ?thesis
  proof
    assume "jobs k' = jobs k"
    with assms(3) show ?thesis by (simp add: sys_inv_grows)
  next
    assume "jobs k' = (jobs k)(fj_key spec \<mapsto> spec\<lparr>fj_Status := status\<rparr>)"
    with assms(3,4) show ?thesis by (auto simp: sys_inv_def)
  qed
qed

lemma delete_inv:
  assumes "co_Delete C spec k = (e, k')" "sys_inv jobs (s, k)"
  shows "sys_inv jobs (s, k')"
proof -
  have "jobs k' = jobs k \<or> jobs k' = (jobs k)(fj_key spec := None)"
    using assms(1) delete_ok[of spec k k'] delete_fail[of spec k _ k'] by (cases e) auto
  then show ?thesis using assms(2) by (auto simp: sys_inv_def split: if_splits)
qed

lemma reconcile_inv:
  assumes "Reconcile C f (easy_queue depth) ns n s k = Ret (r, s', k')" "sys_inv jobs (s, k)"
  shows "sys_inv jobs (s', k')"
proof (cases "co_Get C ns n k")
  case (Inl e)
  with assms show ?thesis by (auto simp: Reconcile_def split: if_splits)
next
  case (Inr spec)
  have spec: "jobs k (fj_key spec) = Some spec"
    using get_found[OF Inr] assms(2) by (auto simp: sys_inv_def)
  show ?thesis
  proof (cases "fj_Status spec = SubmitStatusSubmit")
    case True
    with assms Inr show ?thesis by (auto simp: Reconcile_def split: prod.splits intro: delete_inv)
  next
    case False
    obtain e t where sub: "submitJob f (easy_queue depth) spec s = Ret ((no_result, e), t)"
      by (cases rule: submitJob_cases[where f = f and spec = spec and s = s and depth = depth]) auto
    have t: "sys_inv jobs (t, k)" using sys_inv_grows[OF assms(2) submitJob_grows[OF sub]] by simp
    from assms(1) Inr False sub show ?thesis
    proof (cases e)
      case None
      with assms(1) Inr False sub obtain x where "updateStatus C spec SubmitStatusSubmit k = (x, k')" "s' = t"
        by (auto simp: Reconcile_def split: prod.splits)
      with status_inv[OF _ spec t] submitJob_accounted sub None show ?thesis by blast
    next
      case (Some y)
      with assms(1) Inr False sub obtain x where "updateStatus C spec SubmitStatusError k = (x, k')" "s' = t"
        by (auto simp: Reconcile_def split: prod.splits)
      with status_inv[OF _ spec t] show ?thesis by auto
    qed
  qed
qed

lemma handler_inv:
  assumes "handler_step E (w, k) (w', k')" "op_client E = C" "sys_inv jobs (w_sys w, k)"
  shows "sys_inv jobs (w_sys w', k')"
  using assms
proof (cases rule: handler_step.cases)
  case (webhook req r)
  have "keeps (\<lambda>k. sys_inv jobs (w_sys w, k)) (Handle (op_codec E) C (op_jobspec E) (op_quantity E) req)"
    by (rule Handle_keeps) (rule submit_inv)
  with webhook assms(2,3) show ?thesis by (auto simp: keeps_def)
next
  case clock
  have "grows (w_sys w) (w_sys w')" unfolding clock by (rule grows_append[where ps = "[]"]) simp_all
  with clock assms(3) show ?thesis by (simp add: sys_inv_grows)
next
  case reconcile
  with reconcile_inv assms(2,3) show ?thesis by auto
qed (use assms(3) in \<open>auto intro: sys_inv_grows dest: JobWorker_grows ReservationWorker_grows\<close>)

lemma step_inv:
  assumes "sys_step E (w, k) (w', k')" "op_client E = C" "sys_inv jobs (w_sys w, k)"
  shows "sys_inv jobs (w_sys w', k')"
  using assms(1) by (cases rule: sys_step.cases)
    (use assms(2,3) in \<open>auto intro: handler_inv sys_inv_grows dest: DeleteFunc_grows\<close>)

lemma reachable_inv:
  assumes "(sys_step E)\<^sup>*\<^sup>* (w, k) (w', k')" "op_client E = C" "sys_inv jobs (w_sys w, k)"
  shows "sys_inv jobs (w_sys w', k')"
  using assms by (induction rule: rtranclp_induct2) (auto dest: step_inv)

end

section \<open>Properties\<close>

definition ex_operator ::
  "(string, int, string, kubeCall list, fluxionCall list, (string \<times> string) \<rightharpoonup> fluxJob) operator" where
  "ex_operator = \<lparr>op_codec = ex_codec, op_client = mem_client, op_jobspec = ex_jobspec, op_quantity = nano_ops,
     op_kube = ex_kube, op_fluxion = ex_fluxion ex_text,
     op_collect = collect_by_name\<rparr>"

text \<open>One reconcile of the FluxJob of \<open>c\<close>.\<close>

definition ex_submitted :: "(string \<times> string) \<rightharpoonup> fluxJob" where
  "ex_submitted = ex_crds((''ns'', ''c-pod'') \<mapsto> (ex_job ''c'')\<lparr>fj_Status := SubmitStatusSubmit\<rparr>)"

lemma ex_operator_client: "op_client ex_operator = mem_client"
  by (simp add: ex_operator_def)

lemma ex_world_sys: "w_sys ex_world = ex_sys"
  by (simp add: ex_world_def)

lemma ex_reconciled:
  "\<exists>s. (sys_step ex_operator)\<^sup>*\<^sup>* (ex_world, ex_crds) (ex_world\<lparr>w_sys := s\<rparr>, ex_submitted) \<and> s_river s \<noteq> []"
proof -
  have "(''ns'', ''c'') \<notin> set (map row_key (db_pending (s_db ex_sys)))"
    by (simp add: row_key_def ex_queue_defs)
  then obtain s where s: "submitJob no_faults (easy_queue 1) (ex_job ''c'') ex_sys = Ret ((no_result, None), s)" "\<exists>p. p \<in> set (s_river s)"
    using submitJob_ok[OF ex_sys_free, of "ex_job ''c''" 1] by (auto simp: ex_job_def)
  from s(1) have "Reconcile mem_client no_faults (easy_queue 1) ''ns'' ''c-pod'' ex_sys ex_crds = Ret ((no_result, None), s, ex_submitted)"
    by (simp add: Reconcile_def updateStatus_def mem_client_def ex_crds_def ex_job_def GetJobName_def jobWrapped_defs
          submitStatus_defs ex_submitted_def)
  then have "(sys_step ex_operator)\<^sup>*\<^sup>* (ex_world, ex_crds) (ex_world\<lparr>w_sys := s\<rparr>, ex_submitted)"
    by (intro r_into_rtranclp sys_step.handler handler_step.reconcile) (simp only: ex_operator_client ex_world_sys)
  with s(2) show ?thesis by auto
qed

text \<open>C4: no submitted job is lost, for every order of admission requests, reconciles, pod deletions and
  worker runs, and for every failure among them: in every reachable state the pending table is well
  formed, and each FluxJob whose status is submit is still pending or was handed to river. At the
  start no FluxJob has that status.\<close>
theorem submitted_jobs_accounted:
  assumes "crd_client (op_client E) jobs" "pending_wf (db_pending (s_db (w_sys w0)))"
    and "\<And>ns n j. jobs k0 (ns, n) = Some j \<Longrightarrow> fj_key j = (ns, n) \<and> fj_Status j \<noteq> SubmitStatusSubmit"
    and "(sys_step E)\<^sup>*\<^sup>* (w0, k0) (w, k)"
  shows "pending_wf (db_pending (s_db (w_sys w))) \<and>
    (\<forall>ns n j. jobs k (ns, n) = Some j \<and> fj_Status j = SubmitStatusSubmit \<longrightarrow>
       accounted (w_sys w) (ns, fs_Name (fj_Spec j)))"
proof -
  have "sys_inv jobs (w_sys w0, k0)" using assms(2,3) by (auto simp: sys_inv_def)
  from crd_client.reachable_inv[OF assms(1,4) refl this] show ?thesis unfolding sys_inv_def by blast
qed

theorem submitted_jobs_accounted_witness:
  "\<exists>w k. (sys_step ex_operator)\<^sup>*\<^sup>* (ex_world, ex_crds) (w, k) \<and>
     k (''ns'', ''c-pod'') = Some ((ex_job ''c'')\<lparr>fj_Status := SubmitStatusSubmit\<rparr>) \<and>
     accounted (w_sys w) (''ns'', ''c'')"
proof -
  obtain s where run: "(sys_step ex_operator)\<^sup>*\<^sup>* (ex_world, ex_crds) (ex_world\<lparr>w_sys := s\<rparr>, ex_submitted)"
    using ex_reconciled by blast
  have "pending_wf (db_pending (s_db (w_sys ex_world)))"
    by (simp add: ex_world_sys pending_wf_def row_key_def ex_queue_defs)
  moreover have "fj_key j = (ns, n) \<and> fj_Status j \<noteq> SubmitStatusSubmit" if "ex_crds (ns, n) = Some j" for ns n j
    using that by (auto simp: ex_crds_def ex_job_def GetJobName_def jobWrapped_defs submitStatus_defs split: if_splits)
  moreover have "crd_client (op_client ex_operator) (\<lambda>k. k)" by (simp add: ex_operator_client mem_crd.crd_client_axioms)
  ultimately have "\<forall>ns n j. ex_submitted (ns, n) = Some j \<and> fj_Status j = SubmitStatusSubmit \<longrightarrow>
      accounted (w_sys (ex_world\<lparr>w_sys := s\<rparr>)) (ns, fs_Name (fj_Spec j))"
    using submitted_jobs_accounted[OF _ _ _ run, of "\<lambda>k. k"] by blast
  from this[rule_format, of "''ns''" "''c-pod''" "(ex_job ''c'')\<lparr>fj_Status := SubmitStatusSubmit\<rparr>"]
  have "accounted s (''ns'', ''c'')" by (simp add: ex_job_def ex_submitted_def)
  with run show ?thesis by (intro exI[of _ "ex_world\<lparr>w_sys := s\<rparr>"] exI[of _ ex_submitted]) (simp add: ex_submitted_def)
qed

end
