(* ===== verification/Scheduler_Plugin.thy ===== *)
theory Scheduler_Plugin
  imports Kube_Types "HOL-Library.List_Lexorder" "HOL-Library.Char_ord"
begin

text \<open>
  The scheduler plugin of \<open>build/scheduler/pkg/scheduler/scheduler.go\<close>: the queue order
  \<open>Less\<close>, the node assignment read from a pod's labels (\<open>PreFilter\<close>) and the
  \<open>Filter\<close> that accepts every node. \<open>corev1helpers.PodPriority\<close>, a function of the
  Kubernetes libraries, is the parameter \<open>prio\<close>. Go compares strings byte by byte, the
  lexicographic order of \<open>HOL-Library.List_Lexorder\<close> on characters.
\<close>

section \<open>Definitions\<close>

datatype fw_code = Success | FwError | UnschedulableAndUnresolvable

record fw_status =
  st_Code :: fw_code
  st_Message :: string

definition getNamespacedName :: "'q pod \<Rightarrow> string" where
  "getNamespacedName p = pod_Namespace p @ ''/'' @ pod_Name p"

definition Less :: "('q pod \<Rightarrow> int) \<Rightarrow> 'q pod \<Rightarrow> 'q pod \<Rightarrow> bool" where
  "Less prio p1 p2 =
     (let prio1 = prio p1; prio2 = prio p2
      in if prio1 \<noteq> prio2 then prio1 > prio2
         else getNamespacedName p1 < getNamespacedName p2)"

definition job_completion_index_label :: string where
  "job_completion_index_label = ''batch.kubernetes.io/job-completion-index''"

fun num_error_msg :: "num_error \<Rightarrow> string" where
  "num_error_msg ErrSyntax = ''invalid syntax''"
| "num_error_msg ErrRange = ''value out of range''"

text \<open>
  \<open>nodes[index]\<close> panics for a negative index, which the guard \<open>index >= len(nodes)\<close>
  does not exclude. The result pairs the set of node names (\<open>nil\<close> is \<open>None\<close>) with the
  status; of the text of an \<open>Atoi\<close> error only its cause is kept.
\<close>

definition PreFilter :: "'q pod \<Rightarrow> (string set option \<times> fw_status) go" where
  "PreFilter p =
     (case label_get (pod_Labels p) UnschedulableLabel of
        Some _ \<Rightarrow> Ret (None, \<lparr>st_Code = UnschedulableAndUnresolvable,
                             st_Message = ''Fluxion cannot find resources''\<rparr>)
      | None \<Rightarrow>
       (case label_get (pod_Labels p) NodesLabel of
          None \<Rightarrow> Ret (None, \<lparr>st_Code = UnschedulableAndUnresolvable,
                             st_Message = ''Pod missing nodes label''\<rparr>)
        | Some nodesLabel \<Rightarrow>
          (let nodes = split nodesLabel ''__'';
               podIndex = (case label_get (pod_Labels p) job_completion_index_label of
                             None \<Rightarrow> ''0'' | Some i \<Rightarrow> i);
               (index, err) = atoi podIndex
           in case err of
                Some e \<Rightarrow> Ret (None, \<lparr>st_Code = UnschedulableAndUnresolvable,
                                      st_Message = num_error_msg e\<rparr>)
              | None \<Rightarrow>
                (if index \<ge> int (length nodes)
                 then Ret (None, \<lparr>st_Code = FwError, st_Message = ''Not enough nodes for pod''\<rparr>)
                 else if index < 0 then Panic ''index out of range''
                 else Ret (Some {nodes ! nat index},
                           \<lparr>st_Code = Success, st_Message = ''Fluxion scheduler assigned node''\<rparr>)))))"

definition Filter :: "'q pod \<Rightarrow> string \<Rightarrow> fw_status" where
  "Filter p node = \<lparr>st_Code = Success, st_Message = []\<rparr>"

text \<open>
  The rest of the plugin interface, and the scheduler program
  \<open>build/scheduler/cmd/scheduler/scheduler.go\<close>: it registers the plugin and exits with the
  code of \<open>cli.Run\<close>, the parameter \<open>run\<close>, on the registered plugins.
\<close>

datatype plugin = FluxionScheduler

definition scheduler_Name :: string where "scheduler_Name = ''FluxionScheduler''"

definition plugin_Name :: "plugin \<Rightarrow> string" where "plugin_Name fs = scheduler_Name"

definition New :: "plugin result" where "New = Inr FluxionScheduler"

definition PreFilterExtensions :: "plugin \<Rightarrow> unit option" where "PreFilterExtensions fs = None"

definition scheduler_main :: "((string \<times> plugin result) list \<Rightarrow> int) \<Rightarrow> int" where
  "scheduler_main run = run [(scheduler_Name, New)]"

section \<open>The queue order\<close>

text \<open>
  What the scheduling framework asks of a queue sort plugin: a strict weak order. Queues sorted
  by such an order have a well-defined front, and inserting keeps them sorted.
\<close>

locale queue_sort =
  fixes less :: "'a \<Rightarrow> 'a \<Rightarrow> bool"
  assumes less_irrefl: "\<not> less x x"
    and less_trans: "less x y \<Longrightarrow> less y z \<Longrightarrow> less x z"
    and less_weak: "\<not> less x y \<Longrightarrow> \<not> less y z \<Longrightarrow> \<not> less x z"
begin

fun insort_by :: "'a \<Rightarrow> 'a list \<Rightarrow> 'a list" where
  "insort_by x [] = [x]"
| "insort_by x (y # ys) = (if less y x then y # insort_by x ys else x # y # ys)"

lemma less_asym: "less x y \<Longrightarrow> \<not> less y x"
  using less_irrefl less_trans by blast

lemma set_insort_by: "set (insort_by x ys) = insert x (set ys)"
  by (induction ys) auto

lemma sorted_insort_by:
  "sorted_wrt (\<lambda>a b. \<not> less b a) ys \<Longrightarrow> sorted_wrt (\<lambda>a b. \<not> less b a) (insort_by x ys)"
proof (induction ys)
  case (Cons y ys)
  show ?case
  proof (cases "less y x")
    case True
    with Cons show ?thesis using less_asym by (auto simp: set_insort_by)
  next
    case False
    with Cons.prems have "\<And>z. z \<in> set ys \<Longrightarrow> \<not> less z x"
      using less_weak by (meson sorted_wrt.simps(2))
    with False Cons.prems show ?thesis by simp
  qed
qed simp

end

interpretation plugin_sort: queue_sort "Less prio" for prio
proof unfold_locales
  fix x y z :: "'a pod"
  show "\<not> Less prio x x" by (simp add: Less_def Let_def)
  show "Less prio x y \<Longrightarrow> Less prio y z \<Longrightarrow> Less prio x z"
    by (auto simp: Less_def Let_def split: if_splits)
  show "\<not> Less prio x y \<Longrightarrow> \<not> Less prio y z \<Longrightarrow> \<not> Less prio x z"
    by (auto simp: Less_def Let_def split: if_splits)
qed

lemma getNamespacedName_inject:
  assumes "CHR ''/'' \<notin> set (pod_Namespace p)" "CHR ''/'' \<notin> set (pod_Namespace q)"
    and "getNamespacedName p = getNamespacedName q"
  shows "pod_Namespace p = pod_Namespace q \<and> pod_Name p = pod_Name q"
  using assms by (simp add: getNamespacedName_def append_sep_inject)

section \<open>Node assignment\<close>

lemma PreFilter_unschedulable:
  "label_get (pod_Labels p) UnschedulableLabel = Some v \<Longrightarrow>
   PreFilter p = Ret (None, \<lparr>st_Code = UnschedulableAndUnresolvable,
                            st_Message = ''Fluxion cannot find resources''\<rparr>)"
  by (simp add: PreFilter_def)

lemma PreFilter_assigns:
  assumes "label_get (pod_Labels p) UnschedulableLabel = None"
    and "label_get (pod_Labels p) NodesLabel = Some (join nodes ''__'')"
    and "nodes \<noteq> []" "\<And>n. n \<in> set nodes \<Longrightarrow> CHR ''_'' \<notin> set n"
    and "label_get (pod_Labels p) job_completion_index_label = Some (itoa (int i))"
    and "i < length nodes" "i < 2 ^ 63"
  shows "PreFilter p = Ret (Some {nodes ! i},
           \<lparr>st_Code = Success, st_Message = ''Fluxion scheduler assigned node''\<rparr>)"
proof -
  have "split (join nodes ''__'') ''__'' = nodes"
    using assms(3,4) by (intro split_join) auto
  moreover have "atoi (itoa (int i)) = (int i, None)"
    unfolding atoi_def using assms(7) by (intro parseInt_itoa) auto
  ultimately show ?thesis using assms by (simp add: PreFilter_def Let_def)
qed

definition ex_queued :: "string \<Rightarrow> int pod" where
  "ex_queued n = \<lparr>pod_Meta = \<lparr>om_Name = n, om_Namespace = ''ns'', om_Labels = None, om_CreationTimestamp = None\<rparr>,
     pod_Spec = \<lparr>ps_SchedulingGates = [], ps_SchedulerName = SchedulerName, ps_ActiveDeadlineSeconds = None,
       ps_Containers = [], ps_InitContainers = [], ps_Overhead = None\<rparr>, pod_ContainerStatuses = [], pod_Resize = []\<rparr>"

section \<open>Properties\<close>

text \<open>C39: the order of the scheduling queue is a strict total order: it is irreflexive and transitive, two
  pods with different names or namespaces are always ordered, and a queue sorted by it stays sorted when
  a pod is inserted.\<close>
theorem Less_strict_total:
  "\<not> Less prio p p \<and> (Less prio p q \<and> Less prio q r \<longrightarrow> Less prio p r) \<and>
   (CHR ''/'' \<notin> set (pod_Namespace p) \<and> CHR ''/'' \<notin> set (pod_Namespace q) \<and>
      (pod_Namespace p, pod_Name p) \<noteq> (pod_Namespace q, pod_Name q) \<longrightarrow> Less prio p q \<or> Less prio q p) \<and>
   (sorted_wrt (\<lambda>a b. \<not> Less prio b a) ps \<longrightarrow>
      sorted_wrt (\<lambda>a b. \<not> Less prio b a) (plugin_sort.insort_by prio p ps))"
proof -
  have "Less prio p q \<or> Less prio q p" if "CHR ''/'' \<notin> set (pod_Namespace p)" "CHR ''/'' \<notin> set (pod_Namespace q)"
      "(pod_Namespace p, pod_Name p) \<noteq> (pod_Namespace q, pod_Name q)"
  proof -
    have "getNamespacedName p \<noteq> getNamespacedName q" using getNamespacedName_inject[OF that(1,2)] that(3) by blast
    then have "getNamespacedName p < getNamespacedName q \<or> getNamespacedName q < getNamespacedName p" by (rule neq_iff[THEN iffD1])
    then show ?thesis by (auto simp: Less_def Let_def)
  qed
  moreover have "Less prio p q \<and> Less prio q r \<longrightarrow> Less prio p r" by (blast intro: plugin_sort.less_trans)
  ultimately show ?thesis using plugin_sort.less_irrefl[of prio p] plugin_sort.sorted_insort_by[of prio ps p] by blast
qed

theorem Less_strict_total_witness:
  "Less (\<lambda>_. 0) (ex_queued ''a'') (ex_queued ''b'') \<or> Less (\<lambda>_. 0) (ex_queued ''b'') (ex_queued ''a'')"
  using Less_strict_total[of "\<lambda>_. 0" "ex_queued ''a''" "ex_queued ''b''"] by (simp add: ex_queued_def)

end
