(* ===== verification/System_Grants.thy ===== *)
theory System_Grants
  imports System Scheduler_Plugin
begin

text \<open>
  Where a node assignment comes from. Beside the steps of the operator the rest of Kubernetes
  creates, changes and deletes pods and jobs; \<open>kube_change\<close> says what it leaves alone: the
  labels of the program, and its gate on pods that have it. New pods come with or without the gate,
  but a pod that carries the seen label was admitted by the webhook and has it. Over all such runs every pod
  with a node label owes it to an allocation that Fluxion granted to a job of the pod's namespace, in a run of
  the job worker, and an admitted pod loses its gate only after it was assigned nodes or marked unschedulable. The first of these holds even when the
  rest of Kubernetes acts between the API calls of a handler (\<open>busy_server\<close>), the second when
  handlers run undisturbed (\<open>kube_server\<close>). What the handlers' proofs share is the locale
  \<open>grant_keeper\<close>, which both kinds of servers give.
\<close>

section \<open>The cluster around the operator\<close>

text \<open>The label the job controller of Kubernetes puts on the pods of a job.\<close>

definition job_name_label :: string where
  "job_name_label = ''batch.kubernetes.io/job-name''"

definition pod_kept :: "'q pod \<Rightarrow> 'q pod \<Rightarrow> bool" where
  "pod_kept p p' \<longleftrightarrow> has_gate (pod_Gates p') = has_gate (pod_Gates p) \<and> length (pod_Gates p') \<le> length (pod_Gates p) \<and>
     list_all (\<lambda>l. label_get (pod_Labels p') l = label_get (pod_Labels p) l)
       [NodesLabel, FluxJobIdLabel, UnschedulableLabel, SeenLabel, job_name_label]"

definition pod_new :: "'q pod \<Rightarrow> bool" where
  "pod_new p \<longleftrightarrow> length (pod_Gates p) < 2 ^ 63 \<and>
     label_get (pod_Labels p) NodesLabel = None \<and> label_get (pod_Labels p) FluxJobIdLabel = None \<and>
     (label_get (pod_Labels p) SeenLabel \<noteq> None \<longrightarrow> has_gate (pod_Gates p))"

definition pod_of_job :: "string \<Rightarrow> 'q batch_job \<Rightarrow> 'q pod \<Rightarrow> bool" where
  "pod_of_job n j p \<longleftrightarrow> job_Suspend j \<noteq> Some True \<and> length (pod_Gates p) < 2 ^ 63 \<and>
     label_get (pod_Labels p) job_name_label = Some n \<and>
     list_all (\<lambda>l. label_get (pod_Labels p) l = label_get (pt_Labels (job_Template j)) l)
       [NodesLabel, FluxJobIdLabel, UnschedulableLabel]"

definition job_kept :: "'q batch_job \<Rightarrow> 'q batch_job \<Rightarrow> bool" where
  "job_kept j j' \<longleftrightarrow> list_all (\<lambda>l. label_get (pt_Labels (job_Template j')) l = label_get (pt_Labels (job_Template j)) l)
     [NodesLabel, FluxJobIdLabel, UnschedulableLabel]"

definition job_new :: "'q batch_job \<Rightarrow> bool" where
  "job_new j \<longleftrightarrow> label_get (pt_Labels (job_Template j)) NodesLabel = None \<and>
     label_get (pt_Labels (job_Template j)) FluxJobIdLabel = None"

lemmas change_defs = pod_kept_def pod_new_def pod_of_job_def job_kept_def job_new_def

definition kube_change ::
  "((string \<times> string) \<rightharpoonup> 'q pod) \<Rightarrow> ((string \<times> string) \<rightharpoonup> 'q batch_job) \<Rightarrow>
   ((string \<times> string) \<rightharpoonup> 'q pod) \<Rightarrow> ((string \<times> string) \<rightharpoonup> 'q batch_job) \<Rightarrow> bool" where
  "kube_change P J P' J' \<longleftrightarrow>
     (\<forall>ns n p'. P' (ns, n) = Some p' \<longrightarrow>
        (\<exists>p. P (ns, n) = Some p \<and> pod_kept p p') \<or> pod_new p' \<or>
        (\<exists>m j. J (ns, m) = Some j \<and> pod_of_job m j p')) \<and>
     (\<forall>ns n j'. J' (ns, n) = Some j' \<longrightarrow> (\<exists>j. J (ns, n) = Some j \<and> job_kept j j') \<or> job_new j')"

text \<open>Steps of the handlers and of the rest of Kubernetes; and all steps, with the informer's.\<close>

inductive work_step ::
  "('r, 'q, 'js, 'p, 'x, 'k) operator \<Rightarrow> ('p \<Rightarrow> (string \<times> string) \<rightharpoonup> 'q pod) \<Rightarrow>
   ('p \<Rightarrow> (string \<times> string) \<rightharpoonup> 'q batch_job) \<Rightarrow> ('p, 'x) world \<times> 'k \<Rightarrow> ('p, 'x) world \<times> 'k \<Rightarrow> bool"
  for E :: "('r, 'q, 'js, 'p, 'x, 'k) operator" and pods jobs where
  handled: "handler_step E c c' \<Longrightarrow> work_step E pods jobs c c'"
| changed: "kube_change (pods (w_kube w)) (jobs (w_kube w)) (pods p) (jobs p) \<Longrightarrow>
    work_step E pods jobs (w, k) (w\<lparr>w_kube := p\<rparr>, k)"

inductive cluster_step ::
  "('r, 'q, 'js, 'p, 'x, 'k) operator \<Rightarrow> ('p \<Rightarrow> (string \<times> string) \<rightharpoonup> 'q pod) \<Rightarrow>
   ('p \<Rightarrow> (string \<times> string) \<rightharpoonup> 'q batch_job) \<Rightarrow> ('p, 'x) world \<times> 'k \<Rightarrow> ('p, 'x) world \<times> 'k \<Rightarrow> bool"
  for E :: "('r, 'q, 'js, 'p, 'x, 'k) operator" and pods jobs where
  operator: "sys_step E c c' \<Longrightarrow> cluster_step E pods jobs c c'"
| kubernetes: "kube_change (pods (w_kube w)) (jobs (w_kube w)) (pods p) (jobs p) \<Longrightarrow>
    cluster_step E pods jobs (w, k) (w\<lparr>w_kube := p\<rparr>, k)"

lemma work_is_step: "work_step E pods jobs c c' \<Longrightarrow> cluster_step E pods jobs c c'"
  by (cases rule: work_step.cases) (auto intro: cluster_step.intros sys_step.handler)

lemma work_is_run: "(work_step E pods jobs)\<^sup>*\<^sup>* c c' \<Longrightarrow> (cluster_step E pods jobs)\<^sup>*\<^sup>* c c'"
  by (rule mono_rtranclp[rule_format]) (rule work_is_step)

section \<open>Grants\<close>

text \<open>Fluxion's answer, in this state, to the request that the job worker sends for a job.\<close>

definition allocates :: "'x fluxionOps \<Rightarrow> 'x \<Rightarrow> jobArgs \<Rightarrow> string list \<Rightarrow> int \<Rightarrow> bool" where
  "allocates X x args nodes i \<longleftrightarrow> fo_NewClient X = None \<and>
     (\<exists>resp x'. fo_Match X \<lparr>mr_Jobspec = ja_Jobspec args, mr_Reservation = (ja_Reservation args = 1)\<rparr> x = (Inr resp, x') \<and>
        mp_Allocation resp \<noteq> [] \<and> parseNodes (mp_Allocation resp) = Inr nodes \<and> mp_Jobid resp = i)"

text \<open>The step from \<open>c\<close> to \<open>c'\<close> is a run of the job worker on a job in river to whose request Fluxion answers
  with these nodes and this id.\<close>

inductive grants ::
  "('r, 'q, 'js, 'p, 'x, 'k) operator \<Rightarrow> ('p, 'x) world \<times> 'k \<Rightarrow> ('p, 'x) world \<times> 'k \<Rightarrow> jobArgs \<Rightarrow> string list \<Rightarrow> int \<Rightarrow> bool"
  for E :: "('r, 'q, 'js, 'p, 'x, 'k) operator" where
  matched: "in_river (AJob args) (w_sys w) \<Longrightarrow> JobWorker_Work (op_kube E) (op_fluxion E) wfs args w = (e, w') \<Longrightarrow>
    allocates (op_fluxion E) (w_fluxion w) args nodes i \<Longrightarrow> grants E (w, k) (w', k) args nodes i"

text \<open>There is such a step in a run from \<open>c0\<close> to \<open>c\<close>.\<close>

definition granted ::
  "('r, 'q, 'js, 'p, 'x, 'k) operator \<Rightarrow> ('p \<Rightarrow> (string \<times> string) \<rightharpoonup> 'q pod) \<Rightarrow>
   ('p \<Rightarrow> (string \<times> string) \<rightharpoonup> 'q batch_job) \<Rightarrow> ('p, 'x) world \<times> 'k \<Rightarrow> ('p, 'x) world \<times> 'k \<Rightarrow>
   jobArgs \<Rightarrow> string list \<Rightarrow> int \<Rightarrow> bool" where
  "granted E pods jobs c0 c args nodes i \<longleftrightarrow>
     (\<exists>c1 c2. (cluster_step E pods jobs)\<^sup>*\<^sup>* c0 c1 \<and> grants E c1 c2 args nodes i \<and> (cluster_step E pods jobs)\<^sup>*\<^sup>* c2 c)"

lemma granted_step:
  "granted E pods jobs c0 c args nodes i \<Longrightarrow> cluster_step E pods jobs c c' \<Longrightarrow> granted E pods jobs c0 c' args nodes i"
  unfolding granted_def by (meson rtranclp.rtrancl_into_rtrancl)

lemma granted_now:
  "grants E c c' args nodes i \<Longrightarrow> (cluster_step E pods jobs)\<^sup>*\<^sup>* c0 c \<Longrightarrow> granted E pods jobs c0 c' args nodes i"
  unfolding granted_def by blast

text \<open>What is granted was an answer of Fluxion.\<close>

lemma granted_answer:
  assumes "granted E pods jobs c0 c args nodes i"
  obtains r x resp x' where "fo_Match (op_fluxion E) r x = (Inr resp, x')" "mp_Allocation resp \<noteq> []"
    "parseNodes (mp_Allocation resp) = Inr nodes" "mp_Jobid resp = i"
  using assms by (auto simp: granted_def allocates_def elim!: grants.cases)

text \<open>The labels that an allocation leaves on a pod or a pod template.\<close>

definition stamp :: "string list \<Rightarrow> int \<Rightarrow> (string \<Rightarrow> string option) \<Rightarrow> bool" where
  "stamp nodes i m \<longleftrightarrow> (\<exists>v \<in> insert (join nodes ''__'') (set nodes). m NodesLabel = Some v) \<and> m FluxJobIdLabel = Some (itoa i)"

section \<open>The invariant\<close>

text \<open>\<open>G\<close> is the set of allocations granted so far.\<close>

definition assigned :: "(jobArgs \<Rightarrow> string list \<Rightarrow> int \<Rightarrow> bool) \<Rightarrow> string \<Rightarrow> (string \<Rightarrow> string option) \<Rightarrow> bool" where
  "assigned G ns m \<longleftrightarrow> (m NodesLabel \<noteq> None \<or> m FluxJobIdLabel \<noteq> None \<longrightarrow>
     (\<exists>args nodes i. G args nodes i \<and> ja_Namespace args = ns \<and> stamp nodes i m))"

text \<open>The labels of a pod that may be without the gate.\<close>

definition decided :: "(string \<Rightarrow> string option) \<Rightarrow> bool" where
  "decided m \<longleftrightarrow> m NodesLabel \<noteq> None \<or> m UnschedulableLabel \<noteq> None \<or> m job_name_label \<noteq> None \<or> m SeenLabel = None"

text \<open>With \<open>strict\<close> the invariant also speaks of gates, which only handlers that run undisturbed keep.\<close>

definition pod_inv :: "bool \<Rightarrow> (jobArgs \<Rightarrow> string list \<Rightarrow> int \<Rightarrow> bool) \<Rightarrow> string \<Rightarrow> 'q pod \<Rightarrow> bool" where
  "pod_inv strict G ns p \<longleftrightarrow> length (pod_Gates p) < 2 ^ 63 \<and> assigned G ns (label_get (pod_Labels p)) \<and>
     (strict \<longrightarrow> has_gate (pod_Gates p) \<or> decided (label_get (pod_Labels p)))"

definition kube_inv ::
  "bool \<Rightarrow> (jobArgs \<Rightarrow> string list \<Rightarrow> int \<Rightarrow> bool) \<Rightarrow> ((string \<times> string) \<rightharpoonup> 'q pod) \<Rightarrow> ((string \<times> string) \<rightharpoonup> 'q batch_job) \<Rightarrow> bool" where
  "kube_inv strict G P J \<longleftrightarrow> (\<forall>ns n p. P (ns, n) = Some p \<longrightarrow> pod_inv strict G ns p) \<and>
     (\<forall>ns n j. J (ns, n) = Some j \<longrightarrow> assigned G ns (label_get (pt_Labels (job_Template j))))"

definition river_inv :: "(jobArgs \<Rightarrow> string list \<Rightarrow> int \<Rightarrow> bool) \<Rightarrow> sys \<Rightarrow> bool" where
  "river_inv G s \<longleftrightarrow> (\<forall>u. in_river (AUngate u) s \<longrightarrow>
     (\<exists>args. G args (ua_Nodes u) (ua_JobID u) \<and> ja_Namespace args = ua_Namespace u))"

lemma kube_inv_mono: "kube_inv st G P J \<Longrightarrow> (\<And>a n i. G a n i \<Longrightarrow> G' a n i) \<Longrightarrow> kube_inv st G' P J"
  unfolding kube_inv_def pod_inv_def assigned_def by meson

lemma river_inv_mono: "river_inv G s \<Longrightarrow> (\<And>a n i. G a n i \<Longrightarrow> G' a n i) \<Longrightarrow> river_inv G' s"
  unfolding river_inv_def by meson

lemma assigned_cong:
  "m' NodesLabel = m NodesLabel \<Longrightarrow> m' FluxJobIdLabel = m FluxJobIdLabel \<Longrightarrow> assigned G ns m' = assigned G ns m"
  by (simp add: assigned_def stamp_def)

lemma kube_change_inv: "kube_inv st G P J \<Longrightarrow> kube_change P J P' J' \<Longrightarrow> kube_inv st G P' J'"
proof -
  assume inv: "kube_inv st G P J" and ch: "kube_change P J P' J'"
  have "pod_inv st G ns p'" if "P' (ns, n) = Some p'" for ns n p'
  proof -
    from ch that consider (kept) p where "P (ns, n) = Some p" "pod_kept p p'" | (new) "pod_new p'"
      | (job) m j where "J (ns, m) = Some j" "pod_of_job m j p'" unfolding kube_change_def by blast
    then show ?thesis
    proof cases
      case kept
      with inv have "pod_inv st G ns p" by (simp add: kube_inv_def)
      with kept(2) show ?thesis
        using assigned_cong[of "label_get (pod_Labels p')" "label_get (pod_Labels p)"]
        by (auto simp: pod_kept_def pod_inv_def decided_def)
    next
      case new
      then show ?thesis by (auto simp: pod_new_def pod_inv_def assigned_def decided_def)
    next
      case job
      with inv have "assigned G ns (label_get (pt_Labels (job_Template j)))" by (simp add: kube_inv_def)
      with job(2) show ?thesis
        using assigned_cong[of "label_get (pod_Labels p')" "label_get (pt_Labels (job_Template j))"]
        by (simp add: pod_of_job_def pod_inv_def decided_def)
    qed
  qed
  moreover have "assigned G ns (label_get (pt_Labels (job_Template j')))" if j': "J' (ns, n) = Some j'" for ns n j'
  proof -
    from ch j' have "(\<exists>j. J (ns, n) = Some j \<and> job_kept j j') \<or> job_new j'" unfolding kube_change_def by blast
    then show ?thesis
    proof
      assume "\<exists>j. J (ns, n) = Some j \<and> job_kept j j'"
      then obtain j where j: "J (ns, n) = Some j" "job_kept j j'" by blast
      with inv have "assigned G ns (label_get (pt_Labels (job_Template j)))" by (simp add: kube_inv_def)
      with j(2) show ?thesis
        using assigned_cong[of "label_get (pt_Labels (job_Template j'))" "label_get (pt_Labels (job_Template j))"]
        by (simp add: job_kept_def)
    qed (simp add: job_new_def assigned_def)
  qed
  ultimately show ?thesis by (simp add: kube_inv_def)
qed

section \<open>The operations keep the invariant\<close>

text \<open>Labels that assign granted nodes, or mark a pod or template unschedulable.\<close>

definition good_labels :: "(jobArgs \<Rightarrow> string list \<Rightarrow> int \<Rightarrow> bool) \<Rightarrow> string \<Rightarrow> (string \<times> string) list \<Rightarrow> bool" where
  "good_labels G ns kvs \<longleftrightarrow> kvs = [(UnschedulableLabel, ''yes'')] \<or>
     (\<exists>args nodes i v. G args nodes i \<and> ja_Namespace args = ns \<and> v \<in> insert (join nodes ''__'') (set nodes) \<and>
        kvs = [(NodesLabel, v), (FluxJobIdLabel, itoa i)])"

lemma good_labels_assigned:
  "good_labels G ns kvs \<Longrightarrow> assigned G ns m \<Longrightarrow> assigned G ns (m ++ map_of (rev kvs)) \<and> decided (m ++ map_of (rev kvs))"
proof -
  assume "good_labels G ns kvs" "assigned G ns m"
  then consider "kvs = [(UnschedulableLabel, ''yes'')]"
    | (nodes) args nodes i v where "G args nodes i" "ja_Namespace args = ns" "v \<in> insert (join nodes ''__'') (set nodes)"
        "kvs = [(NodesLabel, v), (FluxJobIdLabel, itoa i)]" unfolding good_labels_def by blast
  then show ?thesis
  proof cases
    case 1
    with \<open>assigned G ns m\<close> show ?thesis
      using assigned_cong[of "m ++ map_of (rev kvs)" m G ns] by (simp add: decided_def)
  next
    case nodes
    then have "stamp nodes i (m ++ map_of (rev kvs))" by (simp add: stamp_def)
    with nodes show ?thesis unfolding assigned_def decided_def by auto
  qed
qed

lemma label_init_get [simp]: "label_get (Some (label_init m ++ f)) = label_get m ++ f"
  by (rule ext) (simp add: map_add_def split: option.splits)

lemma set_labels_inv: "good_labels G ns kvs \<Longrightarrow> pod_inv st G ns p \<Longrightarrow>
  pod_inv st G ns (set_labels kvs p) \<and> decided (label_get (pod_Labels (set_labels kvs p)))"
  using good_labels_assigned[of G ns kvs "label_get (pod_Labels p)"]
  by (auto simp: pod_inv_def set_labels_def simp del: label_get_simps)

lemma drop_gate_inv: "pod_inv st G ns p \<Longrightarrow> decided (label_get (pod_Labels p)) \<Longrightarrow> pod_inv st G ns (drop_gate i p)"
  by (auto simp: pod_inv_def drop_gate_def)

lemma kube_inv_pod: "kube_inv st G P J \<Longrightarrow> pod_inv st G ns p \<Longrightarrow> kube_inv st G (P((ns, n) \<mapsto> p)) J"
  by (simp add: kube_inv_def)

lemma kube_inv_job:
  "kube_inv st G P J \<Longrightarrow> assigned G ns (label_get (pt_Labels (job_Template j))) \<Longrightarrow> kube_inv st G P (J((ns, n) \<mapsto> j))"
  by (simp add: kube_inv_def)

lemma start_inv:
  assumes "\<And>ns n p. P (ns, n) = Some p \<Longrightarrow> pod_new p" "\<And>ns n j. J (ns, n) = Some j \<Longrightarrow> job_new j"
  shows "kube_inv st G P J"
  using assms by (fastforce simp: kube_inv_def pod_inv_def assigned_def decided_def pod_new_def job_new_def)

section \<open>Handlers over a server that keeps the invariant\<close>

text \<open>What the handlers need of the server's calls: writing labels of a granted allocation keeps the
  invariant, and so does the removal of the gate that follows it.\<close>

locale grant_keeper =
  fixes K :: "('q, 'k) kubeOps" and pods :: "'k \<Rightarrow> (string \<times> string) \<rightharpoonup> 'q pod"
    and jobs :: "'k \<Rightarrow> (string \<times> string) \<rightharpoonup> 'q batch_job" and strict :: bool
  assumes labels_call: "kube_inv strict G (pods k) (jobs k) \<Longrightarrow> good_labels G ns kvs \<Longrightarrow>
      ko_patchPod K ns n MergePatchType (labelsPatch kvs) k = (e, k') \<Longrightarrow> kube_inv strict G (pods k') (jobs k')"
    and ungate_call: "kube_inv strict G (pods k) (jobs k) \<Longrightarrow> good_labels G ns kvs \<Longrightarrow>
      ko_patchPod K ns n MergePatchType (labelsPatch kvs) k = (None, k1) \<Longrightarrow> removeGate K ns n k1 = (e, k') \<Longrightarrow>
      kube_inv strict G (pods k') (jobs k')"
    and unsuspend_call: "kube_inv strict G (pods k) (jobs k) \<Longrightarrow> good_labels G ns kvs \<Longrightarrow>
      ko_patchJob K ns n StrategicMergePatchType (unsuspendPatch kvs) k = (e, k') \<Longrightarrow> kube_inv strict G (pods k') (jobs k')"
    and replace_call: "kube_inv strict G (pods k) (jobs k) \<Longrightarrow> patchUnsuspend K ns n k = (e, k') \<Longrightarrow>
      kube_inv strict G (pods k') (jobs k')"
    and listed_namespace: "ko_listPods K ns sel k = (ps, None) \<Longrightarrow> p \<in> set ps \<Longrightarrow> pod_Namespace p = ns"
begin

abbreviation inv :: "(jobArgs \<Rightarrow> string list \<Rightarrow> int \<Rightarrow> bool) \<Rightarrow> 'k \<Rightarrow> bool" where
  "inv G k \<equiv> kube_inv strict G (pods k) (jobs k)"

lemma rejectPod_inv:
  assumes "inv G k" "rejectPod K ns n k = (e, k')"
  shows "inv G k'"
proof -
  have good: "good_labels G ns [(UnschedulableLabel, ''yes'')]" by (simp add: good_labels_def)
  from assms(2) consider "k' = k"
    | x where "ko_patchPod K ns n MergePatchType (labelsPatch [(UnschedulableLabel, ''yes'')]) k = (Some x, k')"
    | k1 where "ko_patchPod K ns n MergePatchType (labelsPatch [(UnschedulableLabel, ''yes'')]) k = (None, k1)"
        "removeGate K ns n k1 = (e, k')"
    by (auto simp: rejectPod_def split: option.splits prod.splits)
  then show ?thesis using assms(1) labels_call[OF assms(1) good] ungate_call[OF assms(1) good] by cases blast+
qed

lemma rejectJob_inv:
  assumes "inv G k" "rejectJob K ns n k = (e, k')"
  shows "inv G k'"
proof -
  have good: "good_labels G ns [(UnschedulableLabel, ''yes'')]" by (simp add: good_labels_def)
  from assms(2) consider "k' = k"
    | x where "ko_patchJob K ns n StrategicMergePatchType (unsuspendPatch [(UnschedulableLabel, ''yes'')]) k = (Some x, k')"
    | k1 where "ko_patchJob K ns n StrategicMergePatchType (unsuspendPatch [(UnschedulableLabel, ''yes'')]) k = (None, k1)"
        "patchUnsuspend K n ns k1 = (e, k')"
    by (auto simp: rejectJob_def split: option.splits prod.splits)
  then show ?thesis using assms(1) unsuspend_call[OF assms(1) good] replace_call by cases blast+
qed

lemma markUnschedulable_inv:
  assumes "inv G k" "markUnschedulable K args k = (e, k')"
  shows "inv G k'"
proof -
  from assms(2) consider "k' = k" | "rejectJob K (ja_Namespace args) (ja_Name args) k = (e, k')"
    | "rejectPod K (ja_Namespace args) (ja_Name args) k = (e, k')"
    by (auto simp: markUnschedulable_def split: if_splits)
  then show ?thesis using assms(1) rejectJob_inv rejectPod_inv by cases blast+
qed

lemma unsuspendJob_inv:
  assumes "inv G k" "G args nodes i" "unsuspendJob K (ja_Namespace args) n nodes i k = (e, k')"
  shows "inv G k'"
proof -
  have "good_labels G (ja_Namespace args) (node_labels nodes i)"
    using assms(2) unfolding good_labels_def node_labels_def by blast
  with unsuspend_call[OF assms(1) this] assms(1,3) show ?thesis by (auto simp: unsuspendJob_def split: option.splits)
qed

text \<open>The ungate worker, whose allocation was granted.\<close>

lemma ungate_loop_inv:
  assumes "\<exists>a. G a (ua_Nodes u) (ua_JobID u) \<and> ja_Namespace a = ua_Namespace u"
    and "\<forall>p \<in> set ps. pod_Namespace p = ua_Namespace u"
  shows "inv G k \<Longrightarrow> ungate_loop K u n i ps k = (e, k') \<Longrightarrow> inv G k'"
  using assms(2)
proof (induction ps arbitrary: i k)
  case (Cons p ps)
  let ?kvs = "[(NodesLabel, ua_Nodes u ! i), (FluxJobIdLabel, itoa (ua_JobID u))]"
  show ?case
  proof (cases "i < n \<and> has_gate (pod_Gates p) \<and> i < length (ua_Nodes u)")
    case True
    then have "good_labels G (ua_Namespace u) ?kvs" unfolding good_labels_def using assms(1) nth_mem by blast
    note good = this
    obtain e1 k1 where lab: "ko_patchPod K (ua_Namespace u) (pod_Name p) MergePatchType (labelsPatch ?kvs) k = (e1, k1)"
      by (cases "ko_patchPod K (ua_Namespace u) (pod_Name p) MergePatchType (labelsPatch ?kvs) k")
    obtain e2 k2 where rm: "removeGate K (ua_Namespace u) (pod_Name p) k1 = (e2, k2)"
      by (cases "removeGate K (ua_Namespace u) (pod_Name p) k1")
    have "inv G k1" using labels_call[OF Cons.prems(1) good lab] .
    moreover have "e1 = None \<Longrightarrow> inv G k2" using ungate_call[OF Cons.prems(1) good _ rm] lab by blast
    ultimately show ?thesis using Cons.prems True lab rm Cons.IH[of k2 "Suc i"] by (auto split: option.splits)
  qed (use Cons in \<open>auto split: if_splits\<close>)
qed simp

lemma UngateWorker_inv:
  assumes "inv G k" "\<exists>a. G a (ua_Nodes u) (ua_JobID u) \<and> ja_Namespace a = ua_Namespace u"
    and "UngateWorker_Work K u k = (e, k')"
  shows "inv G k'"
proof (cases "ua_Type u = jobWrapped_String JobWrappedPod")
  case True
  have "good_labels G (ua_Namespace u) (node_labels (ua_Nodes u) (ua_JobID u))"
    using assms(2) unfolding good_labels_def node_labels_def by blast
  note good = this
  from True assms(3) consider "k' = k"
    | x where "ko_patchPod K (ua_Namespace u) (ua_Name u) MergePatchType
        (labelsPatch (node_labels (ua_Nodes u) (ua_JobID u))) k = (Some x, k')"
    | k1 x where "ko_patchPod K (ua_Namespace u) (ua_Name u) MergePatchType
        (labelsPatch (node_labels (ua_Nodes u) (ua_JobID u))) k = (None, k1)"
        "removeGate K (ua_Namespace u) (ua_Name u) k1 = (x, k')"
    by (auto simp: UngateWorker_Work_def split: option.splits prod.splits)
  then show ?thesis using assms(1) labels_call[OF assms(1) good] ungate_call[OF assms(1) good] by cases blast+
next
  case False
  from False assms(3) consider "k' = k"
    | ps x where "ko_listPods K (ua_Namespace u) (ungate_selector u) k = (ps, None)"
        "ungate_loop K u (length ps) 0 ps k = (x, k')"
    by (auto simp: UngateWorker_Work_def split: option.splits prod.splits go.splits if_splits)
  then show ?thesis
  proof cases
    case (2 ps x)
    then have "\<forall>p \<in> set ps. pod_Namespace p = ua_Namespace u" using listed_namespace by blast
    from ungate_loop_inv[OF assms(2) this assms(1) 2(2)] show ?thesis .
  qed (use assms(1) in simp)
qed

end

section \<open>New river jobs\<close>

text \<open>No job with such arguments is inserted. Ungate jobs come from the job worker only, and cleanup jobs
  from deleted pods only.\<close>

definition no_new :: "(riverArgs \<Rightarrow> bool) \<Rightarrow> sys \<Rightarrow> sys \<Rightarrow> bool" where
  "no_new Q s s' \<longleftrightarrow> (\<forall>a. Q a \<longrightarrow> in_river a s' \<longrightarrow> in_river a s)"

fun is_ungate :: "riverArgs \<Rightarrow> bool" where
  "is_ungate (AUngate _) = True"
| "is_ungate _ = False"

fun is_cleanup :: "riverArgs \<Rightarrow> bool" where
  "is_cleanup (ACleanup _) = True"
| "is_cleanup _ = False"

lemma no_new_ungate_iff: "no_new is_ungate s s' \<longleftrightarrow> (\<forall>u. in_river (AUngate u) s' \<longrightarrow> in_river (AUngate u) s)"
  unfolding no_new_def by (metis is_ungate.elims(2) is_ungate.simps(1))

lemma no_new_cleanup_iff: "no_new is_cleanup s s' \<longleftrightarrow> (\<forall>c. in_river (ACleanup c) s' \<longrightarrow> in_river (ACleanup c) s)"
  unfolding no_new_def by (metis is_cleanup.elims(2) is_cleanup.simps(1))

lemma no_new_refl [simp]: "no_new Q s s"
  by (simp add: no_new_def)

lemma no_new_trans: "no_new Q s t \<Longrightarrow> no_new Q t u \<Longrightarrow> no_new Q s u"
  by (simp add: no_new_def)

lemma no_new_append:
  "s_river s' = s_river s @ ps \<Longrightarrow> (\<And>p. p \<in> set ps \<Longrightarrow> \<not> Q (im_Args p)) \<Longrightarrow> no_new Q s s'"
  by (auto simp: no_new_def in_river_def)

lemma no_new_same_river: "s_river s' = s_river s \<Longrightarrow> no_new Q s s'"
  by (rule no_new_append[where ps = "[]"]) simp_all

lemma Enqueue_no_new: "Enqueue f spec s = (r, s') \<Longrightarrow> no_new Q s s'"
  by (auto simp: Enqueue_eq no_new_def split: option.splits if_splits)

lemma Schedule_no_new:
  assumes "Schedule f (easy_queue depth) s = Ret (e, s')" "\<And>a. \<not> Q (AJob a)" "\<not> Q AReservation"
  shows "no_new Q s s'"
proof (cases "IsInScheduleLoop s")
  case True
  with assms(1) show ?thesis by (simp add: easy.Schedule_busy)
next
  case False
  then show ?thesis
  proof (rule easy.Schedule_outcome[where f = f and q = "easy_queue depth"])
    fix batch jobs s'' e'
    assume sent: "Schedule f (easy_queue depth) s = Ret (e', s'')" "map im_Args batch = map AJob jobs"
      "s_river s'' = s_river s @ batch @ [clearReservationJob]"
    have "\<not> Q (im_Args p)" if "p \<in> set (batch @ [clearReservationJob])" for p
    proof -
      have "im_Args p \<in> set (map AJob jobs) \<or> im_Args p = AReservation"
        using that sent(2)[symmetric] by (auto simp: clearReservationJob_def)
      then show ?thesis using assms(2,3) by auto
    qed
    with sent show ?thesis using assms(1) no_new_append[of s' s "batch @ [clearReservationJob]" Q] by auto
  qed (use assms(1) in \<open>auto intro: no_new_same_river\<close>)
qed

lemma Reconcile_no_new:
  assumes "Reconcile C f (easy_queue depth) ns n s k = Ret (r, s', k')" "\<And>a. \<not> Q (AJob a)" "\<not> Q AReservation"
  shows "no_new Q s s'"
proof -
  have "no_new Q s t" if "submitJob f (easy_queue depth) spec s = Ret (x, t)" for spec x t
    by (cases rule: submitJob_cases[where f = f and spec = spec and s = s and depth = depth])
       (use that assms(2,3) in \<open>auto intro: no_new_trans[OF Enqueue_no_new Schedule_no_new] Enqueue_no_new\<close>)
  with assms(1) show ?thesis by (auto simp: Reconcile_def split: sum.splits prod.splits go.splits if_splits option.splits)
qed

lemma DeleteFunc_no_ungate: "DeleteFunc f (easy_queue depth) obj s = Ret s' \<Longrightarrow> no_new is_ungate s s'"
  by (auto simp: DeleteFunc_def queue_Cleanup_easy cleanup_job_def intro!: no_new_append
      split: deletedObj.splits option.splits prod.splits if_splits)

lemma ReservationWorker_no_new:
  "ReservationWorker_Work X collect wfs w = (e, w') \<Longrightarrow> no_new Q (w_sys w) (w_sys w') \<and> w_kube w' = w_kube w"
  by (auto simp: ReservationWorker_Work_def no_new_def split: option.splits sum.splits prod.splits)

lemma reserveJob_no_new: "no_new Q s (snd (reserveJob wfs args i s))"
  by (auto simp: reserveJob_def no_new_def split: option.splits sum.splits)

lemma ungatePod_new:
  "in_river (AUngate u) (snd (ungatePod f ns n ty nodes i s)) \<Longrightarrow> in_river (AUngate u) s \<or>
     u = \<lparr>ua_Name = n, ua_Type = ty, ua_Namespace = ns, ua_Nodes = nodes, ua_JobID = i\<rparr>"
  by (auto simp: ungatePod_def Let_def in_river_def split: option.splits)

lemma releaseJob_outcome:
  assumes "releaseJob K f args i nodes v = (e, v')"
  obtains (same) "w_kube v' = w_kube v" "w_sys v' = w_sys v"
  | (unsuspended) x where "unsuspendJob K (ja_Namespace args) (ja_Name args) nodes i (w_kube v) = (x, w_kube v')" "w_sys v' = w_sys v"
  | (queued) "w_kube v' = w_kube v"
      "w_sys v' = snd (ungatePod f (ja_Namespace args) (ja_Name args) (ja_Type args) nodes i (w_sys v))"
  using assms by (auto simp: releaseJob_def split: if_splits prod.splits)

lemma JobWorker_no_new:
  assumes "JobWorker_Work K X wfs args w = (e, w')" "\<And>u. \<not> Q (AUngate u)"
  shows "no_new Q (w_sys w) (w_sys w')"
proof -
  have "no_new Q s (snd (ungatePod wfs ns n ty nodes i s))" for ns n ty nodes i s
    using assms(2) by (auto simp: ungatePod_def Let_def intro!: no_new_append split: option.splits)
  then have release: "releaseJob K wfs args i nodes v = (e, v') \<Longrightarrow> no_new Q (w_sys v) (w_sys v')" for i nodes v e v'
    by (auto elim!: releaseJob_outcome)
  from assms(1) show ?thesis
    by (auto simp: JobWorker_Work_def Let_def reserveJob_no_new split: option.splits prod.splits sum.splits if_splits
        dest!: release intro: no_new_trans[OF reserveJob_no_new])
qed

text \<open>What a run of the job worker can do to the cluster and to the ungate jobs.\<close>

lemma JobWorker_outcome:
  assumes "JobWorker_Work K X wfs args w = (e, w')"
  obtains (same) "w_kube w' = w_kube w" "no_new is_ungate (w_sys w) (w_sys w')"
  | (rejected) x where "markUnschedulable K args (w_kube w) = (x, w_kube w')" "no_new is_ungate (w_sys w) (w_sys w')"
  | (unsuspended) nodes i x where "allocates X (w_fluxion w) args nodes i"
      "unsuspendJob K (ja_Namespace args) (ja_Name args) nodes i (w_kube w) = (x, w_kube w')" "no_new is_ungate (w_sys w) (w_sys w')"
  | (queued) nodes i where "allocates X (w_fluxion w) args nodes i" "w_kube w' = w_kube w"
      "\<And>u. in_river (AUngate u) (w_sys w') \<Longrightarrow> in_river (AUngate u) (w_sys w) \<or>
         u = \<lparr>ua_Name = ja_Name args, ua_Type = ja_Type args, ua_Namespace = ja_Namespace args, ua_Nodes = nodes, ua_JobID = i\<rparr>"
proof -
  let ?req = "\<lparr>mr_Jobspec = ja_Jobspec args, mr_Reservation = (ja_Reservation args = 1)\<rparr>"
  show thesis
  proof (cases "\<exists>resp x nodes. fo_NewClient X = None \<and> fo_Match X ?req (w_fluxion w) = (Inr resp, x) \<and>
      mp_Allocation resp \<noteq> [] \<and> parseNodes (mp_Allocation resp) = Inr nodes")
    case True
    then obtain resp x nodes where X: "fo_NewClient X = None" "fo_Match X ?req (w_fluxion w) = (Inr resp, x)"
      "mp_Allocation resp \<noteq> []" "parseNodes (mp_Allocation resp) = Inr nodes" by blast
    let ?i = "mp_Jobid resp"
    let ?s = "if mp_Reserved resp then snd (reserveJob wfs args ?i (w_sys w)) else w_sys w"
    let ?w = "w\<lparr>w_fluxion := x, w_sys := ?s\<rparr>"
    have g: "allocates X (w_fluxion w) args nodes ?i" using X unfolding allocates_def by blast
    have s: "no_new is_ungate (w_sys w) ?s" using reserveJob_no_new[of is_ungate] by simp
    have "releaseJob K wfs args ?i nodes ?w = (e, w')"
      using assms X by (auto simp: JobWorker_Work_def Let_def split: if_splits)
    then show thesis
    proof (cases rule: releaseJob_outcome)
      case (unsuspended y)
      with s g show thesis by (intro that(3)) auto
    next
      case queued
      with s show thesis by (intro that(4)[OF g]) (auto simp: no_new_ungate_iff dest!: ungatePod_new)
    qed (use s in \<open>auto intro: that(1)\<close>)
  next
    case False
    then have "(w_kube w' = w_kube w \<or> w_kube w' = snd (markUnschedulable K args (w_kube w))) \<and>
        no_new is_ungate (w_sys w) (w_sys w')"
      using assms reserveJob_no_new[of is_ungate]
      by (auto simp: JobWorker_Work_def Let_def split: option.splits prod.splits sum.splits if_splits)
    then show thesis using same rejected[of "fst (markUnschedulable K args (w_kube w))"] by (metis prod.collapse)
  qed
qed

section \<open>The invariant over runs\<close>

context grant_keeper
begin

lemma handler_step_inv:
  assumes "handler_step E (w, k) (w', k')" "op_kube E = K"
    and "inv G (w_kube w)" "river_inv G (w_sys w)"
    and "\<And>args nodes i. grants E (w, k) (w', k') args nodes i \<Longrightarrow> G args nodes i"
  shows "inv G (w_kube w') \<and> river_inv G (w_sys w')"
  using assms(1)
proof (cases rule: handler_step.cases)
  case (reconcile f depth ns n r s')
  with Reconcile_no_new[where Q = is_ungate] assms(3,4) show ?thesis by (fastforce simp: no_new_ungate_iff river_inv_def)
next
  case (job_worker args wfs e)
  have grant: "G args nodes i" if "allocates (op_fluxion E) (w_fluxion w) args nodes i" for nodes i
    using assms(5) grants.matched[OF job_worker(2,3) that, of k] job_worker(1) by simp
  have "JobWorker_Work K (op_fluxion E) wfs args w = (e, w')" using job_worker assms(2) by simp
  then show ?thesis
  proof (cases rule: JobWorker_outcome)
    case same
    with assms(3,4) show ?thesis by (auto simp: no_new_ungate_iff river_inv_def)
  next
    case (rejected x)
    with markUnschedulable_inv[OF assms(3) rejected(1)] assms(4) show ?thesis by (simp add: no_new_ungate_iff river_inv_def)
  next
    case (unsuspended nodes i x)
    have "inv G (w_kube w')" by (rule unsuspendJob_inv[OF assms(3) grant[OF unsuspended(1)] unsuspended(2)])
    with unsuspended(3) assms(4) show ?thesis by (auto simp: no_new_ungate_iff river_inv_def)
  next
    case (queued nodes i)
    have "\<exists>a. G a (ua_Nodes u) (ua_JobID u) \<and> ja_Namespace a = ua_Namespace u" if "in_river (AUngate u) (w_sys w')" for u
      using queued(3)[OF that] assms(4) grant[OF queued(1)] by (auto simp: river_inv_def)
    with assms(3) queued(2) show ?thesis by (simp add: river_inv_def)
  qed
next
  case (ungate_worker u e p)
  then have "\<exists>a. G a (ua_Nodes u) (ua_JobID u) \<and> ja_Namespace a = ua_Namespace u"
    using assms(4) by (simp add: river_inv_def)
  from UngateWorker_inv[OF assms(3) this] ungate_worker assms(2,4) show ?thesis by simp
next
  case (reservation_worker wfs e)
  with ReservationWorker_no_new[where Q = is_ungate] assms(3,4) show ?thesis by (fastforce simp: no_new_ungate_iff river_inv_def)
qed (use assms(3,4) in \<open>auto simp: river_inv_def\<close>)

lemma sys_step_inv:
  assumes "sys_step E (w, k) (w', k')" "op_kube E = K"
    and "inv G (w_kube w)" "river_inv G (w_sys w)"
    and "\<And>args nodes i. grants E (w, k) (w', k') args nodes i \<Longrightarrow> G args nodes i"
  shows "inv G (w_kube w') \<and> river_inv G (w_sys w')"
  using assms(1)
proof (cases rule: sys_step.cases)
  case handler
  then show ?thesis using handler_step_inv[OF _ assms(2-5)] by simp
next
  case (deletion f depth obj s')
  with DeleteFunc_no_ungate assms(3,4) show ?thesis by (fastforce simp: no_new_ungate_iff river_inv_def)
qed

lemma run_inv:
  assumes "(cluster_step E pods jobs)\<^sup>*\<^sup>* (w0, k0) (w, k)" "op_kube E = K"
    and "inv (\<lambda>_ _ _. False) (w_kube w0)" "river_inv (\<lambda>_ _ _. False) (w_sys w0)"
  shows "inv (granted E pods jobs (w0, k0) (w, k)) (w_kube w) \<and>
    river_inv (granted E pods jobs (w0, k0) (w, k)) (w_sys w)"
  using assms(1)
proof (induction rule: rtranclp_induct2)
  case refl
  with kube_inv_mono[OF assms(3)] river_inv_mono[OF assms(4)] show ?case by blast
next
  case (step w k w' k')
  let ?G = "granted E pods jobs (w0, k0) (w', k')"
  have mono: "granted E pods jobs (w0, k0) (w, k) a n i \<Longrightarrow> ?G a n i" for a n i
    using granted_step[OF _ step(2)] .
  have now: "grants E (w, k) (w', k') a n i \<Longrightarrow> ?G a n i" for a n i using granted_now[OF _ step(1)] .
  have old: "inv ?G (w_kube w)" "river_inv ?G (w_sys w)"
    using kube_inv_mono[OF conjunct1[OF step.IH], of ?G] river_inv_mono[OF conjunct2[OF step.IH], of ?G] mono by blast+
  from step(2) show ?case
  proof cases
    case operator
    from sys_step_inv[OF this assms(2) old now] show ?thesis .
  next
    case (kubernetes p)
    with old kube_change_inv[OF old(1)] show ?thesis by simp
  qed
qed

end

section \<open>Undisturbed handlers\<close>

text \<open>Over a server that changes nothing by itself between the calls of a handler, gates are kept as well.\<close>

context kube_server
begin

lemma patch_labels_inv:
  assumes "kube_inv True G (pods k) (jobs k)" "good_labels G ns kvs" "ko_patchPod K ns n MergePatchType (labelsPatch kvs) k = (e, k')"
  shows "kube_inv True G (pods k') (jobs k') \<and> (e = None \<longrightarrow> (\<forall>p. pods k' (ns, n) = Some p \<longrightarrow> decided (label_get (pod_Labels p))))"
proof (cases e)
  case (Some x)
  with assms patch_fail patchPod_jobs show ?thesis by auto
next
  case None
  with patch_ok[of ns n MergePatchType "labelsPatch kvs" k k'] assms(3) after_labels obtain p where
    p: "pods k (ns, n) = Some p" "pods k' = (pods k)((ns, n) \<mapsto> set_labels kvs p)" by auto
  have "pod_inv True G ns p" using assms(1) p(1) by (simp add: kube_inv_def)
  from set_labels_inv[OF assms(2) this] kube_inv_pod[OF assms(1)] show ?thesis
    by (simp add: p(2) patchPod_jobs[OF assms(3)])
qed

lemma removeGate_inv:
  assumes "kube_inv True G (pods k) (jobs k)" "\<And>p. pods k (ns, n) = Some p \<Longrightarrow> decided (label_get (pod_Labels p))" "removeGate K ns n k = (e, k')"
  shows "kube_inv True G (pods k') (jobs k')"
proof -
  have jobs: "jobs k' = jobs k" using assms(3) patchPod_jobs by (auto simp: removeGate_def split: sum.splits)
  show ?thesis
  proof (cases e)
    case None
    have "length (pod_Gates p) < 2 ^ 63" if "pods k (ns, n) = Some p" for p
      using assms(1) that by (simp add: kube_inv_def pod_inv_def)
    from removeGate_ok[OF assms(3)[unfolded None] this] obtain p i where
      p: "pods k (ns, n) = Some p" "pods k' = (pods k)((ns, n) \<mapsto> drop_gate i p)" by blast
    have "pod_inv True G ns p" using assms(1) p(1) by (simp add: kube_inv_def)
    from drop_gate_inv[OF this assms(2)[OF p(1)]] kube_inv_pod[OF assms(1)] show ?thesis by (simp add: p(2) jobs)
  next
    case (Some x)
    then have "pods k' = pods k" using assms(3) patch_fail by (auto simp: removeGate_def split: sum.splits)
    with assms(1) jobs show ?thesis by simp
  qed
qed

lemma patchJob_inv:
  assumes "kube_inv True G (pods k) (jobs k)" "good_labels G ns kvs" "ko_patchJob K ns n StrategicMergePatchType (unsuspendPatch kvs) k = (e, k')"
  shows "kube_inv True G (pods k') (jobs k')"
proof (cases e)
  case (Some x)
  with assms patchJob_fail patchJob_pods show ?thesis by auto
next
  case None
  with unsuspend_ok assms(3) obtain j where
    j: "jobs k (ns, n) = Some j" "jobs k' = (jobs k)((ns, n) \<mapsto> release_job kvs j)" by blast
  have "assigned G ns (label_get (pt_Labels (job_Template j)))" using assms(1) j(1) by (simp add: kube_inv_def)
  then have "assigned G ns (label_get (pt_Labels (job_Template (release_job kvs j))))"
    using good_labels_assigned[OF assms(2)] by (simp add: release_job_def del: label_get_simps)
  with kube_inv_job[OF assms(1)] show ?thesis by (simp add: j(2) patchJob_pods[OF assms(3)])
qed

lemma patchUnsuspend_inv:
  assumes "kube_inv True G (pods k) (jobs k)" "patchUnsuspend K ns n k = (e, k')"
  shows "kube_inv True G (pods k') (jobs k')"
proof (cases e)
  case (Some x)
  with assms patchJob_fail patchJob_pods show ?thesis by (auto simp: patchUnsuspend_def)
next
  case None
  with assms(2) replaceSuspend_ok obtain j where
    j: "jobs k (ns, n) = Some j" "jobs k' = (jobs k)((ns, n) \<mapsto> j\<lparr>job_Suspend := None\<rparr>)"
    unfolding patchUnsuspend_def by blast
  have "assigned G ns (label_get (pt_Labels (job_Template j)))" using assms(1) j(1) by (simp add: kube_inv_def)
  with kube_inv_job[OF assms(1)] assms(2) show ?thesis by (simp add: j(2) patchJob_pods patchUnsuspend_def)
qed

end

sublocale kube_server \<subseteq> calm: grant_keeper K pods jobs True
proof (unfold_locales, goal_cases)
  case (1 G k ns kvs n e k')
  then show ?case using patch_labels_inv by blast
next
  case (2 G k ns kvs n k1 e k')
  then show ?case using patch_labels_inv[OF 2(1-3)] removeGate_inv[OF _ _ 2(4), of G] by blast
next
  case (3 G k ns kvs n e k')
  then show ?case by (rule patchJob_inv)
next
  case (4 G k ns n e k')
  then show ?case by (rule patchUnsuspend_inv)
next
  case (5 ns sel k ps p)
  then show ?case using list_ok by blast
qed

context kube_server
begin

lemmas gates_kept = calm.run_inv

end

section \<open>Handlers under interference\<close>

text \<open>
  A server on which the rest of Kubernetes acts before and after the effect of every call: pods and
  jobs come, change and go while a handler runs.
\<close>

locale busy_server =
  fixes K :: "('q, 'k) kubeOps" and pods :: "'k \<Rightarrow> (string \<times> string) \<rightharpoonup> 'q pod"
    and after :: "patchType \<Rightarrow> json \<Rightarrow> 'q pod \<Rightarrow> 'q pod result" and jobs :: "'k \<Rightarrow> (string \<times> string) \<rightharpoonup> 'q batch_job"
  assumes pod_call: "ko_patchPod K ns n pt pl k = (e, k') \<Longrightarrow>
      \<exists>P J P'. kube_change (pods k) (jobs k) P J \<and> kube_change P' J (pods k') (jobs k') \<and>
        (if e = None then \<exists>p p'. P (ns, n) = Some p \<and> after pt pl p = Inr p' \<and> P' = P((ns, n) \<mapsto> p') else P' = P)"
    and unsuspended_call: "ko_patchJob K ns n StrategicMergePatchType (unsuspendPatch kvs) k = (e, k') \<Longrightarrow>
      \<exists>P J J'. kube_change (pods k) (jobs k) P J \<and> kube_change P J' (pods k') (jobs k') \<and>
        (if e = None then \<exists>j. J (ns, n) = Some j \<and> J' = J((ns, n) \<mapsto> release_job kvs j) else J' = J)"
    and replaced_call: "ko_patchJob K ns n JSONPatchType replaceSuspendPatch k = (e, k') \<Longrightarrow>
      \<exists>P J J'. kube_change (pods k) (jobs k) P J \<and> kube_change P J' (pods k') (jobs k') \<and>
        (if e = None then \<exists>j. J (ns, n) = Some j \<and> J' = J((ns, n) \<mapsto> j\<lparr>job_Suspend := None\<rparr>) else J' = J)"
    and get_pod: "ko_getPod K ns n k = Inr p \<Longrightarrow> pods k (ns, n) = Some p"
    and list_pods: "ko_listPods K ns sel k = (ps, None) \<Longrightarrow> p \<in> set ps \<Longrightarrow> pod_Namespace p = ns"
    and after_label: "after MergePatchType (labelsPatch kvs) p = Inr (set_labels kvs p)"
    and after_remove: "i < 2 ^ 63 \<Longrightarrow> after JSONPatchType (removeGatePatch (int i)) p =
      (if i < length (pod_Gates p) then Inr (drop_gate i p) else Inl (Errorf ''remove of a missing path''))"
begin

text \<open>A call on a pod keeps the invariant when its effect does.\<close>

lemma pod_call_inv:
  assumes "kube_inv False G (pods k) (jobs k)" "ko_patchPod K ns n pt pl k = (e, k')"
    and "\<And>p p'. pod_inv False G ns p \<Longrightarrow> after pt pl p = Inr p' \<Longrightarrow> pod_inv False G ns p'"
  shows "kube_inv False G (pods k') (jobs k')"
proof -
  from pod_call[OF assms(2)] obtain P J P' where ch: "kube_change (pods k) (jobs k) P J" "kube_change P' J (pods k') (jobs k')"
    and eff: "if e = None then \<exists>p p'. P (ns, n) = Some p \<and> after pt pl p = Inr p' \<and> P' = P((ns, n) \<mapsto> p') else P' = P" by blast
  have inv: "kube_inv False G P J" by (rule kube_change_inv[OF assms(1) ch(1)])
  have "kube_inv False G P' J"
  proof (cases e)
    case None
    with eff obtain p p' where p: "P (ns, n) = Some p" "after pt pl p = Inr p'" "P' = P((ns, n) \<mapsto> p')" by auto
    have "pod_inv False G ns p" using inv p(1) by (simp add: kube_inv_def)
    from kube_inv_pod[OF inv assms(3)[OF this p(2)]] p(3) show ?thesis by simp
  qed (use eff inv in simp)
  then show ?thesis by (rule kube_change_inv[OF _ ch(2)])
qed

lemma job_call_inv:
  assumes "kube_inv False G (pods k) (jobs k)" "kube_change (pods k) (jobs k) P J" "kube_change P J' (pods k') (jobs k')"
    and "if e = None then \<exists>j. J (ns, n) = Some j \<and> J' = J((ns, n) \<mapsto> f j) else J' = J"
    and "\<And>j. assigned G ns (label_get (pt_Labels (job_Template j))) \<Longrightarrow> assigned G ns (label_get (pt_Labels (job_Template (f j))))"
  shows "kube_inv False G (pods k') (jobs k')"
proof -
  have inv: "kube_inv False G P J" by (rule kube_change_inv[OF assms(1,2)])
  have "kube_inv False G P J'"
  proof (cases e)
    case None
    with assms(4) obtain j where j: "J (ns, n) = Some j" "J' = J((ns, n) \<mapsto> f j)" by auto
    with inv have "assigned G ns (label_get (pt_Labels (job_Template (f j))))" using assms(5) by (simp add: kube_inv_def)
    with kube_inv_job[OF inv] j(2) show ?thesis by simp
  qed (use assms(4) inv in simp)
  then show ?thesis by (rule kube_change_inv[OF _ assms(3)])
qed

text \<open>The gate may be removed from another pod than the one that was read, but labels are not touched.\<close>

lemma removeGate_labels:
  assumes "kube_inv False G (pods k) (jobs k)" "removeGate K ns n k = (e, k')"
  shows "kube_inv False G (pods k') (jobs k')"
proof (cases "ko_getPod K ns n k")
  case (Inl x)
  with assms show ?thesis by (simp add: removeGate_def)
next
  case (Inr p)
  let ?i = "nat (gate_index 0 (pod_Gates p))"
  have "length (pod_Gates p) < 2 ^ 63" using get_pod[OF Inr] assms(1) by (simp add: kube_inv_def pod_inv_def)
  then have i: "?i < 2 ^ 63" "int ?i = gate_index 0 (pod_Gates p)"
    using gate_index_range[of "pod_Gates p"] gate_index_nonneg[of 0 "pod_Gates p"] by (cases "pod_Gates p = []"; auto)+
  have "ko_patchPod K ns n JSONPatchType (removeGatePatch (gate_index 0 (pod_Gates p))) k = (e, k')"
    using Inr assms(2) by (simp add: removeGate_def)
  then show ?thesis
  proof (rule pod_call_inv[OF assms(1)])
    fix q q'
    assume "pod_inv False G ns q" "after JSONPatchType (removeGatePatch (gate_index 0 (pod_Gates p))) q = Inr q'"
    then show "pod_inv False G ns q'" using after_remove[OF i(1), of q] unfolding i(2)
      by (auto simp: pod_inv_def drop_gate_def split: if_splits)
  qed
qed

end

sublocale busy_server \<subseteq> busy: grant_keeper K pods jobs False
proof (unfold_locales, goal_cases)
  case (1 G k ns kvs n e k')
  then show ?case by (intro pod_call_inv[OF 1(1,3)]) (auto simp: after_label dest: set_labels_inv[OF 1(2)])
next
  case (2 G k ns kvs n k1 e k')
  have "kube_inv False G (pods k1) (jobs k1)"
    by (intro pod_call_inv[OF 2(1,3)]) (auto simp: after_label dest: set_labels_inv[OF 2(2)])
  then show ?case using 2(4) by (rule removeGate_labels)
next
  case (3 G k ns kvs n e k')
  have labels: "assigned G ns (label_get (pt_Labels (job_Template j))) \<Longrightarrow>
      assigned G ns (label_get (pt_Labels (job_Template (release_job kvs j))))" for j
    using good_labels_assigned[OF 3(2)] by (simp add: release_job_def del: label_get_simps)
  from unsuspended_call[OF 3(3)] obtain P J J' where call: "kube_change (pods k) (jobs k) P J" "kube_change P J' (pods k') (jobs k')"
    "if e = None then \<exists>j. J (ns, n) = Some j \<and> J' = J((ns, n) \<mapsto> release_job kvs j) else J' = J" by blast
  show ?case by (rule job_call_inv[where f = "release_job kvs", OF 3(1) call labels])
next
  case (4 G k ns n e k')
  have labels: "assigned G ns (label_get (pt_Labels (job_Template j))) \<Longrightarrow>
      assigned G ns (label_get (pt_Labels (job_Template (j\<lparr>job_Suspend := None\<rparr>))))" for j by simp
  from replaced_call[OF 4(2)[unfolded patchUnsuspend_def]] obtain P J J' where
    call: "kube_change (pods k) (jobs k) P J" "kube_change P J' (pods k') (jobs k')"
    "if e = None then \<exists>j. J (ns, n) = Some j \<and> J' = J((ns, n) \<mapsto> j\<lparr>job_Suspend := None\<rparr>) else J' = J" by blast
  show ?case by (rule job_call_inv[where f = "\<lambda>j. j\<lparr>job_Suspend := None\<rparr>", OF 4(1) call labels])
next
  case (5 ns sel k ps p)
  then show ?case by (rule list_pods)
qed

context busy_server
begin

lemmas labels_kept = busy.run_inv

end

text \<open>The calm server is a busy one on which nothing happens.\<close>

lemma kube_change_refl [simp]: "kube_change P J P J"
  by (auto simp: kube_change_def pod_kept_def job_kept_def)

context kube_server
begin

lemma calm_busy: "busy_server K pods after jobs"
proof (unfold_locales, goal_cases)
  case (1 ns n pt pl k e k')
  then have "if e = None then \<exists>p p'. pods k (ns, n) = Some p \<and> after pt pl p = Inr p' \<and> pods k' = (pods k)((ns, n) \<mapsto> p')
      else pods k' = pods k"
    using patch_ok[of ns n pt pl k k'] patch_fail by (cases e) auto
  with patchPod_jobs[OF 1] show ?case
    by - (rule exI[of _ "pods k"], rule exI[of _ "jobs k"], rule exI[of _ "pods k'"], simp)
next
  case (2 ns n kvs k e k')
  then have "if e = None then \<exists>j. jobs k (ns, n) = Some j \<and> jobs k' = (jobs k)((ns, n) \<mapsto> release_job kvs j)
      else jobs k' = jobs k"
    using unsuspend_ok[of ns n kvs k k'] patchJob_fail by (cases e) auto
  with patchJob_pods[OF 2] show ?case
    by - (rule exI[of _ "pods k"], rule exI[of _ "jobs k"], rule exI[of _ "jobs k'"], simp)
next
  case (3 ns n k e k')
  then have "if e = None then \<exists>j. jobs k (ns, n) = Some j \<and> jobs k' = (jobs k)((ns, n) \<mapsto> j\<lparr>job_Suspend := None\<rparr>)
      else jobs k' = jobs k"
    using replaceSuspend_ok[of ns n k k'] patchJob_fail by (cases e) auto
  with patchJob_pods[OF 3] show ?case
    by - (rule exI[of _ "pods k"], rule exI[of _ "jobs k"], rule exI[of _ "jobs k'"], simp)
qed (use get_ok list_ok after_labels after_removeGate in auto)

end

text \<open>The in-memory server where pods are evicted after every patch of a pod.\<close>

definition evict :: "(string \<times> string) set \<Rightarrow> 'q mem_cluster \<Rightarrow> 'q mem_cluster" where
  "evict V k = k\<lparr>mc_pods := mc_pods k |` (- V)\<rparr>"

definition evicting_ops :: "(string \<times> string) set \<Rightarrow> ('q pod \<Rightarrow> string \<Rightarrow> bool) \<Rightarrow> ('q, 'q mem_cluster) kubeOps" where
  "evicting_ops V matches = (mem_ops matches)\<lparr>ko_patchPod := (\<lambda>ns n pt pl k. apsnd (evict V) (mem_patchPod ns n pt pl k))\<rparr>"

lemma kube_change_evict: "kube_change P J (P |` A) J"
  by (auto simp: kube_change_def pod_kept_def job_kept_def restrict_map_def split: if_splits)

interpretation evicting: busy_server "evicting_ops V matches" mc_pods mem_after mc_jobs for V matches
proof (unfold_locales, goal_cases)
  case (1 ns n pt pl k e k')
  then obtain k1 where k1: "ko_patchPod (mem_ops matches) ns n pt pl k = (e, k1)" "k' = evict V k1"
    by (auto simp: evicting_ops_def mem_ops_def apsnd_def map_prod_def split: prod.splits)
  then have "kube_change (mc_pods k1) (mc_jobs k) (mc_pods k') (mc_jobs k')"
    using mem_srv.patchPod_jobs[OF k1(1)] by (simp add: evict_def kube_change_evict)
  moreover have "if e = None then \<exists>p p'. mc_pods k (ns, n) = Some p \<and> mem_after pt pl p = Inr p' \<and>
      mc_pods k1 = (mc_pods k)((ns, n) \<mapsto> p') else mc_pods k1 = mc_pods k"
    using mem.patch_ok[of matches ns n pt pl k k1] mem.patch_fail k1(1) by (cases e) auto
  ultimately show ?case
    by - (rule exI[of _ "mc_pods k"], rule exI[of _ "mc_jobs k"], rule exI[of _ "mc_pods k1"], simp)
next
  case (2 ns n kvs k e k')
  then have "ko_patchJob (mem_ops matches) ns n StrategicMergePatchType (unsuspendPatch kvs) k = (e, k')" by (simp add: evicting_ops_def)
  then show ?case by (rule busy_server.unsuspended_call[OF kube_server.calm_busy[OF mem_srv.kube_server_axioms]])
next
  case (3 ns n k e k')
  then have "ko_patchJob (mem_ops matches) ns n JSONPatchType replaceSuspendPatch k = (e, k')" by (simp add: evicting_ops_def)
  then show ?case by (rule busy_server.replaced_call[OF kube_server.calm_busy[OF mem_srv.kube_server_axioms]])
next
  case (4 ns n k p)
  then show ?case using mem.get_ok[of matches ns n k p] by (simp add: evicting_ops_def)
next
  case (5 ns sel k ps p)
  then show ?case using mem.list_ok[of matches ns sel k ps p] by (simp add: evicting_ops_def)
qed (simp_all only: mem_after_labels mem_after_removeGate)

end
