(* ===== verification/System_Runs.thy ===== *)
theory System_Runs
  imports System_Grants
begin

text \<open>
  Whole runs of the operator and the scheduler plugin: every node the plugin assigns was granted
  (over all runs), and a pod that is submitted while the services answer reaches the plugin with its
  nodes (there is such a run). The locales \<open>live_server\<close> and \<open>live_client\<close> add to the
  contracts of the API server and of the FluxJob client that they answer requests for objects that
  exist.
\<close>

section \<open>Services that answer\<close>

locale live_server = kube_server K pods after jobs
  for K :: "('q, 'k) kubeOps" and pods :: "'k \<Rightarrow> (string \<times> string) \<rightharpoonup> 'q pod"
    and after :: "patchType \<Rightarrow> json \<Rightarrow> 'q pod \<Rightarrow> 'q pod result"
    and jobs :: "'k \<Rightarrow> (string \<times> string) \<rightharpoonup> 'q batch_job" +
  assumes config_ok: "ko_newForConfig K = None"
    and get_present: "pods k (ns, n) = Some p \<Longrightarrow> ko_getPod K ns n k = Inr p"
    and patch_present: "pods k (ns, n) = Some p \<Longrightarrow> after pt pl p = Inr p' \<Longrightarrow> \<exists>k'. ko_patchPod K ns n pt pl k = (None, k')"
    and can_create: "\<exists>k'. pods k' = (pods k)((ns, n) \<mapsto> p) \<and> jobs k' = jobs k"
begin

text \<open>Ungating a single pod that exists and has a gate succeeds.\<close>

lemma ungate_present:
  assumes "ua_Type u = jobWrapped_String JobWrappedPod" "pods k (ua_Namespace u, ua_Name u) = Some p"
    and "pod_Gates p \<noteq> []" "length (pod_Gates p) < 2 ^ 63"
  shows "\<exists>k'. UngateWorker_Work K u k = (Ret None, k')"
proof -
  let ?ns = "ua_Namespace u" and ?n = "ua_Name u" and ?kvs = "node_labels (ua_Nodes u) (ua_JobID u)"
  obtain k1 where 1: "ko_patchPod K ?ns ?n MergePatchType (labelsPatch ?kvs) k = (None, k1)"
    using patch_present[OF assms(2) after_labels] by blast
  have k1: "pods k1 (?ns, ?n) = Some (set_labels ?kvs p)"
    using patch_ok[OF 1] assms(2) after_labels by auto
  let ?i = "nat (gate_index 0 (pod_Gates p))"
  have i: "int ?i = gate_index 0 (pod_Gates p)" "?i < length (pod_Gates p)"
    using gate_index_range[OF assms(3)] by (simp_all add: nat_less_iff)
  with after_removeGate[of ?i "set_labels ?kvs p"] assms(4) have
    "after JSONPatchType (removeGatePatch (gate_index 0 (pod_Gates p))) (set_labels ?kvs p) = Inr (drop_gate ?i (set_labels ?kvs p))"
    by simp
  from patch_present[OF k1 this] get_present[OF k1] obtain k2 where "removeGate K ?ns ?n k1 = (None, k2)"
    by (auto simp: removeGate_def)
  with 1 show ?thesis using assms(1) config_ok by (simp add: UngateWorker_Work_def)
qed

lemmas single_result = ungate_single

end

interpretation mem_live: live_server "mem_ops matches" mc_pods mem_after mc_jobs for matches
proof (unfold_locales, goal_cases)
  case (4 k ns n p)
  show ?case by (intro exI[of _ "k\<lparr>mc_pods := (mc_pods k)((ns, n) \<mapsto> p)\<rparr>"]) simp
qed (auto simp: mem_ops_def mem_patchPod_def)

locale live_client = crd_client C fluxjobs
  for C :: "'k clientOps" and fluxjobs :: "'k \<Rightarrow> (string \<times> string) \<rightharpoonup> fluxJob" +
  assumes get_existing: "fluxjobs k (ns, n) = Some j \<Longrightarrow> co_Get C ns n k = Inr j"
    and get_absent: "fluxjobs k (ns, n) = None \<Longrightarrow> \<exists>e. co_Get C ns n k = Inl e \<and> isNotFound e"
    and create_absent: "fluxjobs k (fj_key j) = None \<Longrightarrow> \<exists>k'. co_Create C j k = (None, k')"
    and status_existing: "fluxjobs k (fj_key j) \<noteq> None \<Longrightarrow> \<exists>k'. co_UpdateStatus C j k = (None, k')"

interpretation mem_live_crd: live_client mem_client "\<lambda>k. k"
  by unfold_locales (auto simp: mem_client_def split: option.splits)

section \<open>From admission to the river queue\<close>

text \<open>The pod as the webhook returns it, and the FluxJob it creates for it.\<close>

definition admitted :: "'q pod \<Rightarrow> 'q pod" where
  "admitted p = p\<lparr>pod_Meta := meta_set_label SeenLabel ''yes'' (pod_Meta p), pod_Spec := use_scheduler (add_gate (pod_Spec p))\<rparr>"

definition pod_fluxjob :: "string \<Rightarrow> string \<Rightarrow> string \<Rightarrow> fluxJob" where
  "pod_fluxjob ns n yaml = \<lparr>fj_Name = GetJobName JobWrappedPod n, fj_Namespace = ns,
     fj_Spec = \<lparr>fs_JobSpec = yaml, fs_Type = JobWrappedPod, fs_Name = n, fs_Object = [], fs_Duration = 0,
                fs_Reservation = False, fs_Nodes = 1, fs_Resources = []\<rparr>, fj_Status = []\<rparr>"

text \<open>The library's jobspec for a pod.\<close>

definition pod_jobspec :: "'js jobspecOps \<Rightarrow> 'q quantityOps \<Rightarrow> 'q pod \<Rightarrow> string \<Rightarrow> bool" where
  "pod_jobspec J Q p yaml \<longleftrightarrow>
     (\<exists>js. jo_NewSimpleJobspec J (pod_Name p) (''echo '' @ pod_Namespace p @ '' '' @ pod_Name p) 1
             (pr_Cpu (GeneratePodResources Q (ps_Containers (pod_Spec p)))) = Inr js \<and>
           jo_JobspecToYaml J (jo_setDuration J 0 js) = Inr yaml)"

definition pod_request :: "('r, 'q) codec \<Rightarrow> 'r \<Rightarrow> 'q pod \<Rightarrow> bool" where
  "pod_request D req p \<longleftrightarrow> (\<exists>e. cd_job D req = Inl e) \<and> (\<exists>e. cd_deployment D req = Inl e) \<and>
     (\<exists>e. cd_replicaset D req = Inl e) \<and> (\<exists>e. cd_statefulset D req = Inl e) \<and> cd_pod D req = Inr p \<and>
     (\<exists>b. cm_pod D (admitted p) = Inr b)"

context live_client
begin

lemma webhook_run:
  assumes "pod_request D req p" "pod_Name p \<noteq> []" "label_get (pod_Labels p) SeenLabel = None"
    and "pod_jobspec J Q p yaml" "fluxjobs k (pod_Namespace p, GetJobName JobWrappedPod (pod_Name p)) = None"
  shows "\<exists>b k'. Handle D C J Q req k = Ret (PatchResponseFromRaw b, k') \<and> cm_pod D (admitted p) = Inr b \<and>
    fluxjobs k' (pod_Namespace p, GetJobName JobWrappedPod (pod_Name p)) = Some (pod_fluxjob (pod_Namespace p) (pod_Name p) yaml)"
proof -
  let ?j = "(pod_fluxjob (pod_Namespace p) (pod_Name p) yaml)\<lparr>fj_Status := SubmitStatusNew\<rparr>"
  have absent: "fluxjobs k (fj_key ?j) = None" using assms(5) by (simp add: pod_fluxjob_def)
  then obtain k' where create: "co_Create C ?j k = (None, k')" using create_absent by blast
  obtain e where "co_Get C (pod_Namespace p) (GetJobName JobWrappedPod (pod_Name p)) k = Inl e" "isNotFound e"
    using get_absent[OF assms(5)] by blast
  with create assms(4) have "SubmitFluxJob C J Q JobWrappedPod (pod_Name p) (pod_Namespace p) 1 (ps_Containers (pod_Spec p)) k = (None, k')"
    by (auto simp: SubmitFluxJob_def pod_jobspec_def pod_fluxjob_def Let_def)
  then have "EnqueuePod C J Q p k = (None, admitted p, k')"
    using assms(2,3) by (simp add: EnqueuePod_new admitted_def)
  moreover have "fluxjobs k' (pod_Namespace p, GetJobName JobWrappedPod (pod_Name p)) = Some (pod_fluxjob (pod_Namespace p) (pod_Name p) yaml)"
    using create_ok[OF create] by (simp add: pod_fluxjob_def)
  moreover obtain b where "cm_pod D (admitted p) = Inr b" using assms(1) by (auto simp: pod_request_def)
  ultimately show ?thesis
    using assms(1) by (auto simp: Handle_def handle_skips HandlePod_def marshal_result_def pod_request_def)
qed

lemma reconcile_run:
  assumes "fluxjobs k (fj_key j) = Some j" "fj_Status j \<noteq> SubmitStatusSubmit" "\<not> IsInScheduleLoop s"
    and "(fj_Namespace j, fs_Name (fj_Spec j)) \<notin> set (map row_key (db_pending (s_db s)))"
  shows "\<exists>s' k'. Reconcile C no_faults (easy_queue depth) (fj_Namespace j) (fj_Name j) s k = Ret ((no_result, None), s', k') \<and>
    in_river (AJob (row_jobArgs (enqueue_row j (db_now (s_db s))))) s'"
proof -
  obtain s' where s': "submitJob no_faults (easy_queue depth) j s = Ret ((no_result, None), s')"
    "in_river (AJob (row_jobArgs (enqueue_row j (db_now (s_db s))))) s'"
    using submitJob_ok[OF assms(3,4)] unfolding in_river_def by force
  obtain k' where "co_UpdateStatus C (j\<lparr>fj_Status := SubmitStatusSubmit\<rparr>) k = (None, k')"
    using status_existing[of k "j\<lparr>fj_Status := SubmitStatusSubmit\<rparr>"] assms(1) by auto
  with s' get_existing[of k] assms(1,2) show ?thesis by (simp add: Reconcile_def updateStatus_def)
qed

end

section \<open>From the river queue to the plugin\<close>

lemma job_worker_run:
  assumes "gated_type (ja_Type args)" "ja_Reservation args \<noteq> 1" "fo_NewClient X = None"
    and "fo_Match X \<lparr>mr_Jobspec = ja_Jobspec args, mr_Reservation = False\<rparr> (w_fluxion w) = (Inr resp, x)"
    and "mp_Allocation resp \<noteq> []" "parseNodes (mp_Allocation resp) = Inr nodes"
  shows "\<exists>w'. JobWorker_Work K X no_workerFaults args w = (None, w') \<and> w_kube w' = w_kube w \<and>
    in_river (AUngate \<lparr>ua_Name = ja_Name args, ua_Type = ja_Type args, ua_Namespace = ja_Namespace args,
       ua_Nodes = nodes, ua_JobID = mp_Jobid resp\<rparr>) (w_sys w')"
  using assms
  by (simp add: JobWorker_Work_def releaseJob_gated ungatePod_def reserveJob_def no_workerFaults_def in_river_def Let_def)

lemma PreFilter_first:
  assumes "label_get (pod_Labels p) UnschedulableLabel = None" "label_get (pod_Labels p) job_completion_index_label = None"
    and "label_get (pod_Labels p) NodesLabel = Some (join nodes ''__'')"
    and "nodes \<noteq> []" "\<And>n. n \<in> set nodes \<Longrightarrow> CHR ''_'' \<notin> set n"
  shows "PreFilter p = Ret (Some {hd nodes}, \<lparr>st_Code = Success, st_Message = ''Fluxion scheduler assigned node''\<rparr>)"
proof -
  have "split (join nodes ''__'') ''__'' = nodes" using assms(4,5) by (intro split_join) auto
  moreover have "atoi (itoa 0) = (0, None)" unfolding atoi_def by (intro parseInt_itoa) auto
  moreover have "itoa 0 = ''0''" by code_simp
  ultimately have "split (join nodes ''__'') ''__'' = nodes" "atoi ''0'' = (0, None)" by simp_all
  then show ?thesis using assms(1-4) by (simp add: PreFilter_def Let_def hd_conv_nth)
qed

text \<open>An allocation without a node vertex is not refused: its label is empty, and the plugin assigns the
  node with the empty name.\<close>

lemma PreFilter_no_nodes:
  assumes "label_get (pod_Labels p) UnschedulableLabel = None" "label_get (pod_Labels p) job_completion_index_label = None"
    and "label_get (pod_Labels p) NodesLabel = Some (join [] ''__'')"
  shows "PreFilter p = Ret (Some {[]}, \<lparr>st_Code = Success, st_Message = ''Fluxion scheduler assigned node''\<rparr>)"
  using PreFilter_first[OF assms(1,2), of "[[]]"] assms(3) by simp

text \<open>Removing the gate looks at no label. A pod that was deleted and created again after the labels were
  written loses its gate without having nodes, and the plugin refuses it.\<close>

lemma removeGate_ignores_labels:
  assumes "kube_api K pods after" "pods k (ns, n) = Some p" "removeGate K ns n k = (None, k')"
    and "length (pod_Gates p) < 2 ^ 63" "distinct (pod_Gates p)" "has_gate (pod_Gates p)"
    and "label_get (pod_Labels p) UnschedulableLabel = None" "label_get (pod_Labels p) NodesLabel = None"
  shows "\<exists>p'. pods k' (ns, n) = Some p' \<and> \<not> has_gate (pod_Gates p') \<and>
    PreFilter p' = Ret (None, \<lparr>st_Code = UnschedulableAndUnresolvable, st_Message = ''Pod missing nodes label''\<rparr>)"
proof -
  let ?p = "drop_gate (nat (gate_index 0 (pod_Gates p))) p"
  have "pods k' (ns, n) = Some ?p" using kube_api.removeGate_ok[OF assms(1,3)] assms(2,4) by auto
  moreover have "pod_Gates ?p = remove1 SchedulingGateName (pod_Gates p)"
    using gates_after_removal[of "pod_Gates p"] assms(6) by (simp add: drop_gate_def has_gate_iff)
  then have "\<not> has_gate (pod_Gates ?p)" using assms(5) by (simp add: has_gate_iff)
  moreover have "PreFilter ?p = Ret (None, \<lparr>st_Code = UnschedulableAndUnresolvable, st_Message = ''Pod missing nodes label''\<rparr>)"
    using assms(7,8) by (simp add: PreFilter_def drop_gate_def)
  ultimately show ?thesis by blast
qed

text \<open>The node the plugin reads is one of the nodes in the label.\<close>

lemma PreFilter_node:
  assumes "PreFilter p = Ret (Some N, st)"
  obtains v x where "label_get (pod_Labels p) NodesLabel = Some v" "x \<in> set (split v ''__'')" "N = {x}"
proof -
  from assms obtain v i where v: "label_get (pod_Labels p) NodesLabel = Some v" "N = {split v ''__'' ! nat i}"
    and i: "\<not> int (length (split v ''__'')) \<le> i" "\<not> i < 0"
    by (auto simp: PreFilter_def Let_def split: option.splits prod.splits if_splits)
  from i have "split v ''__'' ! nat i \<in> set (split v ''__'')" by (simp add: nat_less_iff)
  with v show thesis using that by blast
qed

lemma stamp_split:
  assumes "stamp nodes i m" "m NodesLabel = Some v" "nodes \<noteq> []" "\<forall>n \<in> set nodes. CHR ''_'' \<notin> set n"
  shows "set (split v ''__'') \<subseteq> set nodes"
proof -
  have "split (join xs ''__'') ''__'' = xs" if "xs \<noteq> []" "set xs \<subseteq> set nodes" for xs
    using that assms(4) by (intro split_join) auto
  from this[of nodes] this[of "[v]"] assms(1-3) show ?thesis by (auto simp: stamp_def)
qed

text \<open>Creating one pod with the gate is a change of the cluster that the steps allow.\<close>

lemma kube_change_create: "pod_new p \<Longrightarrow> kube_change P J (P((ns, n) \<mapsto> p)) J"
  by (auto simp: kube_change_def pod_kept_def job_kept_def)

lemma admitted_simps [simp]:
  "pod_Name (admitted p) = pod_Name p" "pod_Namespace (admitted p) = pod_Namespace p"
  "pod_Gates (admitted p) = pod_Gates p @ [SchedulingGateName]"
  "l \<noteq> SeenLabel \<Longrightarrow> label_get (pod_Labels (admitted p)) l = label_get (pod_Labels p) l"
  by (simp_all add: admitted_def)

lemma seen_label_neqs [simp]: "FluxJobIdLabel \<noteq> SeenLabel" "NodesLabel \<noteq> SeenLabel" "UnschedulableLabel \<noteq> SeenLabel" "job_completion_index_label \<noteq> SeenLabel"
  "job_completion_index_label \<noteq> NodesLabel" "job_completion_index_label \<noteq> FluxJobIdLabel"
  by (simp_all add: label_name_defs job_completion_index_label_def)

text \<open>A pod fit for the queue: named, new to the webhook, without the labels the program writes.\<close>

definition fresh_pod :: "'q pod \<Rightarrow> bool" where
  "fresh_pod p \<longleftrightarrow> pod_Name p \<noteq> [] \<and> \<not> has_gate (pod_Gates p) \<and> length (pod_Gates p) < 2 ^ 63 - 1 \<and>
     list_all (\<lambda>l. label_get (pod_Labels p) l = None) [SeenLabel, NodesLabel, FluxJobIdLabel, UnschedulableLabel, job_completion_index_label]"

text \<open>The plugin's view of an admitted pod once it was ungated.\<close>

lemma ungated_admitted:
  fixes i :: int
  assumes "fresh_pod p" "nodes \<noteq> []" "\<forall>n \<in> set nodes. CHR ''_'' \<notin> set n"
  defines "p' \<equiv> ungated_pod (node_labels nodes i) (admitted p)"
  shows "pod_Gates p' = pod_Gates p" "label_get (pod_Labels p') FluxJobIdLabel = Some (itoa i)"
    "PreFilter p' = Ret (Some {hd nodes}, \<lparr>st_Code = Success, st_Message = ''Fluxion scheduler assigned node''\<rparr>)"
proof -
  have p': "p' = ungated_pod [(NodesLabel, join nodes ''__''), (FluxJobIdLabel, itoa i)] (admitted p)"
    by (simp add: p'_def node_labels_def)
  show "pod_Gates p' = pod_Gates p" using assms(1) by (simp add: p' ungated_pod_gates fresh_pod_def has_gate_iff remove1_append)
  show "label_get (pod_Labels p') FluxJobIdLabel = Some (itoa i)" by (simp add: p')
  show "PreFilter p' = Ret (Some {hd nodes}, \<lparr>st_Code = Success, st_Message = ''Fluxion scheduler assigned node''\<rparr>)"
    by (rule PreFilter_first) (use assms(1-3) in \<open>simp_all add: p' fresh_pod_def\<close>)
qed

text \<open>The webhook, the creation of the pod and the controller bring the pod's job to river.\<close>

lemma pod_queued:
  assumes server: "live_server (op_kube E) pods after jobs" and client: "live_client (op_client E) fluxjobs"
    and req: "pod_request (op_codec E) req p" "pod_jobspec (op_jobspec E) (op_quantity E) p yaml" and p: "fresh_pod p"
    and absent: "fluxjobs k (pod_Namespace p, GetJobName JobWrappedPod (pod_Name p)) = None"
    and queue: "\<not> IsInScheduleLoop (w_sys w)" "(pod_Namespace p, pod_Name p) \<notin> set (map row_key (db_pending (s_db (w_sys w))))"
  obtains w' k' args where "(work_step E pods jobs)\<^sup>*\<^sup>* (w, k) (w', k')" "w_fluxion w' = w_fluxion w"
    "pods (w_kube w') = (pods (w_kube w))((pod_Namespace p, pod_Name p) \<mapsto> admitted p)" "in_river (AJob args) (w_sys w')"
    "ja_Type args = jobWrapped_String JobWrappedPod" "ja_Reservation args = 0" "ja_Jobspec args = yaml"
    "ja_Name args = pod_Name p" "ja_Namespace args = pod_Namespace p" "no_new is_cleanup (w_sys w) (w_sys w')"
proof -
  let ?x = "(pod_Namespace p, pod_Name p)" and ?step = "work_step E pods jobs"
  let ?j = "pod_fluxjob (pod_Namespace p) (pod_Name p) yaml"
  let ?args = "row_jobArgs (enqueue_row ?j (db_now (s_db (w_sys w))))"
  have new: "pod_new (admitted p)" using p by (simp add: pod_new_def fresh_pod_def has_gate_iff)
  have "pod_Name p \<noteq> []" "label_get (pod_Labels p) SeenLabel = None" using p by (simp_all add: fresh_pod_def)
  from live_client.webhook_run[OF client req(1) this req(2) absent] obtain b k1 where
    hook: "Handle (op_codec E) (op_client E) (op_jobspec E) (op_quantity E) req k = Ret (PatchResponseFromRaw b, k1)"
    and k1: "fluxjobs k1 (fj_key ?j) = Some ?j" by (auto simp: pod_fluxjob_def)
  have 1: "?step (w, k) (w, k1)" by (rule work_step.handled) (rule handler_step.webhook[OF hook])
  obtain q where q: "pods q = (pods (w_kube w))(?x \<mapsto> admitted p)" "jobs q = jobs (w_kube w)"
    using live_server.can_create[OF server] by blast
  let ?w2 = "w\<lparr>w_kube := q\<rparr>"
  have 2: "?step (w, k1) (?w2, k1)"
    by (rule work_step.changed) (simp only: q kube_change_create[OF new])
  obtain s' k2 where rec: "Reconcile (op_client E) no_faults (easy_queue 1) (fj_Namespace ?j) (fj_Name ?j) (w_sys ?w2) k1 =
      Ret ((no_result, None), s', k2)" and args: "in_river (AJob ?args) s'"
    using live_client.reconcile_run[OF client k1, of "w_sys w" 1] queue by (auto simp: pod_fluxjob_def submitStatus_defs)
  have 3: "?step (?w2, k1) (?w2\<lparr>w_sys := s'\<rparr>, k2)" by (rule work_step.handled) (rule handler_step.reconcile[OF rec])
  from 1 2 3 have run: "?step\<^sup>*\<^sup>* (w, k) (?w2\<lparr>w_sys := s'\<rparr>, k2)" by (auto intro: converse_rtranclp_into_rtranclp)
  have river: "in_river (AJob ?args) (w_sys (?w2\<lparr>w_sys := s'\<rparr>))" using args by simp
  have "no_new is_cleanup (w_sys w) s'" using Reconcile_no_new[OF rec, of is_cleanup] by simp
  then show thesis by (intro that[OF run _ _ river])
    (simp_all add: q row_jobArgs_def enqueue_row_def pod_fluxjob_def jobWrapped_String_def)
qed

text \<open>The job worker and the ungate worker bring it to the plugin.\<close>

lemma pod_run:
  assumes server: "live_server (op_kube E) pods after jobs" and client: "live_client (op_client E) fluxjobs"
    and req: "pod_request (op_codec E) req p" "pod_jobspec (op_jobspec E) (op_quantity E) p yaml" and p: "fresh_pod p"
    and absent: "fluxjobs k (pod_Namespace p, GetJobName JobWrappedPod (pod_Name p)) = None"
    and queue: "\<not> IsInScheduleLoop (w_sys w)" "(pod_Namespace p, pod_Name p) \<notin> set (map row_key (db_pending (s_db (w_sys w))))"
    and fluxion: "fo_NewClient (op_fluxion E) = None"
      "fo_Match (op_fluxion E) \<lparr>mr_Jobspec = yaml, mr_Reservation = False\<rparr> (w_fluxion w) = (Inr resp, x)"
      "mp_Allocation resp \<noteq> []" "parseNodes (mp_Allocation resp) = Inr nodes"
  obtains w' k' where "(work_step E pods jobs)\<^sup>*\<^sup>* (w, k) (w', k')"
    "pods (w_kube w') = (pods (w_kube w))((pod_Namespace p, pod_Name p) \<mapsto>
       ungated_pod (node_labels nodes (mp_Jobid resp)) (admitted p))" "no_new is_cleanup (w_sys w) (w_sys w')"
proof -
  let ?x = "(pod_Namespace p, pod_Name p)"
  let ?u = "\<lparr>ua_Name = pod_Name p, ua_Type = jobWrapped_String JobWrappedPod, ua_Namespace = pod_Namespace p,
    ua_Nodes = nodes, ua_JobID = mp_Jobid resp\<rparr>"
  obtain w3 k3 args where run: "(work_step E pods jobs)\<^sup>*\<^sup>* (w, k) (w3, k3)" and w3: "w_fluxion w3 = w_fluxion w"
    "pods (w_kube w3) = (pods (w_kube w))(?x \<mapsto> admitted p)" "in_river (AJob args) (w_sys w3)"
    and args: "ja_Type args = jobWrapped_String JobWrappedPod" "ja_Reservation args = 0" "ja_Jobspec args = yaml"
    "ja_Name args = pod_Name p" "ja_Namespace args = pod_Namespace p" and new3: "no_new is_cleanup (w_sys w) (w_sys w3)"
    by (rule pod_queued[OF server client req p absent queue])
  obtain w4 where work: "JobWorker_Work (op_kube E) (op_fluxion E) no_workerFaults args w3 = (None, w4)"
    and w4: "w_kube w4 = w_kube w3" "in_river (AUngate ?u) (w_sys w4)"
    using job_worker_run[OF _ _ fluxion(1), of args w3 resp x nodes "op_kube E"] fluxion(2-4) w3(1) args
    by (auto simp: gated_type_def)
  have 4: "work_step E pods jobs (w3, k3) (w4, k3)" by (intro work_step.handled handler_step.job_worker[OF w3(3) work])
  have pod: "pods (w_kube w4) ?x = Some (admitted p)" by (simp add: w4(1) w3(2))
  have gates: "pod_Gates (admitted p) \<noteq> []" "length (pod_Gates (admitted p)) < 2 ^ 63" using p by (simp_all add: fresh_pod_def)
  obtain k' where ung: "UngateWorker_Work (op_kube E) ?u (w_kube w4) = (Ret None, k')"
    using live_server.ungate_present[OF server, of ?u "w_kube w4"] pod gates by auto
  have 5: "work_step E pods jobs (w4, k3) (w4\<lparr>w_kube := k'\<rparr>, k3)"
    by (rule work_step.handled) (rule handler_step.ungate_worker[OF w4(2) ung])
  have "pods k' = (pods (w_kube w3))(?x \<mapsto> ungated_pod (node_labels nodes (mp_Jobid resp)) (admitted p))"
    using live_server.single_result[OF server, of ?u "w_kube w4"] ung pod gates w4(1) by simp
  moreover have "no_new is_cleanup (w_sys w) (w_sys w4)" using no_new_trans[OF new3 JobWorker_no_new[OF work]] by simp
  ultimately show thesis using run 4 5 w3(2)
    by (intro that[of "w4\<lparr>w_kube := k'\<rparr>" k3]) (auto intro: rtranclp.rtrancl_into_rtrancl)
qed

section \<open>Properties\<close>

text \<open>A server with one pod, an operator over it, and a request for the pod.\<close>

definition pod_codec :: "(int pod, int) codec" where
  "pod_codec = \<lparr>cd_job = (\<lambda>_. Inl (Errorf ''kind'')), cd_deployment = (\<lambda>_. Inl (Errorf ''kind'')),
     cd_replicaset = (\<lambda>_. Inl (Errorf ''kind'')), cd_statefulset = (\<lambda>_. Inl (Errorf ''kind'')), cd_pod = Inr,
     cm_job = (\<lambda>_. Inr ''job''), cm_workload = (\<lambda>_. Inr ''workload''), cm_pod = (\<lambda>p. Inr (pod_Name p))\<rparr>"

definition run_operator ::
  "(int pod, int, unit, int mem_cluster, fluxionCall list, (string \<times> string) \<rightharpoonup> fluxJob) operator" where
  "run_operator = \<lparr>op_codec = pod_codec, op_client = mem_client, op_jobspec = ex_yaml ''spec'', op_quantity = nano_ops,
     op_kube = ex_server, op_fluxion = ex_fluxion ex_text, op_collect = collect_by_name\<rparr>"

definition run_world :: "(int mem_cluster, fluxionCall list) world" where
  "run_world = \<lparr>w_sys = ex_sys, w_kube = \<lparr>mc_order = [], mc_pods = Map.empty, mc_jobs = Map.empty\<rparr>, w_fluxion = []\<rparr>"

lemma ex_server_live: "live_server (op_kube run_operator) mc_pods mem_after mc_jobs"
  unfolding run_operator_def ex_server_def by (simp add: mem_live.live_server_axioms)

lemma ex_run_hyps:
  "live_client (op_client run_operator) (\<lambda>k. k)" "pod_request (op_codec run_operator) (ex_new_pod ''z'') (ex_new_pod ''z'')"
  "pod_jobspec (op_jobspec run_operator) (op_quantity run_operator) (ex_new_pod ''z'') ''spec''" "fresh_pod (ex_new_pod ''z'')"
  "\<not> IsInScheduleLoop (w_sys run_world)"
  "(pod_Namespace (ex_new_pod ''z''), pod_Name (ex_new_pod ''z'')) \<notin> set (map row_key (db_pending (s_db (w_sys run_world))))"
  "fo_NewClient (op_fluxion run_operator) = None"
  "fo_Match (op_fluxion run_operator) \<lparr>mr_Jobspec = ''spec'', mr_Reservation = False\<rparr> (w_fluxion run_world) =
     (Inr (ex_resp ex_text), [CMatch \<lparr>mr_Jobspec = ''spec'', mr_Reservation = False\<rparr>])"
  "mp_Allocation (ex_resp ex_text) \<noteq> []" "parseNodes (mp_Allocation (ex_resp ex_text)) = Inr [''n0'', ''n1'']"
proof -
  show "live_client (op_client run_operator) (\<lambda>k. k)" by (simp add: run_operator_def mem_live_crd.live_client_axioms)
  show "pod_request (op_codec run_operator) (ex_new_pod ''z'') (ex_new_pod ''z'')"
    by (simp add: pod_request_def run_operator_def pod_codec_def)
  show "pod_jobspec (op_jobspec run_operator) (op_quantity run_operator) (ex_new_pod ''z'') ''spec''"
    by (simp add: pod_jobspec_def run_operator_def ex_yaml_def)
  show "fresh_pod (ex_new_pod ''z'')" by (simp add: fresh_pod_def ex_object_defs)
  show "\<not> IsInScheduleLoop (w_sys run_world)" by (simp add: run_world_def)
  show "(pod_Namespace (ex_new_pod ''z''), pod_Name (ex_new_pod ''z'')) \<notin> set (map row_key (db_pending (s_db (w_sys run_world))))"
    by (simp add: run_world_def ex_queue_defs row_key_def ex_object_defs)
qed (use ex_nodes in \<open>simp_all add: run_operator_def run_world_def ex_fluxion_def log_fluxion_def ex_resp_def\<close>)

lemma ex_run:
  "\<exists>w k. (work_step run_operator mc_pods mc_jobs)\<^sup>*\<^sup>* (run_world, Map.empty) (w, k) \<and>
    mc_pods (w_kube w) (''ns'', ''z'') = Some (ungated_pod (node_labels [''n0'', ''n1''] 7) (admitted (ex_new_pod ''z''))) \<and>
    no_new is_cleanup (w_sys run_world) (w_sys w)"
proof -
  have "Map.empty (pod_Namespace (ex_new_pod ''z''), GetJobName JobWrappedPod (pod_Name (ex_new_pod ''z''))) = None" by simp
  from pod_run[OF ex_server_live ex_run_hyps(1-4) this ex_run_hyps(5-)] obtain w k where
    "(work_step run_operator mc_pods mc_jobs)\<^sup>*\<^sup>* (run_world, Map.empty) (w, k)"
    "mc_pods (w_kube w) = (mc_pods (w_kube run_world))((pod_Namespace (ex_new_pod ''z''), pod_Name (ex_new_pod ''z'')) \<mapsto>
       ungated_pod (node_labels [''n0'', ''n1''] (mp_Jobid (ex_resp ex_text))) (admitted (ex_new_pod ''z'')))"
    "no_new is_cleanup (w_sys run_world) (w_sys w)" by blast
  moreover have "mp_Jobid (ex_resp ex_text) = 7" "pod_Namespace (ex_new_pod ''z'') = ''ns''" "pod_Name (ex_new_pod ''z'') = ''z''"
    by (simp_all add: ex_resp_def ex_object_defs)
  ultimately show ?thesis by auto
qed

lemma ex_start:
  "\<not> in_river (AUngate u) (w_sys run_world)" "mc_pods (w_kube run_world) (ns, n) = None" "mc_jobs (w_kube run_world) (ns, n) = None"
  by (simp_all add: run_world_def in_river_def ex_sys_def)

lemma ex_node_names: "\<forall>n \<in> set [''n0'', ''n1'']. CHR ''_'' \<notin> set n"
  by simp

lemma ex_plugin:
  "PreFilter (ungated_pod (node_labels [''n0'', ''n1''] 7) (admitted (ex_new_pod ''z''))) =
    Ret (Some {''n0''}, \<lparr>st_Code = Success, st_Message = ''Fluxion scheduler assigned node''\<rparr>)"
  "pod_Gates (ungated_pod (node_labels [''n0'', ''n1''] 7) (admitted (ex_new_pod ''z''))) = []"
  using ungated_admitted[OF ex_run_hyps(4) _ ex_node_names, where i = 7] by (simp_all add: ex_object_defs)

text \<open>C5: the scheduler plugin only assigns nodes that Fluxion granted. Over every run of the webhook, the
  controller, the workers and the rest of Kubernetes, in any order, with any failures, and with pods and
  jobs changing between the API calls of a handler, the node that
  \<open>PreFilter\<close> returns for a pod is one of the nodes of an allocation that Fluxion gave, earlier in
  that run, when the job worker asked for a job of the pod's namespace, and the pod carries the flux job id
  of that allocation. Runs of the ungate worker that panic half way are included. At
  the start there are no ungate jobs, and pods and job templates come without the labels of an
  allocation, which nobody else writes; node names have no underscore, as Kubernetes demands, and an
  allocation names a node.\<close>
theorem assigned_nodes_granted:
  assumes "busy_server (op_kube E) pods after jobs"
    and "\<And>u. \<not> in_river (AUngate u) (w_sys w0)"
    and "\<And>ns n q. pods (w_kube w0) (ns, n) = Some q \<Longrightarrow> pod_new q"
    and "\<And>ns n j. jobs (w_kube w0) (ns, n) = Some j \<Longrightarrow> job_new j"
    and "(cluster_step E pods jobs)\<^sup>*\<^sup>* (w0, k0) (w, k)"
    and "\<And>r x resp x' nodes. fo_Match (op_fluxion E) r x = (Inr resp, x') \<Longrightarrow> parseNodes (mp_Allocation resp) = Inr nodes \<Longrightarrow>
           nodes \<noteq> [] \<and> (\<forall>n \<in> set nodes. CHR ''_'' \<notin> set n)"
    and "pods (w_kube w) (ns, n) = Some p" "PreFilter p = Ret (Some N, st)"
  shows "\<exists>args nodes i x. granted E pods jobs (w0, k0) (w, k) args nodes i \<and> ja_Namespace args = ns \<and>
    label_get (pod_Labels p) FluxJobIdLabel = Some (itoa i) \<and> x \<in> set nodes \<and> N = {x}"
proof -
  let ?G = "granted E pods jobs (w0, k0) (w, k)"
  have "kube_inv False (\<lambda>_ _ _. False) (pods (w_kube w0)) (jobs (w_kube w0))" using assms(3,4) by (rule start_inv)
  moreover have "river_inv (\<lambda>_ _ _. False) (w_sys w0)" using assms(2) by (simp add: river_inv_def)
  ultimately have "kube_inv False ?G (pods (w_kube w)) (jobs (w_kube w))"
    using busy_server.labels_kept[OF assms(1,5) refl] by blast
  with assms(7) have "assigned ?G ns (label_get (pod_Labels p))" by (simp add: kube_inv_def pod_inv_def)
  moreover obtain v x where v: "label_get (pod_Labels p) NodesLabel = Some v" "x \<in> set (split v ''__'')" "N = {x}"
    using assms(8) by (rule PreFilter_node)
  ultimately obtain args nodes i where g: "?G args nodes i" "ja_Namespace args = ns"
    "stamp nodes i (label_get (pod_Labels p))" by (auto simp: assigned_def)
  from g(1) have "nodes \<noteq> [] \<and> (\<forall>n \<in> set nodes. CHR ''_'' \<notin> set n)" by (rule granted_answer) (rule assms(6))
  then have "nodes \<noteq> []" "\<forall>n \<in> set nodes. CHR ''_'' \<notin> set n" by simp_all
  from stamp_split[OF g(3) v(1) this] v g show ?thesis unfolding stamp_def by blast
qed

theorem assigned_nodes_granted_witness:
  "\<exists>w k args nodes i. (cluster_step run_operator mc_pods mc_jobs)\<^sup>*\<^sup>* (run_world, Map.empty) (w, k) \<and>
    granted run_operator mc_pods mc_jobs (run_world, Map.empty) (w, k) args nodes i \<and> ''n0'' \<in> set nodes"
proof -
  obtain w k where run: "(cluster_step run_operator mc_pods mc_jobs)\<^sup>*\<^sup>* (run_world, Map.empty) (w, k)"
    and pod: "mc_pods (w_kube w) (''ns'', ''z'') = Some (ungated_pod (node_labels [''n0'', ''n1''] 7) (admitted (ex_new_pod ''z'')))"
    using ex_run work_is_run by blast
  have "busy_server (op_kube run_operator) mc_pods mem_after mc_jobs"
    by (simp add: run_operator_def ex_server_def kube_server.calm_busy[OF mem_srv.kube_server_axioms])
  moreover have "nodes \<noteq> [] \<and> (\<forall>n \<in> set nodes. CHR ''_'' \<notin> set n)"
    if "fo_Match (op_fluxion run_operator) r x = (Inr resp, x')" "parseNodes (mp_Allocation resp) = Inr nodes" for r x resp x' nodes
    using that ex_nodes by (auto simp: run_operator_def ex_fluxion_def log_fluxion_def ex_resp_def)
  ultimately obtain args nodes i x where "granted run_operator mc_pods mc_jobs (run_world, Map.empty) (w, k) args nodes i"
    "x \<in> set nodes" "{''n0''} = {x}"
    using assigned_nodes_granted[OF _ _ _ _ run _ pod ex_plugin(1)] ex_start by fastforce
  with run show ?thesis by blast
qed

text \<open>C13: an admitted pod keeps the program's gate until it is decided. In every reachable state a pod that
  carries the seen label and has no gate, and is not a pod of a batch job, carries the label of an
  allocation that Fluxion granted earlier in the run to a job of its namespace, together with the flux job
  id, or is marked unschedulable; runs of the ungate worker that panic half way are included. This is under the
  condition that the rest of Kubernetes acts between handlers only, not within one
  (\<open>removeGate_ignores_labels\<close> shows that it is needed), and that it neither removes the gate nor
  writes the program's labels.\<close>
theorem gate_kept_until_decided:
  assumes "kube_server (op_kube E) pods after jobs"
    and "\<And>u. \<not> in_river (AUngate u) (w_sys w0)"
    and "\<And>ns n q. pods (w_kube w0) (ns, n) = Some q \<Longrightarrow> pod_new q"
    and "\<And>ns n j. jobs (w_kube w0) (ns, n) = Some j \<Longrightarrow> job_new j"
    and "(cluster_step E pods jobs)\<^sup>*\<^sup>* (w0, k0) (w, k)"
    and "pods (w_kube w) (ns, n) = Some p" "label_get (pod_Labels p) SeenLabel \<noteq> None"
    and "SchedulingGateName \<notin> set (pod_Gates p)" "label_get (pod_Labels p) job_name_label = None"
  shows "label_get (pod_Labels p) UnschedulableLabel \<noteq> None \<or>
    (\<exists>args nodes i. granted E pods jobs (w0, k0) (w, k) args nodes i \<and> ja_Namespace args = ns \<and>
       stamp nodes i (label_get (pod_Labels p)))"
proof -
  have "kube_inv True (\<lambda>_ _ _. False) (pods (w_kube w0)) (jobs (w_kube w0))" using assms(3,4) by (rule start_inv)
  moreover have "river_inv (\<lambda>_ _ _. False) (w_sys w0)" using assms(2) by (simp add: river_inv_def)
  ultimately have "kube_inv True (granted E pods jobs (w0, k0) (w, k)) (pods (w_kube w)) (jobs (w_kube w))"
    using kube_server.gates_kept[OF assms(1,5) refl] by blast
  with assms(6) have "pod_inv True (granted E pods jobs (w0, k0) (w, k)) ns p" by (simp add: kube_inv_def)
  then have "label_get (pod_Labels p) NodesLabel \<noteq> None \<or> label_get (pod_Labels p) UnschedulableLabel \<noteq> None"
    and "assigned (granted E pods jobs (w0, k0) (w, k)) ns (label_get (pod_Labels p))"
    using assms(7-9) by (simp_all add: pod_inv_def decided_def has_gate_iff)
  then show ?thesis unfolding assigned_def by metis
qed

theorem gate_kept_until_decided_witness:
  "\<exists>w k p args nodes i. (cluster_step run_operator mc_pods mc_jobs)\<^sup>*\<^sup>* (run_world, Map.empty) (w, k) \<and>
    mc_pods (w_kube w) (''ns'', ''z'') = Some p \<and>
    granted run_operator mc_pods mc_jobs (run_world, Map.empty) (w, k) args nodes i \<and> stamp nodes i (label_get (pod_Labels p))"
proof -
  let ?p = "ungated_pod (node_labels [''n0'', ''n1''] 7) (admitted (ex_new_pod ''z''))"
  obtain w k where run: "(cluster_step run_operator mc_pods mc_jobs)\<^sup>*\<^sup>* (run_world, Map.empty) (w, k)"
    and pod: "mc_pods (w_kube w) (''ns'', ''z'') = Some ?p" using ex_run work_is_run by blast
  have "kube_server (op_kube run_operator) mc_pods mem_after mc_jobs"
    by (simp add: run_operator_def ex_server_def mem_srv.kube_server_axioms)
  moreover have "label_get (pod_Labels ?p) job_name_label = None" "label_get (pod_Labels ?p) UnschedulableLabel = None"
    "label_get (pod_Labels ?p) SeenLabel \<noteq> None"
    by (simp_all add: node_labels_def job_name_label_def label_name_defs ex_object_defs admitted_def meta_set_label_def
        ungated_pod_def drop_gate_def set_labels_def)
  moreover have "SchedulingGateName \<notin> set (pod_Gates ?p)" by (simp add: ex_plugin)
  ultimately obtain args nodes i where "granted run_operator mc_pods mc_jobs (run_world, Map.empty) (w, k) args nodes i"
    "stamp nodes i (label_get (pod_Labels ?p))"
    using gate_kept_until_decided[OF _ _ _ _ run pod] ex_start by fastforce
  with run pod show ?thesis by blast
qed

text \<open>C7: a submitted pod reaches its node. When the services answer, the queue is free and Fluxion has an
  allocation for the pod's jobspec, there is a run of the webhook, the creation of the pod, the
  controller, the job worker and the ungate worker after which the pod has its own gates only, carries
  the flux job id, and \<open>PreFilter\<close> assigns it the first node of the allocation.\<close>
theorem submitted_pod_reaches_node:
  assumes "live_server (op_kube E) pods after jobs" "live_client (op_client E) fluxjobs"
    and "pod_request (op_codec E) req p" "pod_jobspec (op_jobspec E) (op_quantity E) p yaml" "fresh_pod p"
    and "fluxjobs k (pod_Namespace p, GetJobName JobWrappedPod (pod_Name p)) = None"
    and "\<not> IsInScheduleLoop (w_sys w)" "(pod_Namespace p, pod_Name p) \<notin> set (map row_key (db_pending (s_db (w_sys w))))"
    and "fo_NewClient (op_fluxion E) = None"
    and "fo_Match (op_fluxion E) \<lparr>mr_Jobspec = yaml, mr_Reservation = False\<rparr> (w_fluxion w) = (Inr resp, x)"
    and "mp_Allocation resp \<noteq> []" "parseNodes (mp_Allocation resp) = Inr nodes"
    and "nodes \<noteq> []" "\<forall>n \<in> set nodes. CHR ''_'' \<notin> set n"
  shows "\<exists>w' k' p'. (work_step E pods jobs)\<^sup>*\<^sup>* (w, k) (w', k') \<and>
    pods (w_kube w') (pod_Namespace p, pod_Name p) = Some p' \<and> pod_Gates p' = pod_Gates p \<and>
    label_get (pod_Labels p') FluxJobIdLabel = Some (itoa (mp_Jobid resp)) \<and>
    PreFilter p' = Ret (Some {hd nodes}, \<lparr>st_Code = Success, st_Message = ''Fluxion scheduler assigned node''\<rparr>)"
proof -
  from pod_run[OF assms(1-12)] obtain w' k' where
    run: "(work_step E pods jobs)\<^sup>*\<^sup>* (w, k) (w', k')"
    "pods (w_kube w') = (pods (w_kube w))((pod_Namespace p, pod_Name p) \<mapsto>
       ungated_pod (node_labels nodes (mp_Jobid resp)) (admitted p))" by blast
  from run ungated_admitted[OF assms(5,13,14), of "mp_Jobid resp"] show ?thesis
    by (intro exI[of _ w'] exI[of _ k'] exI[of _ "ungated_pod (node_labels nodes (mp_Jobid resp)) (admitted p)"]) simp
qed

theorem submitted_pod_reaches_node_witness:
  "\<exists>w' k' p'. (work_step run_operator mc_pods mc_jobs)\<^sup>*\<^sup>* (run_world, Map.empty) (w', k') \<and>
    mc_pods (w_kube w') (''ns'', ''z'') = Some p' \<and> pod_Gates p' = [] \<and>
    PreFilter p' = Ret (Some {''n0''}, \<lparr>st_Code = Success, st_Message = ''Fluxion scheduler assigned node''\<rparr>)"
proof -
  have "Map.empty (pod_Namespace (ex_new_pod ''z''), GetJobName JobWrappedPod (pod_Name (ex_new_pod ''z''))) = None" by simp
  from submitted_pod_reaches_node[OF ex_server_live ex_run_hyps(1-4) this ex_run_hyps(5-) _ ex_node_names] show ?thesis
    by (auto simp: ex_object_defs)
qed

end
