(* ===== verification/System_River.thy ===== *)
theory System_River
  imports System
begin

text \<open>
  The jobs in river. Every job that the operator inserts, whoever inserts it, goes to a queue that
  the river client was configured with and has a kind for which a worker was registered; a queue has
  one worker, since Fluxion is not safe to use from several.
\<close>

section \<open>Served jobs\<close>

definition served :: "riverConfig \<Rightarrow> insertManyParams \<Rightarrow> bool" where
  "served cfg p \<longleftrightarrow> rc_Queues cfg (io_Queue (im_Opts p)) = Some 1 \<and> Kind (im_Args p) \<in> set (rc_Workers cfg)"

definition easy_config :: riverConfig where
  "easy_config = river_config [''job'', ''cleanup'', ''reservation'', ''ungate'']"

lemma NewQueue_config: "NewQueue poolErr newClient startErr = Inr q \<Longrightarrow> newClient easy_config = None"
  by (auto simp: NewQueue_def EasyBackfill_def easy_AddWorkers_eq easy_config_def Let_def split: option.splits if_splits)

lemma queue_names [simp]:
  "QueueDefault \<noteq> ''cleanup_queue''" "QueueDefault \<noteq> ''task_queue''" "''cleanup_queue'' \<noteq> QueueDefault" "''task_queue'' \<noteq> QueueDefault"
  by (simp_all add: QueueDefault_def)

lemmas served_defs = served_def easy_config_def river_config_def queueMaxWorkers_def taskMaxWorkers_def

text \<open>The kinds of inserts of the program.\<close>

lemma served_job: "served easy_config \<lparr>im_Args = AJob a, im_Opts = easy_insertOpts\<rparr>"
  by (simp add: served_defs easy_insertOpts_def)

lemma served_reservation: "served easy_config clearReservationJob"
  by (simp add: served_defs clearReservationJob_def)

lemma served_cleanup: "served easy_config (cleanup_job i)"
  by (simp add: served_defs cleanup_job_def)

lemma served_ungate:
  "served easy_config \<lparr>im_Args = AUngate u, im_Opts = \<lparr>io_MaxAttempts = m, io_Tags = t, io_Queue = ''task_queue''\<rparr>\<rparr>"
  by (simp add: served_defs)

lemmas served_inserts = served_job served_reservation served_cleanup served_ungate

section \<open>All inserts are of these kinds\<close>

text \<open>A transition that only adds served jobs.\<close>

definition adds_served :: "sys \<Rightarrow> sys \<Rightarrow> bool" where
  "adds_served s s' \<longleftrightarrow> (\<exists>ps. s_river s' = s_river s @ ps \<and> list_all (served easy_config) ps)"

lemma adds_served_same [intro]: "s_river s' = s_river s \<Longrightarrow> adds_served s s'"
  by (simp add: adds_served_def)

lemma adds_servedI: "s_river s' = s_river s @ ps \<Longrightarrow> list_all (served easy_config) ps \<Longrightarrow> adds_served s s'"
  by (auto simp: adds_served_def)

lemma adds_served_trans: "adds_served s t \<Longrightarrow> adds_served t u \<Longrightarrow> adds_served s u"
  by (fastforce simp: adds_served_def)

lemma adds_served_all:
  "adds_served s s' \<Longrightarrow> list_all (served easy_config) (s_river s) \<Longrightarrow> list_all (served easy_config) (s_river s')"
  by (auto simp: adds_served_def)

lemma Enqueue_served: "Enqueue f spec s = (r, s') \<Longrightarrow> adds_served s s'"
  by (auto simp: Enqueue_eq split: option.splits if_splits)

lemma Schedule_served:
  assumes "Schedule f (easy_queue depth) s = Ret (e, s')"
  shows "adds_served s s'"
proof (cases "IsInScheduleLoop s")
  case True
  with assms show ?thesis by (auto simp: easy.Schedule_busy)
next
  case False
  then show ?thesis
  proof (rule easy.Schedule_outcome[where f = f and q = "easy_queue depth"])
    fix batch jobs s'' e'
    assume "Schedule f (easy_queue depth) s = Ret (e', s'')" "s_river s'' = s_river s @ batch @ [clearReservationJob]"
      and "st_Schedule EasyBackfill f (s_db s) (q_ReservationDepth (easy_queue depth)) = Inr batch"
    moreover from this(3) have "list_all (served easy_config) batch"
      by (auto simp: EasyBackfill_def easy_Schedule_eq list_all_iff served_job split: option.splits)
    ultimately show ?thesis
      using assms served_reservation by (intro adds_servedI[of s' s "batch @ [clearReservationJob]"]) auto
  qed (use assms in auto)
qed

lemma Reconcile_served:
  assumes "Reconcile C f (easy_queue depth) ns n s k = Ret (r, s', k')"
  shows "adds_served s s'"
proof -
  have "adds_served s t" if "submitJob f (easy_queue depth) spec s = Ret (x, t)" for spec x t
    by (cases rule: submitJob_cases[where f = f and spec = spec and s = s and depth = depth])
       (use that in \<open>auto intro: adds_served_trans Enqueue_served Schedule_served\<close>)
  with assms show ?thesis by (auto simp: Reconcile_def split: sum.splits prod.splits go.splits if_splits option.splits)
qed

lemma DeleteFunc_served: "DeleteFunc f (easy_queue depth) obj s = Ret s' \<Longrightarrow> adds_served s s'"
  by (auto simp: DeleteFunc_def queue_Cleanup_easy list_all_iff served_cleanup intro!: adds_servedI
      split: deletedObj.splits option.splits prod.splits if_splits)

lemma reserveJob_served: "adds_served s (snd (reserveJob wfs args i s))"
  by (auto simp: reserveJob_def split: option.splits sum.splits)

lemma ungatePod_served: "adds_served s (snd (ungatePod wfs ns n ty nodes i s))"
  by (auto simp: ungatePod_def Let_def served_ungate intro!: adds_servedI split: option.splits)

lemma JobWorker_served:
  assumes "JobWorker_Work K X wfs args w = (e, w')"
  shows "adds_served (w_sys w) (w_sys w')"
proof -
  have release: "releaseJob K wfs args i nodes v = (e, v') \<Longrightarrow> adds_served (w_sys v) (w_sys v')" for i nodes v e v'
    by (auto simp: releaseJob_def ungatePod_served split: prod.splits if_splits)
  from assms show ?thesis
    by (auto simp: JobWorker_Work_def Let_def reserveJob_served split: option.splits prod.splits sum.splits if_splits
        dest!: release intro: adds_served_trans[OF reserveJob_served])
qed

lemma ReservationWorker_served: "ReservationWorker_Work X collect wfs w = (e, w') \<Longrightarrow> adds_served (w_sys w) (w_sys w')"
  by (auto simp: ReservationWorker_Work_def split: option.splits sum.splits prod.splits)

lemma handler_served: "handler_step E (w, k) (w', k') \<Longrightarrow> adds_served (w_sys w) (w_sys w')"
  by (cases rule: handler_step.cases) (auto dest: Reconcile_served JobWorker_served ReservationWorker_served)

lemma step_served: "sys_step E (w, k) (w', k') \<Longrightarrow> adds_served (w_sys w) (w_sys w')"
  by (cases rule: sys_step.cases) (auto dest: handler_served DeleteFunc_served)

section \<open>Properties\<close>

text \<open>C8: no job is stranded in river. Once \<open>NewQueue\<close> has returned a queue, the river client accepted
  a configuration under which every job that the webhook, the controller or a worker ever inserts, in
  any run and with any failures, is in a queue that this client works on, with exactly one worker, and
  is of a kind whose worker is registered.\<close>
theorem river_jobs_are_served:
  assumes "NewQueue poolErr newClient startErr = Inr q" "s_river (w_sys w0) = []"
    and "(sys_step E)\<^sup>*\<^sup>* (w0, k0) (w, k)"
  shows "\<exists>cfg. newClient cfg = None \<and> (\<forall>p \<in> set (s_river (w_sys w)).
    rc_Queues cfg (io_Queue (im_Opts p)) = Some 1 \<and> Kind (im_Args p) \<in> set (rc_Workers cfg))"
proof -
  from assms(3) have "list_all (served easy_config) (s_river (w_sys w))"
    using assms(2) by (induction rule: rtranclp_induct2) (auto dest: step_served intro: adds_served_all)
  with NewQueue_config[OF assms(1)] show ?thesis by (auto simp: list_all_iff served_def)
qed

theorem river_jobs_are_served_witness:
  "\<exists>w k. (sys_step ex_operator)\<^sup>*\<^sup>* (ex_world, ex_crds) (w, k) \<and> s_river (w_sys w) \<noteq> [] \<and>
    (\<forall>p \<in> set (s_river (w_sys w)). served easy_config p)"
proof -
  obtain s where run: "(sys_step ex_operator)\<^sup>*\<^sup>* (ex_world, ex_crds) (ex_world\<lparr>w_sys := s\<rparr>, ex_submitted)" "s_river s \<noteq> []"
    using ex_reconciled by blast
  let ?only = "\<lambda>cfg. if cfg = easy_config then None else Some (Errorf ''other'')"
  have "NewQueue None ?only None = Inr (easy_queue 1)"
    by (simp add: NewQueue_def EasyBackfill_def easy_AddWorkers_eq easy_config_def easy_GetReservationDepth_def Let_def)
  from river_jobs_are_served[OF this _ run(1)] have "\<forall>p \<in> set (s_river s). served easy_config p"
    by (auto simp: ex_world_sys ex_sys_def served_def split: if_splits)
  with run show ?thesis by (intro exI[of _ "ex_world\<lparr>w_sys := s\<rparr>"] exI[of _ ex_submitted]) simp
qed

end
