(* ===== verification/System_Cancels.thy ===== *)
theory System_Cancels
  imports System_Runs System_River
begin

text \<open>
  What the operator gives back to Fluxion. The informer of \<open>events.go\<close> reports the deletion of pods
  with their last state that it saw. Over all runs in which it reports such pods, every cleanup job in
  river, and every cancel that Fluxion receives, is for an allocation that Fluxion granted earlier in the run: the
  operator never cancels the job of somebody else.
\<close>

section \<open>Deletions that are observed\<close>

text \<open>Beside the state, the pods that were in the cluster after some step.\<close>

inductive watched_step ::
  "('r, 'q, 'js, 'p, 'x, 'k) operator \<Rightarrow> ('p \<Rightarrow> (string \<times> string) \<rightharpoonup> 'q pod) \<Rightarrow> ('p \<Rightarrow> (string \<times> string) \<rightharpoonup> 'q batch_job) \<Rightarrow>
   (('p, 'x) world \<times> 'k) \<times> 'q pod set \<Rightarrow> (('p, 'x) world \<times> 'k) \<times> 'q pod set \<Rightarrow> bool"
  for E :: "('r, 'q, 'js, 'p, 'x, 'k) operator" and pods jobs where
  act: "work_step E pods jobs c (w', k') \<Longrightarrow> watched_step E pods jobs (c, H) ((w', k'), H \<union> ran (pods (w_kube w')))"
| deleted: "p \<in> H \<Longrightarrow> DeleteFunc f (easy_queue depth) (DeletedPod p) (w_sys w) = Ret s' \<Longrightarrow>
    watched_step E pods jobs ((w, k), H) ((w\<lparr>w_sys := s'\<rparr>, k), H)"

lemma watched_is_step: "watched_step E pods jobs (c, H) (c', H') \<Longrightarrow> cluster_step E pods jobs c c'"
  by (cases rule: watched_step.cases) (auto intro: work_is_step cluster_step.operator sys_step.deletion)

lemma watched_is_run: "(watched_step E pods jobs)\<^sup>*\<^sup>* (c, H) (c', H') \<Longrightarrow> (cluster_step E pods jobs)\<^sup>*\<^sup>* c c'"
  by (induction "(c', H')" arbitrary: c' H' rule: rtranclp_induct)
     (auto dest: watched_is_step intro: rtranclp.rtrancl_into_rtrancl)

text \<open>A run without deletions is watched.\<close>

lemma work_watched:
  assumes "(work_step E pods jobs)\<^sup>*\<^sup>* c (w, k)"
  shows "\<exists>H. (watched_step E pods jobs)\<^sup>*\<^sup>* (c, ran (pods (w_kube (fst c)))) ((w, k), H) \<and> ran (pods (w_kube w)) \<subseteq> H"
  using assms
proof (induction "(w, k)" arbitrary: w k rule: rtranclp_induct)
  case base
  then show ?case by auto
next
  case (step c1)
  obtain w1 k1 where c1: "c1 = (w1, k1)" by fastforce
  from step(3)[OF c1] obtain H where H: "(watched_step E pods jobs)\<^sup>*\<^sup>* (c, ran (pods (w_kube (fst c)))) (c1, H)"
    unfolding c1 by blast
  from rtranclp.rtrancl_into_rtrancl[OF this watched_step.act[OF step(2)]] show ?case by blast
qed

section \<open>Cancels that Fluxion receives\<close>

text \<open>The ids of the cancel requests that the service has received: a cancel adds its id, if it arrives, and a match
  none.\<close>

locale cancel_record =
  fixes X :: "'x fluxionOps" and cancelled :: "'x \<Rightarrow> int set"
  assumes cancel_recorded: "fo_Cancel X i x = (e, x') \<Longrightarrow> cancelled x' \<subseteq> insert i (cancelled x)"
    and match_recorded: "fo_Match X r x = (resp, x') \<Longrightarrow> cancelled x' \<subseteq> cancelled x"
begin

lemma Cleanup_cancels:
  "CleanupWorker_Work X args x = (e, x') \<Longrightarrow> i \<in> cancelled x' \<Longrightarrow> i \<in> cancelled x \<or> (i = ca_FluxID args \<and> 0 \<le> i)"
  by (auto simp: CleanupWorker_Work_def Cleanup_def deleteFluxion_def split: option.splits prod.splits if_splits
      dest!: cancel_recorded)

lemma JobWorker_cancels: "JobWorker_Work K X wfs args w = (e, w') \<Longrightarrow> cancelled (w_fluxion w') \<subseteq> cancelled (w_fluxion w)"
  using match_recorded
  by (fastforce simp: JobWorker_Work_def releaseJob_def Let_def split: option.splits prod.splits sum.splits if_splits)

end

text \<open>The reservation worker would cancel reservations, but it never reads one (\<open>ReservationWorker_never_clears\<close>).\<close>

lemma ReservationWorker_no_cancel:
  assumes "row_to_struct collect" "ReservationWorker_Work X collect wfs w = (e, w')"
  shows "w_fluxion w' = w_fluxion w"
proof (cases "db_reservations (s_db (w_sys w)) = []")
  case True
  then have "collect (GetReservationsQuery (db_reservations (s_db (w_sys w)))) = Inr []"
    using row_to_struct.collect_empty[OF assms(1)] by (simp add: GetReservationsQuery_def)
  with assms(2) show ?thesis by (auto simp: ReservationWorker_Work_def split: option.splits)
next
  case False
  with ReservationWorker_never_clears[OF assms(1), of w X wfs] assms(2) show ?thesis by auto
qed

interpretation log_record: cancel_record "log_fluxion resp answer" "\<lambda>l. {i. CCancel i \<in> set l}" for resp answer
  by unfold_locales (auto simp: log_fluxion_def)

context cancel_record
begin

lemma handler_cancels:
  assumes "handler_step E (w, k) (w', k')" "op_fluxion E = X" "row_to_struct (op_collect E)" "i \<in> cancelled (w_fluxion w')"
  shows "i \<in> cancelled (w_fluxion w) \<or> (0 \<le> i \<and> (\<exists>a. in_river (ACleanup a) (w_sys w) \<and> ca_FluxID a = i))"
  using assms(1)
proof (cases rule: handler_step.cases)
  case (job_worker args wfs e)
  with JobWorker_cancels assms(2,4) show ?thesis by blast
next
  case (cleanup_worker a e x)
  with Cleanup_cancels[of a "w_fluxion w" e x i] assms(2,4) show ?thesis by auto
next
  case (reservation_worker wfs e)
  with ReservationWorker_no_cancel[OF assms(3)] assms(4) show ?thesis by metis
qed (use assms(4) in auto)

end

section \<open>Cleanup jobs\<close>

text \<open>No handler inserts a cleanup job: only deletions do.\<close>

lemma handlers_no_cleanup: "handler_step E (w, k) (w', k') \<Longrightarrow> no_new is_cleanup (w_sys w) (w_sys w')"
  by (cases rule: handler_step.cases)
     (auto simp: no_new_same_river dest: Reconcile_no_new[where Q = is_cleanup] JobWorker_no_new[where Q = is_cleanup]
        ReservationWorker_no_new[where Q = is_cleanup])

definition cancels_inv :: "(jobArgs \<Rightarrow> string list \<Rightarrow> int \<Rightarrow> bool) \<Rightarrow> int set \<Rightarrow> sys \<Rightarrow> 'q pod set \<Rightarrow> bool" where
  "cancels_inv G ids s H \<longleftrightarrow> (\<forall>p \<in> H. \<exists>ns. assigned G ns (label_get (pod_Labels p))) \<and>
     (\<forall>a. in_river (ACleanup a) s \<longrightarrow> (\<exists>args nodes. G args nodes (ca_FluxID a))) \<and>
     (\<forall>i \<in> ids. 0 \<le> i \<and> (\<exists>args nodes. G args nodes i))"

lemma cancels_inv_mono: "cancels_inv G ids s H \<Longrightarrow> (\<And>a n i. G a n i \<Longrightarrow> G' a n i) \<Longrightarrow> cancels_inv G' ids s H"
  unfolding cancels_inv_def assigned_def by meson

text \<open>The label of a granted allocation is read back as its id.\<close>

lemma DeleteFunc_granted:
  assumes "DeleteFunc f (easy_queue depth) (DeletedPod p) s = Ret s'" "cancels_inv G ids s H" "p \<in> H"
    and "\<And>a n i. G a n i \<Longrightarrow> fits64 i"
  shows "cancels_inv G ids s' H"
proof -
  have old: "\<exists>args nodes. G args nodes (ca_FluxID a)" if "in_river (ACleanup a) s" for a
    using assms(2) that by (simp add: cancels_inv_def)
  have "\<exists>args nodes. G args nodes (ca_FluxID a)" if a: "in_river (ACleanup a) s'" for a
  proof (cases "label_get (pod_Labels p) FluxJobIdLabel")
    case None
    with assms(1) old a show ?thesis by (simp add: DeleteFunc_def)
  next
    case (Some v)
    with assms(2,3) obtain args nodes i where g: "G args nodes i" "v = itoa i"
      unfolding cancels_inv_def assigned_def stamp_def by fastforce
    then have "parseInt v 64 = (i, None)" using assms(4)[OF g(1)] by (simp add: parseInt_itoa fits64_def)
    with assms(1) Some have "in_river (ACleanup a) s \<or> ca_FluxID a = i"
      using a by (auto simp: DeleteFunc_def queue_Cleanup_easy in_river_def cleanup_job_def split: option.splits)
    with old g(1) show ?thesis by blast
  qed
  with assms(2) show ?thesis by (simp add: cancels_inv_def)
qed

text \<open>A step of a handler or of Kubernetes: the pods that appear are as \<open>kube_inv\<close> has them.\<close>

lemma work_cancels:
  assumes "cancel_record (op_fluxion E) cancelled" "row_to_struct (op_collect E)"
    and "work_step E pods jobs (w, k) (w', k')" "cancels_inv G (cancelled (w_fluxion w) - old) (w_sys w) H"
    and "\<And>ns n p. pods (w_kube w') (ns, n) = Some p \<Longrightarrow> assigned G ns (label_get (pod_Labels p))"
  shows "cancels_inv G (cancelled (w_fluxion w') - old) (w_sys w') (H \<union> ran (pods (w_kube w')))"
proof -
  have pods: "\<exists>ns. assigned G ns (label_get (pod_Labels p))" if "p \<in> H \<union> ran (pods (w_kube w'))" for p
    using that assms(4,5) by (auto simp: cancels_inv_def ran_def)
  from assms(3) have river: "no_new is_cleanup (w_sys w) (w_sys w')"
    by (cases rule: work_step.cases) (auto dest: handlers_no_cleanup)
  have new: "0 \<le> i \<and> (\<exists>a. in_river (ACleanup a) (w_sys w) \<and> ca_FluxID a = i)"
    if "i \<in> cancelled (w_fluxion w')" "i \<notin> cancelled (w_fluxion w)" for i
    using assms(3)
  proof (cases rule: work_step.cases)
    case handled
    from cancel_record.handler_cancels[OF assms(1) this refl assms(2) that(1)] that(2) show ?thesis by blast
  qed (use that in auto)
  have "0 \<le> i \<and> (\<exists>args nodes. G args nodes i)" if "i \<in> cancelled (w_fluxion w') - old" for i
    using that new[of i] assms(4) unfolding cancels_inv_def by blast
  with pods river assms(4) show ?thesis by (simp add: cancels_inv_def no_new_cleanup_iff)
qed

context busy_server
begin

lemma cancels_kept:
  assumes "(watched_step E pods jobs)\<^sup>*\<^sup>* ((w0, k0), ran (pods (w_kube w0))) ((w, k), H)" "op_kube E = K"
    and "kube_inv False (\<lambda>_ _ _. False) (pods (w_kube w0)) (jobs (w_kube w0))" "river_inv (\<lambda>_ _ _. False) (w_sys w0)"
    and "\<And>a. \<not> in_river (ACleanup a) (w_sys w0)" "cancel_record (op_fluxion E) cancelled" "row_to_struct (op_collect E)"
    and "\<And>r x resp x'. fo_Match (op_fluxion E) r x = (Inr resp, x') \<Longrightarrow> fits64 (mp_Jobid resp)"
  shows "cancels_inv (granted E pods jobs (w0, k0) (w, k)) (cancelled (w_fluxion w) - cancelled (w_fluxion w0)) (w_sys w) H"
  using assms(1)
proof (induction "((w, k), H)" arbitrary: w k H rule: rtranclp_induct)
  case base
  with assms(3,5) show ?case by (fastforce simp: cancels_inv_def kube_inv_def pod_inv_def assigned_def ran_def)
next
  case (step c)
  obtain w1 k1 H1 where c: "c = ((w1, k1), H1)" by (metis surj_pair)
  let ?G = "granted E pods jobs (w0, k0) (w, k)" and ?old = "cancelled (w_fluxion w0)"
  have cs: "cluster_step E pods jobs (w1, k1) (w, k)" using step(2) watched_is_step unfolding c by blast
  have run: "(cluster_step E pods jobs)\<^sup>*\<^sup>* (w0, k0) (w, k)"
    using watched_is_run[OF step(1)[unfolded c]] cs by (rule rtranclp.rtrancl_into_rtrancl)
  have "granted E pods jobs (w0, k0) (w1, k1) a n i \<Longrightarrow> ?G a n i" for a n i using granted_step[OF _ cs] .
  with step(3)[OF c] have old: "cancels_inv ?G (cancelled (w_fluxion w1) - ?old) (w_sys w1) H1" by (rule cancels_inv_mono)
  have fits: "?G a n i \<Longrightarrow> fits64 i" for a n i using assms(8) by (metis granted_answer)
  from step(2)[unfolded c] show ?case
  proof (cases rule: watched_step.cases)
    case act
    have "assigned ?G ns (label_get (pod_Labels p))" if "pods (w_kube w) (ns, n) = Some p" for ns n p
      using labels_kept[OF run assms(2-4)] that by (simp add: kube_inv_def pod_inv_def)
    from work_cancels[OF assms(6,7) act(2) old this] act(1) show ?thesis by simp
  next
    case (deleted p f depth s')
    have "cancels_inv ?G (cancelled (w_fluxion w1) - ?old) s' H1"
      by (rule DeleteFunc_granted[OF deleted(5) old deleted(4)]) (rule fits)
    with deleted show ?thesis by simp
  qed
qed

end

section \<open>Properties\<close>

text \<open>C6: the operator only cancels what Fluxion granted. Over every run of the webhook, the controller, the
  workers and the rest of Kubernetes, in any order, with any failures, with pods and jobs changing between
  the API calls of a handler, and with deletions reported of pods that were in the cluster: each cleanup job in
  river has the id of an allocation that Fluxion gave the job worker earlier in that run, and so has each cancel
  request that Fluxion received during the run, whichever worker sent it; no cancelled id is negative. At the start
  there are no ungate and no cleanup jobs, pods and job templates come without the labels of an allocation, which
  nobody else writes; Fluxion's ids are 64-bit integers, and rows are scanned into structs as pgx documents it.\<close>
theorem cancels_only_granted:
  assumes "busy_server (op_kube E) pods after jobs" "cancel_record (op_fluxion E) cancelled" "row_to_struct (op_collect E)"
    and "\<And>u. \<not> in_river (AUngate u) (w_sys w0)" "\<And>a. \<not> in_river (ACleanup a) (w_sys w0)"
    and "\<And>ns n q. pods (w_kube w0) (ns, n) = Some q \<Longrightarrow> pod_new q"
    and "\<And>ns n j. jobs (w_kube w0) (ns, n) = Some j \<Longrightarrow> job_new j"
    and "(watched_step E pods jobs)\<^sup>*\<^sup>* ((w0, k0), ran (pods (w_kube w0))) ((w, k), H)"
    and "\<And>r x resp x'. fo_Match (op_fluxion E) r x = (Inr resp, x') \<Longrightarrow> fits64 (mp_Jobid resp)"
  shows "(\<forall>a. in_river (ACleanup a) (w_sys w) \<longrightarrow>
      (\<exists>args nodes. granted E pods jobs (w0, k0) (w, k) args nodes (ca_FluxID a))) \<and>
    (\<forall>i \<in> cancelled (w_fluxion w) - cancelled (w_fluxion w0).
      0 \<le> i \<and> (\<exists>args nodes. granted E pods jobs (w0, k0) (w, k) args nodes i))"
proof -
  have "kube_inv False (\<lambda>_ _ _. False) (pods (w_kube w0)) (jobs (w_kube w0))" using assms(6,7) by (rule start_inv)
  moreover have "river_inv (\<lambda>_ _ _. False) (w_sys w0)" using assms(4) by (simp add: river_inv_def)
  ultimately have "cancels_inv (granted E pods jobs (w0, k0) (w, k)) (cancelled (w_fluxion w) - cancelled (w_fluxion w0)) (w_sys w) H"
    using busy_server.cancels_kept[OF assms(1,8) refl _ _ assms(5,2,3)] assms(9) by blast
  then show ?thesis by (simp add: cancels_inv_def)
qed

text \<open>The pod of \<open>ex_run\<close> is deleted after it was ungated, and the cleanup worker runs.\<close>

lemma ex_cancel_run:
  "\<exists>w k H. (watched_step run_operator mc_pods mc_jobs)\<^sup>*\<^sup>* ((run_world, Map.empty), ran (mc_pods (w_kube run_world))) ((w, k), H) \<and>
    CCancel 7 \<in> set (w_fluxion w)"
proof -
  let ?p = "ungated_pod (node_labels [''n0'', ''n1''] 7) (admitted (ex_new_pod ''z''))"
  let ?step = "watched_step run_operator mc_pods mc_jobs"
  obtain w k where run: "(work_step run_operator mc_pods mc_jobs)\<^sup>*\<^sup>* (run_world, Map.empty) (w, k)"
    and pod: "mc_pods (w_kube w) (''ns'', ''z'') = Some ?p" using ex_run by blast
  from work_watched[OF run] obtain H where
    H: "?step\<^sup>*\<^sup>* ((run_world, Map.empty), ran (mc_pods (w_kube run_world))) ((w, k), H)" "ran (mc_pods (w_kube w)) \<subseteq> H" by auto
  let ?w = "w\<lparr>w_sys := (w_sys w)\<lparr>s_river := s_river (w_sys w) @ [cleanup_job 7]\<rparr>\<rparr>" and ?a = "\<lparr>ca_FluxID = 7, ca_Podspec = []\<rparr>"
  let ?x = "w_fluxion w @ [CCancel 7]"
  have "?p \<in> H" using pod H(2) by (auto simp: ran_def)
  moreover have "DeleteFunc no_faults (easy_queue 1) (DeletedPod ?p) (w_sys w) = Ret (w_sys ?w)"
  proof -
    have "label_get (pod_Labels ?p) FluxJobIdLabel = Some (itoa 7)"
      using ungated_admitted(2)[OF ex_run_hyps(4) _ ex_node_names, where i = 7] by simp
    moreover have "parseInt (itoa 7) 64 = (7, None)" by (rule parseInt_itoa) simp_all
    ultimately show ?thesis by (simp add: DeleteFunc_def queue_Cleanup_easy no_faults_def)
  qed
  ultimately have "?step ((w, k), H) ((w\<lparr>w_sys := w_sys ?w\<rparr>, k), H)" by (rule watched_step.deleted)
  then have 1: "?step ((w, k), H) ((?w, k), H)" by simp
  have "CleanupWorker_Work (op_fluxion run_operator) ?a (w_fluxion ?w) = (None, ?x)"
    by (simp add: run_operator_def ex_fluxion_def CleanupWorker_cancels)
  moreover have "in_river (ACleanup ?a) (w_sys ?w)" by (simp add: in_river_def cleanup_job_def)
  ultimately have "work_step run_operator mc_pods mc_jobs (?w, k) (?w\<lparr>w_fluxion := ?x\<rparr>, k)"
    by (intro work_step.handled handler_step.cleanup_worker)
  from watched_step.act[OF this] have 2: "?step ((?w, k), H) ((?w\<lparr>w_fluxion := ?x\<rparr>, k), H \<union> ran (mc_pods (w_kube (?w\<lparr>w_fluxion := ?x\<rparr>))))" .
  from rtranclp.rtrancl_into_rtrancl[OF rtranclp.rtrancl_into_rtrancl[OF H(1) 1] 2] show ?thesis by fastforce
qed

theorem cancels_only_granted_witness:
  "\<exists>w k args nodes. (cluster_step run_operator mc_pods mc_jobs)\<^sup>*\<^sup>* (run_world, Map.empty) (w, k) \<and>
    CCancel 7 \<in> set (w_fluxion w) \<and> granted run_operator mc_pods mc_jobs (run_world, Map.empty) (w, k) args nodes 7"
proof -
  obtain w k H where all: "(watched_step run_operator mc_pods mc_jobs)\<^sup>*\<^sup>* ((run_world, Map.empty), ran (mc_pods (w_kube run_world))) ((w, k), H)"
    and sent: "CCancel 7 \<in> set (w_fluxion w)" using ex_cancel_run by blast
  have busy: "busy_server (op_kube run_operator) mc_pods mem_after mc_jobs"
    by (simp add: run_operator_def ex_server_def kube_server.calm_busy[OF mem_srv.kube_server_axioms])
  have recorded: "cancel_record (op_fluxion run_operator) (\<lambda>l. {i. CCancel i \<in> set l})"
    by (simp add: run_operator_def ex_fluxion_def log_record.cancel_record_axioms)
  have scan: "row_to_struct (op_collect run_operator)" by (simp add: run_operator_def by_name.row_to_struct_axioms)
  have none: "\<not> in_river (ACleanup a) (w_sys run_world)" for a by (simp add: run_world_def in_river_def ex_sys_def)
  have fits: "fits64 (mp_Jobid resp)" if "fo_Match (op_fluxion run_operator) r x = (Inr resp, x')" for r x resp x'
    using that by (auto simp: run_operator_def ex_fluxion_def log_fluxion_def ex_resp_def fits64_def)
  have start: "w_fluxion run_world = []" by (simp add: run_world_def)
  have "\<exists>args nodes. granted run_operator mc_pods mc_jobs (run_world, Map.empty) (w, k) args nodes 7"
    using cancels_only_granted[OF busy recorded scan ex_start(1) none _ _ all fits, THEN conjunct2] sent start
    by (auto simp: ex_start)
  with watched_is_run[OF all] sent show ?thesis by blast
qed

end
