(* ===== verification/JGF.thy ===== *)
theory JGF
  imports Go_Json "HOL-Library.List_Lexorder" "HOL-Library.Char_ord"
begin

text \<open>
  The resource graph in Flux JSON Graph Format: \<open>pkg/jgf/types.go\<close> and
  \<open>pkg/jgf/jgf.go\<close>. Counters and indices are 64-bit integers. The graph is written with
  the JSON model of \<open>Go_Json\<close>; a call of \<open>log.Fatalf\<close>, which ends the process, is a
  panic of the model.
\<close>

section \<open>Types\<close>

record nodeMetadata =
  nm_Type :: string
  nm_Basename :: string
  nm_Name :: string
  nm_Id :: int64
  nm_Uniq_id :: int64
  nm_Rank :: int64
  nm_Exclusive :: bool
  nm_Unit :: string
  nm_Size :: int64
  nm_Paths :: "string \<rightharpoonup> string"
  nm_Properties :: "string \<rightharpoonup> string"

record jnode =
  jn_Id :: string
  jn_Label :: string
  jn_Metadata :: nodeMetadata

record jedge =
  je_Source :: string
  je_Relation :: string
  je_Target :: string
  je_Directed :: bool
  je_Subsystem :: string

record jgraph =
  gr_Nodes :: "jnode list"
  gr_Edges :: "jedge list"
  gr_Directed :: bool

record resourceCounter =
  rc_counts :: "string \<rightharpoonup> int64"
  rc_Elements :: int64
  rc_RootName :: string

record resourceCount =
  rn_Name :: string
  rn_Type :: string
  rn_ElementId :: int64
  rn_Index :: int64

record fluxJGF =
  fg_Graph :: jgraph
  fg_NodeMap :: "string \<rightharpoonup> jnode"
  fg_Resources :: resourceCounter

abbreviation fg_Nodes :: "fluxJGF \<Rightarrow> jnode list" where "fg_Nodes g \<equiv> gr_Nodes (fg_Graph g)"
abbreviation fg_Edges :: "fluxJGF \<Rightarrow> jedge list" where "fg_Edges g \<equiv> gr_Edges (fg_Graph g)"

section \<open>Counters\<close>

definition NameWithIndex :: "resourceCount \<Rightarrow> string" where
  "NameWithIndex r = rn_Name r @ itoa (sint (rn_Index r))"

definition StringElementId :: "resourceCount \<Rightarrow> string" where
  "StringElementId r = itoa (sint (rn_ElementId r))"

definition StringResourceIndex :: "resourceCount \<Rightarrow> string" where
  "StringResourceIndex r = itoa (sint (rn_Index r))"

definition NextIndex :: "resourceCounter \<Rightarrow> int64 \<times> resourceCounter" where
  "NextIndex r = (let nextIndex = rc_Elements r in (nextIndex, r\<lparr>rc_Elements := nextIndex + 1\<rparr>))"

definition NextResourceIndex :: "string \<Rightarrow> resourceCounter \<Rightarrow> int64 \<times> resourceCounter" where
  "NextResourceIndex resourceType r =
     (let nextIndex = (case rc_counts r resourceType of None \<Rightarrow> 0 | Some n \<Rightarrow> n)
      in (nextIndex, r\<lparr>rc_counts := (rc_counts r)(resourceType \<mapsto> nextIndex + 1)\<rparr>))"

definition getCounter :: "string \<Rightarrow> string \<Rightarrow> resourceCounter \<Rightarrow> resourceCount \<times> resourceCounter" where
  "getCounter resourceName resourceType r =
     (let (index, r) = NextResourceIndex resourceName r;
          (elementId, r) = NextIndex r
      in (\<lparr>rn_Name = resourceName, rn_Type = resourceType, rn_ElementId = elementId, rn_Index = index\<rparr>, r))"

section \<open>Building the graph\<close>

definition defaultExclusive :: bool where "defaultExclusive = False"
definition defaultRank :: int64 where "defaultRank = - 1"
definition defaultSize :: int64 where "defaultSize = 1"
definition defaultUnit :: string where "defaultUnit = []"

definition ContainsRelation :: string where "ContainsRelation = ''contains''"
definition InRelation :: string where "InRelation = ''in''"

definition ClusterType :: string where "ClusterType = ''cluster''"
definition NodeType :: string where "NodeType = ''node''"
definition CoreType :: string where "CoreType = ''core''"
definition SubnetType :: string where "SubnetType = ''subnet''"
definition MemoryType :: string where "MemoryType = ''memory''"
definition NvidiaGPU :: string where "NvidiaGPU = ''nvidiagpu''"
definition GPUType :: string where "GPUType = ''gpu''"
definition containmentKey :: string where "containmentKey = ''containment''"

definition NewFluxJGF :: fluxJGF where
  "NewFluxJGF =
     \<lparr>fg_Graph = \<lparr>gr_Nodes = [], gr_Edges = [], gr_Directed = False\<rparr>, fg_NodeMap = Map.empty,
      fg_Resources = \<lparr>rc_counts = [''cluster'' \<mapsto> 1], rc_Elements = 0, rc_RootName = []\<rparr>\<rparr>"

definition getNodePath :: "string \<Rightarrow> string \<Rightarrow> string" where
  "getNodePath root subpath =
     path_Clean (if subpath = [] then ''/'' @ root else ''/'' @ root @ ''/'' @ subpath)"

definition getContainmentPath :: "fluxJGF \<Rightarrow> string \<Rightarrow> string \<rightharpoonup> string" where
  "getContainmentPath g subpath = [containmentKey \<mapsto> getNodePath (rc_RootName (fg_Resources g)) subpath]"

text \<open>The relation, the parameter \<open>contains\<close> of the source, is not used by the body.\<close>

definition MakeEdge :: "string \<Rightarrow> string \<Rightarrow> string \<Rightarrow> fluxJGF \<Rightarrow> fluxJGF" where
  "MakeEdge source target relation g =
     (let newedge = \<lparr>je_Source = source, je_Relation = [], je_Target = target, je_Directed = False,
                     je_Subsystem = containmentKey\<rparr>
      in g\<lparr>fg_Graph := (fg_Graph g)\<lparr>gr_Edges := fg_Edges g @ [newedge]\<rparr>\<rparr>)"

definition MakeBidirectionalEdge :: "string \<Rightarrow> string \<Rightarrow> fluxJGF \<Rightarrow> fluxJGF" where
  "MakeBidirectionalEdge parent child g =
     MakeEdge child parent InRelation (MakeEdge parent child ContainsRelation g)"

definition makeNewNode :: "resourceCount \<Rightarrow> string \<Rightarrow> string \<Rightarrow> int64 \<Rightarrow> fluxJGF \<Rightarrow> jnode \<times> fluxJGF" where
  "makeNewNode resource subpath unit sz g =
     (let newNode =
        \<lparr>jn_Id = StringElementId resource, jn_Label = [],
         jn_Metadata = \<lparr>nm_Type = rn_Type resource, nm_Basename = rn_Name resource,
           nm_Name = NameWithIndex resource, nm_Id = rn_Index resource, nm_Uniq_id = rn_ElementId resource,
           nm_Rank = defaultRank, nm_Exclusive = defaultExclusive, nm_Unit = unit, nm_Size = sz,
           nm_Paths = getContainmentPath g subpath, nm_Properties = Map.empty\<rparr>\<rparr>
      in (newNode,
          g\<lparr>fg_Graph := (fg_Graph g)\<lparr>gr_Nodes := fg_Nodes g @ [newNode]\<rparr>,
            fg_NodeMap := (fg_NodeMap g)(jn_Id newNode \<mapsto> newNode)\<rparr>))"

definition MakeSubnet :: "string \<Rightarrow> int64 \<Rightarrow> fluxJGF \<Rightarrow> jnode \<times> fluxJGF" where
  "MakeSubnet name index g =
     (let (resource, rc) = getCounter name SubnetType (fg_Resources g);
          resource = resource\<lparr>rn_Index := index\<rparr>;
          subpath = NameWithIndex resource
      in makeNewNode resource subpath defaultUnit defaultSize (g\<lparr>fg_Resources := rc\<rparr>))"

definition MakeNode :: "string \<Rightarrow> string \<Rightarrow> int64 \<Rightarrow> fluxJGF \<Rightarrow> jnode \<times> fluxJGF" where
  "MakeNode name subpath index g =
     (let (resource, rc) = getCounter name NodeType (fg_Resources g);
          resource = resource\<lparr>rn_Index := index\<rparr>;
          subpath = subpath @ ''/'' @ NameWithIndex resource
      in makeNewNode resource subpath defaultUnit defaultSize (g\<lparr>fg_Resources := rc\<rparr>))"

definition MakeCore :: "string \<Rightarrow> string \<Rightarrow> int64 \<Rightarrow> fluxJGF \<Rightarrow> jnode \<times> fluxJGF" where
  "MakeCore name subpath index g =
     (let (resource, rc) = getCounter name CoreType (fg_Resources g);
          resource = resource\<lparr>rn_Index := index\<rparr>;
          subpath = subpath @ ''/'' @ NameWithIndex resource
      in makeNewNode resource subpath defaultUnit defaultSize (g\<lparr>fg_Resources := rc\<rparr>))"

definition MakeMemory :: "string \<Rightarrow> string \<Rightarrow> int64 \<Rightarrow> int64 \<Rightarrow> fluxJGF \<Rightarrow> jnode \<times> fluxJGF" where
  "MakeMemory name subpath sz index g =
     (let unit = ''MB'';
          (resource, rc) = getCounter name MemoryType (fg_Resources g);
          resource = resource\<lparr>rn_Index := index\<rparr>;
          subpath = subpath @ ''/'' @ NameWithIndex resource
      in makeNewNode resource subpath unit sz (g\<lparr>fg_Resources := rc\<rparr>))"

definition MakeGPU :: "string \<Rightarrow> string \<Rightarrow> int64 \<Rightarrow> int64 \<Rightarrow> fluxJGF \<Rightarrow> jnode \<times> fluxJGF" where
  "MakeGPU name subpath sz index g =
     (let (resource, rc) = getCounter name GPUType (fg_Resources g);
          resource = resource\<lparr>rn_Index := index\<rparr>;
          subpath = subpath @ ''/'' @ NameWithIndex resource
      in makeNewNode resource subpath defaultUnit sz (g\<lparr>fg_Resources := rc\<rparr>))"

definition InitCluster :: "string \<Rightarrow> fluxJGF \<Rightarrow> (jnode \<times> fluxJGF) result" where
  "InitCluster name g =
     (if sint (rc_Elements (fg_Resources g)) > 0
      then Inl (Errorf ''init can only be called for a new cluster'')
      else
        (let res = (fg_Resources g)\<lparr>rc_RootName := name @ ''0''\<rparr>;
             (resource, rc) = getCounter name ClusterType res
         in Inr (makeNewNode resource [] defaultUnit defaultSize (g\<lparr>fg_Resources := rc\<rparr>))))"

section \<open>Encoding\<close>

text \<open>
  The fields as \<open>encoding/json\<close> writes them: in the order of the struct, without those that
  are tagged \<open>omitempty\<close> and are zero. Keys of maps are sorted. Slices of the graph only grow
  from nil, and nil is written as \<open>null\<close>; fields tagged \<open>-\<close> are left out.
\<close>

definition omitempty :: "bool \<Rightarrow> string \<Rightarrow> json \<Rightarrow> (string \<times> json) list" where
  "omitempty zero key j = (if zero then [] else [(key, j)])"

definition encode_int :: "int64 \<Rightarrow> json" where
  "encode_int w = JNum (itoa (sint w))"

definition encode_map :: "(string \<rightharpoonup> string) \<Rightarrow> json" where
  "encode_map m = JObj (map (\<lambda>k. (k, JStr (the (m k)))) (sorted_list_of_set (dom m)))"

definition encode_slice :: "('a \<Rightarrow> json) \<Rightarrow> 'a list \<Rightarrow> json" where
  "encode_slice f xs = (if xs = [] then JNull else JArr (map f xs))"

definition encode_metadata :: "nodeMetadata \<Rightarrow> json" where
  "encode_metadata m =
     JObj ([(''type'', JStr (nm_Type m)), (''basename'', JStr (nm_Basename m)), (''name'', JStr (nm_Name m)),
            (''id'', encode_int (nm_Id m)), (''uniq_id'', encode_int (nm_Uniq_id m))] @
           omitempty (nm_Rank m = 0) ''rank'' (encode_int (nm_Rank m)) @
           [(''exclusive'', JBool (nm_Exclusive m)), (''unit'', JStr (nm_Unit m)), (''size'', encode_int (nm_Size m))] @
           omitempty (nm_Paths m = Map.empty) ''paths'' (encode_map (nm_Paths m)) @
           omitempty (nm_Properties m = Map.empty) ''properties'' (encode_map (nm_Properties m)))"

definition encode_node :: "jnode \<Rightarrow> json" where
  "encode_node n =
     JObj ([(''id'', JStr (jn_Id n))] @ omitempty (jn_Label n = []) ''label'' (JStr (jn_Label n)) @
           [(''metadata'', encode_metadata (jn_Metadata n))])"

definition encode_edge :: "jedge \<Rightarrow> json" where
  "encode_edge e =
     JObj ([(''source'', JStr (je_Source e))] @ omitempty (je_Relation e = []) ''relation'' (JStr (je_Relation e)) @
           [(''target'', JStr (je_Target e))] @ omitempty (\<not> je_Directed e) ''directed'' (JBool (je_Directed e)) @
           [(''metadata'', JObj [(''subsystem'', JStr (je_Subsystem e))])])"

definition encode_graph :: "jgraph \<Rightarrow> json" where
  "encode_graph g =
     JObj ([(''nodes'', encode_slice encode_node (gr_Nodes g)), (''edges'', encode_slice encode_edge (gr_Edges g))] @
           omitempty (\<not> gr_Directed g) ''directed'' (JBool (gr_Directed g)))"

definition encode_jgf :: "fluxJGF \<Rightarrow> json" where
  "encode_jgf g = JObj [(''graph'', encode_graph (fg_Graph g))]"

text \<open>\<open>json.MarshalIndent\<close> cannot fail on these types; the branches for its error stay in the callers.\<close>

definition MarshalIndent :: "json \<Rightarrow> string \<Rightarrow> string result" where
  "MarshalIndent j indent = Inr (write_indent indent 0 j)"

definition ToJson :: "fluxJGF \<Rightarrow> string result" where
  "ToJson g = MarshalIndent (encode_graph (fg_Graph g)) [CHR 0x09]"

text \<open>
  \<open>create\<close> and \<open>write\<close> are the results of \<open>os.Create\<close> and
  \<open>f.Write\<close>. Every failure ends the process. The files are a map from paths to contents.
\<close>

definition ToBytes :: "fluxJGF \<Rightarrow> string go" where
  "ToBytes g =
     (case MarshalIndent (encode_jgf g) ''  '' of
        Inl e \<Rightarrow> Panic ''[JGF] json.Marshal failed''
      | Inr encodedJGF \<Rightarrow> Ret encodedJGF)"

definition WriteJGF ::
  "go_error option \<Rightarrow> go_error option \<Rightarrow> string \<Rightarrow> fluxJGF \<Rightarrow>
   (string \<rightharpoonup> string) \<Rightarrow> (go_error option \<times> (string \<rightharpoonup> string)) go" where
  "WriteJGF create write path g files =
     (case ToBytes g of
        Panic m \<Rightarrow> Panic m
      | Ret encodedJGF \<Rightarrow>
         (case create of
            Some e \<Rightarrow> Panic ''[JGF] Couldn't create JGF file!!''
          | None \<Rightarrow>
             (case write of
                Some e \<Rightarrow> Panic ''[JGF] Couldn't write JGF file!!''
              | None \<Rightarrow> Ret (None, files(path \<mapsto> encodedJGF)))))"

section \<open>Identifiers\<close>

text \<open>The identifier of the vertex at a position of the node list.\<close>

definition node_id :: "nat \<Rightarrow> string" where
  "node_id i = itoa (sint (of_nat i :: int64))"

lemma node_id_inject: "i < 2 ^ 64 \<Longrightarrow> j < 2 ^ 64 \<Longrightarrow> node_id i = node_id j \<longleftrightarrow> i = j"
proof -
  assume a: "i < 2 ^ 64" "j < 2 ^ 64"
  have "node_id i = node_id j \<longleftrightarrow> (of_nat i :: int64) = of_nat j"
    by (auto simp: node_id_def signed_word_eqI)
  also have "\<dots> \<longleftrightarrow> i = j"
    using a by (simp add: word_of_nat_eq_iff take_bit_nat_eq_self)
  finally show ?thesis .
qed

definition node_path :: "jnode \<Rightarrow> string" where
  "node_path n = (case nm_Paths (jn_Metadata n) containmentKey of None \<Rightarrow> [] | Some p \<Rightarrow> p)"

text \<open>
  The graph as its identifiers, its lookup map and its element counter present it: identifiers are
  positions, each vertex is found by its identifier, and the counter is the number of vertices.
\<close>

definition jgf_wf :: "fluxJGF \<Rightarrow> bool" where
  "jgf_wf g \<longleftrightarrow> rc_Elements (fg_Resources g) = of_nat (length (fg_Nodes g)) \<and>
     (\<forall>i < length (fg_Nodes g). jn_Id (fg_Nodes g ! i) = node_id i \<and>
        nm_Uniq_id (jn_Metadata (fg_Nodes g ! i)) = of_nat i \<and>
        fg_NodeMap g (node_id i) = Some (fg_Nodes g ! i)) \<and>
     dom (fg_NodeMap g) = node_id ` {..<length (fg_Nodes g)}"

text \<open>
  The containment tree. A row describes a vertex other than the root: type, base name, index, and
  the position of its parent, which comes before it. Each row has two edges, from the parent and to
  the parent, and extends the parent's path by the vertex's name.
\<close>

type_synonym vrow = "string \<times> string \<times> int64 \<times> nat"

fun row_vertex :: "jnode list \<Rightarrow> nat \<Rightarrow> vrow \<Rightarrow> jnode \<Rightarrow> bool" where
  "row_vertex nodes i (ty, name, idx, par) n \<longleftrightarrow>
     par \<le> i \<and> nm_Type (jn_Metadata n) = ty \<and> nm_Basename (jn_Metadata n) = name \<and> nm_Id (jn_Metadata n) = idx \<and>
     nm_Name (jn_Metadata n) = name @ itoa (sint idx) \<and>
     node_path n = node_path (nodes ! par) @ ''/'' @ nm_Name (jn_Metadata n)"

definition cont_edge :: "string \<Rightarrow> string \<Rightarrow> jedge" where
  "cont_edge a b = \<lparr>je_Source = a, je_Relation = [], je_Target = b, je_Directed = False, je_Subsystem = containmentKey\<rparr>"

fun row_edges :: "nat \<times> vrow \<Rightarrow> jedge list" where
  "row_edges (i, ty, name, idx, par) = [cont_edge (node_id par) (node_id (Suc i)), cont_edge (node_id (Suc i)) (node_id par)]"

definition jgf_tree :: "fluxJGF \<Rightarrow> vrow list \<Rightarrow> bool" where
  "jgf_tree g rows \<longleftrightarrow> jgf_wf g \<and> length (fg_Nodes g) = Suc (length rows) \<and>
     nm_Type (jn_Metadata (fg_Nodes g ! 0)) = ClusterType \<and>
     node_path (fg_Nodes g ! 0) = ''/'' @ rc_RootName (fg_Resources g) \<and>
     (\<forall>i < length rows. row_vertex (fg_Nodes g) i (rows ! i) (fg_Nodes g ! Suc i)) \<and>
     fg_Edges g = concat (map row_edges (zip [0..<length rows] rows))"

section \<open>Adding a vertex\<close>

text \<open>The common part of the five functions that add a vertex below the root.\<close>

definition add_vertex ::
  "string \<Rightarrow> string \<Rightarrow> int64 \<Rightarrow> string \<Rightarrow> string \<Rightarrow> int64 \<Rightarrow> fluxJGF \<Rightarrow> jnode \<times> fluxJGF" where
  "add_vertex name ty index subpath unit sz g =
     (let (resource, rc) = getCounter name ty (fg_Resources g)
      in makeNewNode (resource\<lparr>rn_Index := index\<rparr>) subpath unit sz (g\<lparr>fg_Resources := rc\<rparr>))"

lemmas getCounter_defs = getCounter_def NextResourceIndex_def NextIndex_def Let_def

lemma make_vertex:
  "MakeSubnet name index g =
     add_vertex name SubnetType index (name @ itoa (sint index)) defaultUnit defaultSize g"
  "MakeNode name subpath index g =
     add_vertex name NodeType index (subpath @ ''/'' @ name @ itoa (sint index)) defaultUnit defaultSize g"
  "MakeCore name subpath index g =
     add_vertex name CoreType index (subpath @ ''/'' @ name @ itoa (sint index)) defaultUnit defaultSize g"
  "MakeMemory name subpath sz index g =
     add_vertex name MemoryType index (subpath @ ''/'' @ name @ itoa (sint index)) ''MB'' sz g"
  "MakeGPU name subpath sz index g =
     add_vertex name GPUType index (subpath @ ''/'' @ name @ itoa (sint index)) defaultUnit sz g"
  by (simp_all add: MakeSubnet_def MakeNode_def MakeCore_def MakeMemory_def MakeGPU_def add_vertex_def
      getCounter_defs NameWithIndex_def)

lemma add_vertex_result:
  assumes "add_vertex name ty index subpath unit sz g = (n, g')"
  shows "fg_Nodes g' = fg_Nodes g @ [n]" "fg_Edges g' = fg_Edges g"
    "fg_NodeMap g' = (fg_NodeMap g)(jn_Id n \<mapsto> n)"
    "rc_Elements (fg_Resources g') = rc_Elements (fg_Resources g) + 1"
    "rc_RootName (fg_Resources g') = rc_RootName (fg_Resources g)"
    "jn_Id n = itoa (sint (rc_Elements (fg_Resources g)))"
    "nm_Uniq_id (jn_Metadata n) = rc_Elements (fg_Resources g)"
    "nm_Type (jn_Metadata n) = ty" "nm_Basename (jn_Metadata n) = name" "nm_Id (jn_Metadata n) = index"
    "nm_Name (jn_Metadata n) = name @ itoa (sint index)"
    "nm_Unit (jn_Metadata n) = unit" "nm_Size (jn_Metadata n) = sz"
    "node_path n = getNodePath (rc_RootName (fg_Resources g)) subpath"
  using assms
  by (auto simp: add_vertex_def makeNewNode_def getCounter_defs StringElementId_def NameWithIndex_def
      getContainmentPath_def node_path_def)

lemma MakeBidirectionalEdge_simps [simp]:
  "fg_Nodes (MakeBidirectionalEdge a b g) = fg_Nodes g"
  "fg_Edges (MakeBidirectionalEdge a b g) = fg_Edges g @ [cont_edge a b, cont_edge b a]"
  "fg_NodeMap (MakeBidirectionalEdge a b g) = fg_NodeMap g"
  "fg_Resources (MakeBidirectionalEdge a b g) = fg_Resources g"
  by (simp_all add: MakeBidirectionalEdge_def MakeEdge_def cont_edge_def)

lemma jgf_wf_edge [simp]: "jgf_wf (MakeBidirectionalEdge a b g) = jgf_wf g"
  by (simp add: jgf_wf_def)

lemma jgf_wf_vertex:
  assumes "jgf_wf g" "length (fg_Nodes g) < 2 ^ 64" "add_vertex name ty index subpath unit sz g = (n, g')"
  shows "jgf_wf g' \<and> jn_Id n = node_id (length (fg_Nodes g))"
proof -
  note r = add_vertex_result[OF assms(3)]
  let ?k = "length (fg_Nodes g)"
  have el: "rc_Elements (fg_Resources g) = of_nat ?k" using assms(1) by (simp add: jgf_wf_def)
  then have id: "jn_Id n = node_id ?k" by (simp add: r(6) node_id_def)
  have fresh: "i < ?k \<Longrightarrow> node_id i \<noteq> node_id ?k" for i using assms(2) by (simp add: node_id_inject)
  have "i < Suc ?k \<Longrightarrow> jn_Id (fg_Nodes g' ! i) = node_id i \<and> nm_Uniq_id (jn_Metadata (fg_Nodes g' ! i)) = of_nat i \<and>
      fg_NodeMap g' (node_id i) = Some (fg_Nodes g' ! i)" for i
    using assms(1) fresh r(7) el id by (auto simp: r(1,3) nth_append jgf_wf_def less_Suc_eq)
  moreover have "dom (fg_NodeMap g') = node_id ` {..<Suc ?k}"
    using assms(1) id by (auto simp: r(3) jgf_wf_def lessThan_Suc)
  ultimately show ?thesis using el id by (simp add: jgf_wf_def r(1,4))
qed

text \<open>Adding a vertex and its two edges extends the tree by one row.\<close>

lemma row_vertex_append: "par \<le> i \<Longrightarrow> i < length nodes \<Longrightarrow>
   row_vertex (nodes @ ns) i (ty, name, idx, par) n = row_vertex nodes i (ty, name, idx, par) n"
  by (simp add: nth_append)

lemma add_child:
  assumes "jgf_tree g rows" "length rows < 2 ^ 63" "par \<le> length rows"
    and "getNodePath (rc_RootName (fg_Resources g)) subpath = node_path (fg_Nodes g ! par) @ ''/'' @ name @ itoa (sint index)"
    and "add_vertex name ty index subpath unit sz g = (n, g')"
  shows "jgf_tree (MakeBidirectionalEdge (node_id par) (jn_Id n) g') (rows @ [(ty, name, index, par)])"
    and "jn_Id n = node_id (Suc (length rows))"
    and "node_path n = node_path (fg_Nodes g ! par) @ ''/'' @ name @ itoa (sint index)"
proof -
  note r = add_vertex_result[OF assms(5)]
  from assms(1) have len: "length (fg_Nodes g) = Suc (length rows)" and wf: "jgf_wf g" by (simp_all add: jgf_tree_def)
  from wf len assms(2) have wf': "jgf_wf g'" and id: "jn_Id n = node_id (Suc (length rows))"
    using jgf_wf_vertex[OF wf _ assms(5)] by simp_all
  show path: "node_path n = node_path (fg_Nodes g ! par) @ ''/'' @ name @ itoa (sint index)"
    using r(14) assms(4) by simp
  have "row_vertex (fg_Nodes g') i ((rows @ [(ty, name, index, par)]) ! i) (fg_Nodes g' ! Suc i)"
    if "i < Suc (length rows)" for i
  proof (cases "i = length rows")
    case True
    with len assms(3) path r show ?thesis by (simp add: nth_append)
  next
    case False
    with that have i: "i < length rows" by simp
    obtain a b c d where row: "rows ! i = (a, b, c, d)" by (metis prod.collapse)
    from assms(1) i have "row_vertex (fg_Nodes g) i (rows ! i) (fg_Nodes g ! Suc i)" by (simp add: jgf_tree_def)
    with i row len show ?thesis by (simp add: r(1) nth_append)
  qed
  moreover have "fg_Nodes g' ! 0 = fg_Nodes g ! 0" using len by (simp add: r(1) nth_append)
  ultimately show "jgf_tree (MakeBidirectionalEdge (node_id par) (jn_Id n) g') (rows @ [(ty, name, index, par)])"
    using assms(1) wf' len id r(1,2,5) unfolding jgf_tree_def by simp
  show "jn_Id n = node_id (Suc (length rows))" by (fact id)
qed

section \<open>Paths\<close>

lemma join_snoc: "xs \<noteq> [] \<Longrightarrow> join (xs @ [x]) sep = join xs sep @ sep @ x"
  by (induction xs sep rule: join.induct) auto

lemma getNodePath_elems:
  assumes "plain_elem root" "\<And>c. c \<in> set cs \<Longrightarrow> plain_elem c"
  shows "getNodePath root (join cs ''/'') = CHR ''/'' # join (root # cs) ''/''"
proof (cases "cs = []")
  case True
  with path_Clean_plain[of "[root]"] assms(1) show ?thesis by (simp add: getNodePath_def)
next
  case False
  then have "join cs ''/'' \<noteq> []"
    using assms(2) by (cases cs rule: remdups_adj.cases) (auto simp: plain_elem_def)
  with path_Clean_plain[of "root # cs"] assms False show ?thesis by (auto simp: getNodePath_def join_Cons)
qed

text \<open>A vertex at a position, with the elements of its path below the root.\<close>

definition at_path :: "fluxJGF \<Rightarrow> nat \<Rightarrow> string list \<Rightarrow> bool" where
  "at_path g i cs \<longleftrightarrow> i < length (fg_Nodes g) \<and> (\<forall>c \<in> set (rc_RootName (fg_Resources g) # cs). plain_elem c) \<and>
     node_path (fg_Nodes g ! i) = CHR ''/'' # join (rc_RootName (fg_Resources g) # cs) ''/''"

lemma at_path_child:
  assumes "at_path g i cs" "plain_elem x"
  shows "getNodePath (rc_RootName (fg_Resources g)) (join (cs @ [x]) ''/'') = node_path (fg_Nodes g ! i) @ ''/'' @ x"
proof -
  have "join (rc_RootName (fg_Resources g) # cs @ [x]) ''/'' = join (rc_RootName (fg_Resources g) # cs) ''/'' @ ''/'' @ x"
    using join_snoc[of "rc_RootName (fg_Resources g) # cs" x "''/''"] by simp
  with assms show ?thesis by (subst getNodePath_elems) (auto simp: at_path_def)
qed

lemma add_child_at:
  assumes "jgf_tree g rows" "length rows < 2 ^ 63" "at_path g par cs" "CHR ''/'' \<notin> set name"
    and "subpath = join (cs @ [name @ itoa (sint index)]) ''/''"
    and "add_vertex name ty index subpath unit sz g = (n, g1)"
    and "g' = MakeBidirectionalEdge (node_id par) (jn_Id n) g1"
  shows "jgf_tree g' (rows @ [(ty, name, index, par)])" "jn_Id n = node_id (Suc (length rows))"
    and "at_path g' (Suc (length rows)) (cs @ [name @ itoa (sint index)])"
    and "at_path g q ds \<Longrightarrow> at_path g' q ds"
    and "nm_Name (jn_Metadata n) = name @ itoa (sint index)"
proof -
  have len: "length (fg_Nodes g) = Suc (length rows)" using assms(1) by (simp add: jgf_tree_def)
  have par: "par \<le> length rows" using assms(3) len by (simp add: at_path_def)
  have plain: "plain_elem (name @ itoa (sint index))" using assms(4) by (rule plain_elem_indexed)
  note r = add_vertex_result[OF assms(6)]
  have path: "getNodePath (rc_RootName (fg_Resources g)) subpath = node_path (fg_Nodes g ! par) @ ''/'' @ name @ itoa (sint index)"
    using at_path_child[OF assms(3) plain] assms(5) by simp
  note child = add_child[OF assms(1,2) par path assms(6)]
  show "jgf_tree g' (rows @ [(ty, name, index, par)])" "jn_Id n = node_id (Suc (length rows))"
    using child(1,2) assms(7) by simp_all
  have "join (rc_RootName (fg_Resources g) # cs @ [name @ itoa (sint index)]) ''/'' =
      join (rc_RootName (fg_Resources g) # cs) ''/'' @ ''/'' @ name @ itoa (sint index)"
    using join_snoc[of "rc_RootName (fg_Resources g) # cs" "name @ itoa (sint index)" "''/''"] by simp
  then show "at_path g' (Suc (length rows)) (cs @ [name @ itoa (sint index)])"
    using child(3) assms(3,7) plain len r(1,5) by (auto simp: at_path_def nth_append)
  show "at_path g q ds \<Longrightarrow> at_path g' q ds"
    using assms(7) r(1,5) by (auto simp: at_path_def nth_append)
  show "nm_Name (jn_Metadata n) = name @ itoa (sint index)" by (fact r(11))
qed

section \<open>The root\<close>

lemma itoa_0: "itoa 0 = ''0''"
  using char_of_char[of "CHR ''0''"] by (simp add: itoa_def nat_dec.simps[of 0] digit_char_def)

lemma itoa_1: "itoa 1 = ''1''"
  using char_of_char[of "CHR ''1''"] by (simp add: itoa_def nat_dec.simps[of "Suc 0"] digit_char_def)

lemma InitCluster_tree:
  assumes "CHR ''/'' \<notin> set name"
  obtains n g where "InitCluster name NewFluxJGF = Inr (n, g)" "jgf_tree g []" "jn_Id n = node_id 0"
    "at_path g 0 []" "fg_Nodes g = [n]" "nm_Name (jn_Metadata n) = name @ (if name = ''cluster'' then ''1'' else ''0'')"
proof -
  have plain: "plain_elem (name @ ''0'')"
    using plain_elem_indexed[OF assms, of 0] by (simp add: itoa_0)
  from path_Clean_plain[of "[name @ ''0'']"] plain
  have "getNodePath (name @ ''0'') [] = ''/'' @ name @ ''0''" by (simp add: getNodePath_def)
  then show thesis using plain
    by (intro that)
       (auto simp: at_path_def NameWithIndex_def itoa_0 itoa_1 InitCluster_def NewFluxJGF_def makeNewNode_def getCounter_defs StringElementId_def jgf_tree_def
         jgf_wf_def node_id_def node_path_def getContainmentPath_def lessThan_Suc split: if_splits)
qed

end
