(* ===== verification/Resources.thy ===== *)
theory Resources
  imports Quantity
begin

text \<open>
  The resource requests and limits of a pod, \<open>internal/controller/resources.go\<close>, and the
  total of a list of pods, \<open>computeTotalRequests\<close> of \<open>cluster.go\<close>. A resource list
  is a map. The loops of the source range over a map in an order Go leaves open; the three loops
  over a list are first defined on an explicit sequence of keys and shown to give, for every order,
  the pointwise result that the rest of the development uses.
\<close>

section \<open>Loops over a resource list\<close>

definition add_entry :: "'q quantityOps \<Rightarrow> 'q resource_list \<Rightarrow> string \<Rightarrow> 'q resource_list \<Rightarrow> 'q resource_list" where
  "add_entry Q new name list =
     (case new name of
        None \<Rightarrow> list
      | Some qty \<Rightarrow>
         (case list name of
            None \<Rightarrow> list(name \<mapsto> qty)
          | Some value \<Rightarrow> list(name \<mapsto> qo_Add Q value qty)))"

definition max_entry :: "'q quantityOps \<Rightarrow> 'q resource_list \<Rightarrow> string \<Rightarrow> 'q resource_list \<Rightarrow> 'q resource_list" where
  "max_entry Q new name list =
     (case new name of
        None \<Rightarrow> list
      | Some qty \<Rightarrow>
         (case list name of
            None \<Rightarrow> list(name \<mapsto> qty)
          | Some value \<Rightarrow> (if qo_Cmp Q qty value > 0 then list(name \<mapsto> qty) else list)))"

text \<open>The two loops of \<open>max\<close>: over \<open>a\<close>, then over \<open>b\<close> for the keys not yet in the result.\<close>

definition max_first :: "'q quantityOps \<Rightarrow> 'q resource_list \<Rightarrow> 'q resource_list \<Rightarrow> string \<Rightarrow> 'q resource_list \<Rightarrow> 'q resource_list" where
  "max_first Q a b key result =
     (case a key of
        None \<Rightarrow> result
      | Some value \<Rightarrow>
         (case b key of
            Some other \<Rightarrow> (if qo_Cmp Q value other \<le> 0 then result(key \<mapsto> other) else result(key \<mapsto> value))
          | None \<Rightarrow> result(key \<mapsto> value)))"

definition max_rest :: "'q resource_list \<Rightarrow> string \<Rightarrow> 'q resource_list \<Rightarrow> 'q resource_list" where
  "max_rest b key result =
     (case b key of
        None \<Rightarrow> result
      | Some value \<Rightarrow> (if result key = None then result(key \<mapsto> value) else result))"

definition add_overhead_entry ::
  "'q quantityOps \<Rightarrow> 'q resource_list \<Rightarrow> string \<Rightarrow> 'q resource_list \<Rightarrow> 'q resource_list" where
  "add_overhead_entry Q overhead name limits =
     (case overhead name of
        None \<Rightarrow> limits
      | Some qty \<Rightarrow>
         (case limits name of
            None \<Rightarrow> limits
          | Some value \<Rightarrow> (if \<not> qo_IsZero Q value then limits(name \<mapsto> qo_Add Q value qty) else limits)))"

section \<open>The same, pointwise\<close>

definition addResourceList :: "'q quantityOps \<Rightarrow> 'q resource_list \<Rightarrow> 'q resource_list \<Rightarrow> 'q resource_list" where
  "addResourceList Q list new name =
     (case (list name, new name) of
        (v, None) \<Rightarrow> v
      | (None, Some qty) \<Rightarrow> Some qty
      | (Some value, Some qty) \<Rightarrow> Some (qo_Add Q value qty))"

definition maxResourceList :: "'q quantityOps \<Rightarrow> 'q resource_list \<Rightarrow> 'q resource_list \<Rightarrow> 'q resource_list" where
  "maxResourceList Q list new name =
     (case (list name, new name) of
        (v, None) \<Rightarrow> v
      | (None, Some qty) \<Rightarrow> Some qty
      | (Some value, Some qty) \<Rightarrow> Some (if qo_Cmp Q qty value > 0 then qty else value))"

definition max_lists :: "'q quantityOps \<Rightarrow> 'q resource_list \<Rightarrow> 'q resource_list \<Rightarrow> 'q resource_list" where
  "max_lists Q a b key =
     (case (a key, b key) of
        (None, v) \<Rightarrow> v
      | (Some value, None) \<Rightarrow> Some value
      | (Some value, Some other) \<Rightarrow> Some (if qo_Cmp Q value other \<le> 0 then other else value))"

definition add_overhead_nonzero :: "'q quantityOps \<Rightarrow> 'q resource_list \<Rightarrow> 'q resource_list \<Rightarrow> 'q resource_list" where
  "add_overhead_nonzero Q limits overhead name =
     (case (limits name, overhead name) of
        (Some value, Some qty) \<Rightarrow> Some (if \<not> qo_IsZero Q value then qo_Add Q value qty else value)
      | (v, _) \<Rightarrow> v)"

section \<open>Pods\<close>

definition PodResizeStatusInfeasible :: string where "PodResizeStatusInfeasible = ''Infeasible''"
definition ContainerRestartPolicyAlways :: string where "ContainerRestartPolicyAlways = ''Always''"

definition restartable :: "'q container \<Rightarrow> bool" where
  "restartable c \<longleftrightarrow> c_RestartPolicy c = Some ContainerRestartPolicyAlways"

text \<open>The map from container names to statuses: a later status with the same name replaces an earlier one.\<close>

definition containerStatuses :: "'q pod \<Rightarrow> string \<rightharpoonup> 'q container_status" where
  "containerStatuses p = fold (\<lambda>cs m. m(cs_Name cs \<mapsto> cs)) (pod_ContainerStatuses p) Map.empty"

definition containerRequests :: "'q quantityOps \<Rightarrow> 'q pod \<Rightarrow> 'q container \<Rightarrow> 'q resource_list" where
  "containerRequests Q p c =
     (case containerStatuses p (c_Name c) of
        None \<Rightarrow> c_Requests c
      | Some cs \<Rightarrow>
         (case cs_Resources cs of
            None \<Rightarrow> c_Requests c
          | Some requests \<Rightarrow>
             (if pod_Resize p = PodResizeStatusInfeasible then requests
              else max_lists Q (c_Requests c) requests)))"

text \<open>
  The loop over the init containers, on the requests (or limits) \<open>res\<close>. The state is the
  running total, the total of the restartable init containers so far, and the greatest need of an
  init container so far.
\<close>

definition init_step ::
  "'q quantityOps \<Rightarrow> ('q container \<Rightarrow> 'q resource_list) \<Rightarrow> 'q container \<Rightarrow>
   'q resource_list \<times> 'q resource_list \<times> 'q resource_list \<Rightarrow>
   'q resource_list \<times> 'q resource_list \<times> 'q resource_list" where
  "init_step Q res c st =
     (case st of (reqs, restartableReqs, initReqs) \<Rightarrow>
        (if restartable c then
           (let reqs = addResourceList Q reqs (res c);
                restartableReqs = addResourceList Q restartableReqs (res c)
            in (reqs, restartableReqs, maxResourceList Q initReqs restartableReqs))
         else
           (let tmp = addResourceList Q (addResourceList Q Map.empty (res c)) restartableReqs
            in (reqs, restartableReqs, maxResourceList Q initReqs tmp))))"

definition podRequests :: "'q quantityOps \<Rightarrow> 'q pod \<Rightarrow> 'q resource_list" where
  "podRequests Q p =
     (let reqs = fold (\<lambda>c reqs. addResourceList Q reqs (containerRequests Q p c)) (ps_Containers (pod_Spec p)) Map.empty;
          (reqs, _, initReqs) = fold (init_step Q c_Requests) (ps_InitContainers (pod_Spec p)) (reqs, Map.empty, Map.empty);
          reqs = maxResourceList Q reqs initReqs
      in case ps_Overhead (pod_Spec p) of
           None \<Rightarrow> reqs
         | Some overhead \<Rightarrow> addResourceList Q reqs overhead)"

definition podLimits :: "'q quantityOps \<Rightarrow> 'q pod \<Rightarrow> 'q resource_list" where
  "podLimits Q p =
     (let limits = fold (\<lambda>c limits. addResourceList Q limits (c_Limits c)) (ps_Containers (pod_Spec p)) Map.empty;
          (limits, _, initLimits) = fold (init_step Q c_Limits) (ps_InitContainers (pod_Spec p)) (limits, Map.empty, Map.empty);
          limits = maxResourceList Q limits initLimits
      in case ps_Overhead (pod_Spec p) of
           None \<Rightarrow> limits
         | Some overhead \<Rightarrow> add_overhead_nonzero Q limits overhead)"

definition PodRequestsAndLimits :: "'q quantityOps \<Rightarrow> 'q pod \<Rightarrow> 'q resource_list \<times> 'q resource_list" where
  "PodRequestsAndLimits Q p = (podRequests Q p, podLimits Q p)"

definition computeTotalRequests :: "'q quantityOps \<Rightarrow> 'q pod list \<Rightarrow> 'q resource_list" where
  "computeTotalRequests Q pods =
     fold (\<lambda>p total. addResourceList Q total (fst (PodRequestsAndLimits Q p))) pods Map.empty"

section \<open>Every iteration order gives the pointwise result\<close>

lemma fold_add_entry:
  "distinct ks \<Longrightarrow> fold (add_entry Q new) ks l name = (if name \<in> set ks then addResourceList Q l new name else l name)"
  by (induction ks arbitrary: l) (auto simp: add_entry_def addResourceList_def split: option.splits)

lemma fold_max_entry:
  "distinct ks \<Longrightarrow> fold (max_entry Q new) ks l name = (if name \<in> set ks then maxResourceList Q l new name else l name)"
  by (induction ks arbitrary: l) (auto simp: max_entry_def maxResourceList_def split: option.splits)

lemma fold_max_first:
  "distinct ks \<Longrightarrow> fold (max_first Q a b) ks r name =
     (if name \<in> set ks then (case a name of None \<Rightarrow> r name | Some v \<Rightarrow> max_lists Q a b name) else r name)"
  by (induction ks arbitrary: r) (auto simp: max_first_def max_lists_def split: option.splits)

lemma fold_max_rest:
  "distinct ks \<Longrightarrow> fold (max_rest b) ks r name = (if name \<in> set ks \<and> r name = None then b name else r name)"
  by (induction ks arbitrary: r) (auto simp: max_rest_def split: option.splits)

lemma fold_add_overhead:
  "distinct ks \<Longrightarrow> fold (add_overhead_entry Q ov) ks l name =
     (if name \<in> set ks then add_overhead_nonzero Q l ov name else l name)"
  by (induction ks arbitrary: l) (auto simp: add_overhead_entry_def add_overhead_nonzero_def split: option.splits)

section \<open>Amounts\<close>

text \<open>
  What a pod needs at its peak, by the Kubernetes rules for init containers: the containers run
  together with all restartable init containers; an init container runs together with the
  restartable ones before it.
\<close>

fun init_peak :: "('q container \<Rightarrow> int) \<Rightarrow> int \<Rightarrow> 'q container list \<Rightarrow> int" where
  "init_peak need running [] = 0"
| "init_peak need running (c # cs) =
     (if restartable c then max (running + need c) (init_peak need (running + need c) cs)
      else max (running + need c) (init_peak need running cs))"

lemma init_peak_nonneg: "0 \<le> init_peak need running cs"
  by (induction need running cs rule: init_peak.induct) (auto simp: max.coboundedI2)

definition restartable_sum :: "('q container \<Rightarrow> int) \<Rightarrow> 'q container list \<Rightarrow> int" where
  "restartable_sum need cs = (\<Sum>c\<leftarrow>filter restartable cs. need c)"

lemma init_step_simps:
  "restartable c \<Longrightarrow> init_step Q res c (reqs, rest, ini) =
     (addResourceList Q reqs (res c), addResourceList Q rest (res c),
      maxResourceList Q ini (addResourceList Q rest (res c)))"
  "\<not> restartable c \<Longrightarrow> init_step Q res c (reqs, rest, ini) =
     (reqs, rest, maxResourceList Q ini (addResourceList Q (addResourceList Q Map.empty (res c)) rest))"
  by (simp_all add: init_step_def Let_def)

text \<open>The amount of a named resource, 0 when it is not listed.\<close>

definition rl_amount :: "'q quantityOps \<Rightarrow> ('q \<Rightarrow> int) \<Rightarrow> 'q resource_list \<Rightarrow> string \<Rightarrow> int" where
  "rl_amount Q amt l r = amt (rl_get Q r l)"

definition rl_nonneg :: "'q quantityOps \<Rightarrow> ('q \<Rightarrow> int) \<Rightarrow> 'q resource_list \<Rightarrow> bool" where
  "rl_nonneg Q amt l \<longleftrightarrow> (\<forall>r. 0 \<le> rl_amount Q amt l r)"

text \<open>All the quantities of a pod are non-negative.\<close>

definition pod_nonneg :: "'q quantityOps \<Rightarrow> ('q \<Rightarrow> int) \<Rightarrow> 'q pod \<Rightarrow> bool" where
  "pod_nonneg Q amt p \<longleftrightarrow>
     (\<forall>c \<in> set (ps_Containers (pod_Spec p)) \<union> set (ps_InitContainers (pod_Spec p)).
        rl_nonneg Q amt (c_Requests c) \<and> rl_nonneg Q amt (c_Limits c)) \<and>
     (\<forall>cs \<in> set (pod_ContainerStatuses p). \<forall>l. cs_Resources cs = Some l \<longrightarrow> rl_nonneg Q amt l) \<and>
     (\<forall>ov. ps_Overhead (pod_Spec p) = Some ov \<longrightarrow> rl_nonneg Q amt ov)"

text \<open>The peak of a pod for one resource, before overhead.\<close>

definition pod_peak :: "('q container \<Rightarrow> int) \<Rightarrow> ('q container \<Rightarrow> int) \<Rightarrow> 'q pod_spec \<Rightarrow> int" where
  "pod_peak need initNeed s =
     max ((\<Sum>c\<leftarrow>ps_Containers s. need c) + restartable_sum initNeed (ps_InitContainers s))
         (init_peak initNeed 0 (ps_InitContainers s))"

lemma pod_peak_nonneg: "0 \<le> pod_peak need initNeed s"
  using init_peak_nonneg[of initNeed 0 "ps_InitContainers s"] by (simp add: pod_peak_def max.coboundedI2)

lemma range_last_wins:
  "fold (\<lambda>cs m. m(cs_Name cs \<mapsto> cs)) css m n = Some s \<Longrightarrow> s \<in> set css \<or> m n = Some s"
proof (induction css arbitrary: m)
  case (Cons c css)
  from Cons.IH[of "m(cs_Name c \<mapsto> c)"] Cons.prems show ?case by (auto split: if_splits)
qed simp

context quantity
begin

abbreviation "amount \<equiv> rl_amount Q amt"
abbreviation "nonneg \<equiv> rl_nonneg Q amt"

lemma amount_empty [simp]: "amount Map.empty r = 0"
  by (simp add: rl_amount_def rl_get_def)

lemma amount_add [simp]: "amount (addResourceList Q l n) r = amount l r + amount n r"
  by (simp add: rl_amount_def rl_get_def addResourceList_def split: option.splits)

lemma amount_max: "nonneg l \<Longrightarrow> nonneg n \<Longrightarrow> amount (maxResourceList Q l n) r = max (amount l r) (amount n r)"
  unfolding rl_nonneg_def rl_amount_def rl_get_def maxResourceList_def
  by (auto simp: Cmp_gt max_def split: option.splits dest!: spec[of _ r])

lemma amount_max_lists: "nonneg a \<Longrightarrow> nonneg b \<Longrightarrow> amount (max_lists Q a b) r = max (amount a r) (amount b r)"
  unfolding rl_nonneg_def rl_amount_def rl_get_def max_lists_def
  by (auto simp: Cmp_le max_def split: option.splits dest!: spec[of _ r])

lemma amount_overhead:
  "amount (add_overhead_nonzero Q l ov) r = (if amount l r = 0 then 0 else amount l r + amount ov r)"
  by (auto simp: rl_amount_def rl_get_def add_overhead_nonzero_def IsZero_amt split: option.splits)

lemma nonneg_empty [simp, intro]: "nonneg Map.empty"
  by (simp add: rl_nonneg_def)

lemma nonneg_add [intro]: "nonneg l \<Longrightarrow> nonneg n \<Longrightarrow> nonneg (addResourceList Q l n)"
  by (simp add: rl_nonneg_def)

lemma nonneg_max [intro]: "nonneg l \<Longrightarrow> nonneg n \<Longrightarrow> nonneg (maxResourceList Q l n)"
  by (metis (no_types, lifting) amount_max max.coboundedI1 rl_nonneg_def)

lemma nonneg_max_lists [intro]: "nonneg l \<Longrightarrow> nonneg n \<Longrightarrow> nonneg (max_lists Q l n)"
  by (metis (no_types, lifting) amount_max_lists max.coboundedI1 rl_nonneg_def)

lemma amount_sum:
  "amount (fold (\<lambda>c l. addResourceList Q l (res c)) cs l) r = amount l r + (\<Sum>c\<leftarrow>cs. amount (res c) r)"
  by (induction cs arbitrary: l) simp_all

lemma nonneg_sum:
  "nonneg l \<Longrightarrow> \<forall>c \<in> set cs. nonneg (res c) \<Longrightarrow> nonneg (fold (\<lambda>c l. addResourceList Q l (res c)) cs l)"
  by (induction cs arbitrary: l) auto

text \<open>The loop over the init containers computes the two sums and the peak.\<close>

lemma init_loop:
  assumes "fold (init_step Q res) cs (reqs, rest, ini) = (reqs', rest', ini')"
    and "nonneg reqs" "nonneg rest" "nonneg ini" "\<forall>c \<in> set cs. nonneg (res c)"
  shows "nonneg reqs' \<and> nonneg ini' \<and>
    amount reqs' r = amount reqs r + restartable_sum (\<lambda>c. amount (res c) r) cs \<and>
    amount ini' r = max (amount ini r) (init_peak (\<lambda>c. amount (res c) r) (amount rest r) cs)"
  using assms
proof (induction cs arbitrary: reqs rest ini)
  case Nil
  then show ?case by (auto simp: restartable_sum_def rl_nonneg_def max_def dest: spec[of _ r])
next
  case (Cons c cs)
  show ?case
  proof (cases "restartable c")
    case True
    with Cons.prems(1) have "fold (init_step Q res) cs
        (addResourceList Q reqs (res c), addResourceList Q rest (res c),
         maxResourceList Q ini (addResourceList Q rest (res c))) = (reqs', rest', ini')"
      by (simp add: init_step_simps)
    from Cons.IH[OF this] Cons.prems True show ?thesis
      by (auto simp: restartable_sum_def amount_max nonneg_add nonneg_max max.assoc add.assoc)
  next
    case False
    with Cons.prems(1) have "fold (init_step Q res) cs
        (reqs, rest, maxResourceList Q ini (addResourceList Q (addResourceList Q Map.empty (res c)) rest)) = (reqs', rest', ini')"
      by (simp add: init_step_simps)
    from Cons.IH[OF this] Cons.prems False show ?thesis
      by (auto simp: restartable_sum_def amount_max nonneg_add nonneg_max max.assoc add.commute)
  qed
qed

lemma nonneg_containerRequests:
  assumes "nonneg (c_Requests c)" "\<forall>cs \<in> set (pod_ContainerStatuses p). \<forall>l. cs_Resources cs = Some l \<longrightarrow> nonneg l"
  shows "nonneg (containerRequests Q p c)"
proof -
  have "containerStatuses p n = Some s \<Longrightarrow> s \<in> set (pod_ContainerStatuses p)" for n s
    using range_last_wins[of "pod_ContainerStatuses p" Map.empty n s] by (simp add: containerStatuses_def)
  with assms show ?thesis by (auto simp: containerRequests_def split: option.splits)
qed

lemma podRequests_amount:
  assumes "pod_nonneg Q amt p"
  shows "amount (podRequests Q p) r =
    pod_peak (\<lambda>c. amount (containerRequests Q p c) r) (\<lambda>c. amount (c_Requests c) r) (pod_Spec p) +
    (case ps_Overhead (pod_Spec p) of None \<Rightarrow> 0 | Some ov \<Rightarrow> amount ov r)"
proof -
  let ?base = "fold (\<lambda>c reqs. addResourceList Q reqs (containerRequests Q p c)) (ps_Containers (pod_Spec p)) Map.empty"
  obtain reqs rest ini where st:
    "fold (init_step Q c_Requests) (ps_InitContainers (pod_Spec p)) (?base, Map.empty, Map.empty) = (reqs, rest, ini)"
    by (metis prod.collapse)
  have base: "nonneg ?base"
    using assms by (intro nonneg_sum) (auto simp: pod_nonneg_def intro!: nonneg_containerRequests)
  have inits: "\<forall>c \<in> set (ps_InitContainers (pod_Spec p)). nonneg (c_Requests c)"
    using assms by (simp add: pod_nonneg_def)
  show ?thesis
    using init_loop[OF st base nonneg_empty nonneg_empty inits, of r] st
      init_peak_nonneg[of "\<lambda>c. amount (c_Requests c) r" 0 "ps_InitContainers (pod_Spec p)"]
    by (auto simp: podRequests_def pod_peak_def amount_max amount_sum split: option.splits)
qed

lemma podLimits_amount:
  assumes "pod_nonneg Q amt p"
  shows "amount (podLimits Q p) r =
    (let peak = pod_peak (\<lambda>c. amount (c_Limits c) r) (\<lambda>c. amount (c_Limits c) r) (pod_Spec p)
     in if peak = 0 then 0
        else peak + (case ps_Overhead (pod_Spec p) of None \<Rightarrow> 0 | Some ov \<Rightarrow> amount ov r))"
proof -
  let ?base = "fold (\<lambda>c l. addResourceList Q l (c_Limits c)) (ps_Containers (pod_Spec p)) Map.empty"
  obtain limits rest ini where st:
    "fold (init_step Q c_Limits) (ps_InitContainers (pod_Spec p)) (?base, Map.empty, Map.empty) = (limits, rest, ini)"
    by (metis prod.collapse)
  have base: "nonneg ?base" using assms by (intro nonneg_sum) (auto simp: pod_nonneg_def)
  have inits: "\<forall>c \<in> set (ps_InitContainers (pod_Spec p)). nonneg (c_Limits c)"
    using assms by (simp add: pod_nonneg_def)
  note loop = init_loop[OF st base nonneg_empty nonneg_empty inits, of r]
  have peak: "amount (maxResourceList Q limits ini) r =
      pod_peak (\<lambda>c. amount (c_Limits c) r) (\<lambda>c. amount (c_Limits c) r) (pod_Spec p)"
    using loop init_peak_nonneg[of "\<lambda>c. amount (c_Limits c) r" 0 "ps_InitContainers (pod_Spec p)"]
    by (auto simp: pod_peak_def amount_max amount_sum)
  show ?thesis
    using peak st by (auto simp: podLimits_def amount_overhead Let_def split: option.splits)
qed

lemma podRequests_nonneg: "pod_nonneg Q amt p \<Longrightarrow> nonneg (podRequests Q p)"
  using pod_peak_nonneg
  by (auto simp: rl_nonneg_def podRequests_amount pod_nonneg_def intro!: add_nonneg_nonneg split: option.splits)

end

section \<open>A small pod\<close>

text \<open>One container, a sidecar and an init container that needs more than both.\<close>

definition ex_need :: "int \<Rightarrow> string option \<Rightarrow> int container" where
  "ex_need n restart = \<lparr>c_Name = ''c'', c_Requests = [ResourceCPU \<mapsto> n], c_Limits = [ResourceCPU \<mapsto> n], c_RestartPolicy = restart\<rparr>"

definition ex_busy_pod :: "int pod" where
  "ex_busy_pod = \<lparr>pod_Meta = \<lparr>om_Name = ''p'', om_Namespace = ''ns'', om_Labels = None, om_CreationTimestamp = None\<rparr>,
     pod_Spec = \<lparr>ps_SchedulingGates = [], ps_SchedulerName = SchedulerName, ps_ActiveDeadlineSeconds = None,
       ps_Containers = [ex_need 3 None], ps_InitContainers = [ex_need 2 (Some ContainerRestartPolicyAlways), ex_need 7 None],
       ps_Overhead = Some [ResourceCPU \<mapsto> 1]\<rparr>,
     pod_ContainerStatuses = [], pod_Resize = []\<rparr>"

lemma ex_busy_nonneg: "pod_nonneg nano_ops (\<lambda>q. q) ex_busy_pod"
  by (auto simp: pod_nonneg_def rl_nonneg_def rl_amount_def rl_get_def ex_busy_pod_def ex_need_def nano_ops_def)

section \<open>Properties\<close>

text \<open>The order in which Go ranges over a map does not matter: over every sequence of the keys, each
  once, the loops of \<open>addResourceList\<close>, \<open>maxResourceList\<close>, \<open>max\<close> and of the
  overhead in \<open>podLimits\<close> give the same list.\<close>

lemma range_order_irrelevant:
  assumes "distinct ks" "set ks = dom new" "distinct ks'" "set ks' = dom list"
  shows "fold (add_entry Q new) ks list = addResourceList Q list new \<and>
    fold (max_entry Q new) ks list = maxResourceList Q list new \<and>
    fold (max_rest new) ks (fold (max_first Q list new) ks' Map.empty) = max_lists Q list new \<and>
    fold (add_overhead_entry Q new) ks list = add_overhead_nonzero Q list new"
  using assms
  by (auto simp: fun_eq_iff fold_add_entry fold_max_entry fold_max_rest fold_max_first fold_add_overhead
      addResourceList_def maxResourceList_def max_lists_def add_overhead_nonzero_def domIff split: option.splits)

text \<open>C30: the requests of a pod are its peak need plus its overhead, for every resource: the greater of
  what the containers and restartable init containers need together, and of what any init container
  needs together with the restartable ones before it.\<close>
theorem podRequests_peak:
  assumes "quantity Q amt" "pod_nonneg Q amt p"
  shows "rl_amount Q amt (podRequests Q p) r =
    pod_peak (\<lambda>c. rl_amount Q amt (containerRequests Q p c) r) (\<lambda>c. rl_amount Q amt (c_Requests c) r) (pod_Spec p) +
    (case ps_Overhead (pod_Spec p) of None \<Rightarrow> 0 | Some ov \<Rightarrow> rl_amount Q amt ov r)"
  using assms by (rule quantity.podRequests_amount)

theorem podRequests_peak_witness:
  "rl_amount nano_ops (\<lambda>q. q) (podRequests nano_ops ex_busy_pod) ResourceCPU = 10"
  using podRequests_peak[OF nano.quantity_axioms ex_busy_nonneg, of ResourceCPU]
  by (simp add: pod_peak_def ex_busy_pod_def ex_need_def restartable_sum_def restartable_def containerRequests_def
      containerStatuses_def rl_amount_def rl_get_def)

text \<open>The limits of a pod are the same peak over its limits, with the overhead added only to a
  resource whose limit is not zero.\<close>

lemma podLimits_peak:
  assumes "quantity Q amt" "pod_nonneg Q amt p"
  shows "rl_amount Q amt (podLimits Q p) r =
    (let peak = pod_peak (\<lambda>c. rl_amount Q amt (c_Limits c) r) (\<lambda>c. rl_amount Q amt (c_Limits c) r) (pod_Spec p)
     in if peak = 0 then 0
        else peak + (case ps_Overhead (pod_Spec p) of None \<Rightarrow> 0 | Some ov \<Rightarrow> rl_amount Q amt ov r))"
  using assms by (rule quantity.podLimits_amount)

end
