(* ===== verification/Cluster.thy ===== *)
theory Cluster
  imports JGF Resources
begin

text \<open>
  The resource graph of the cluster: \<open>createInClusterJGF\<close> and \<open>InitFluxion\<close> of
  \<open>internal/controller/cluster.go\<close>. The Kubernetes client, the selector parser and Fluxion's
  \<open>Init\<close> are parameters. The source never writes to \<open>subnetLookup\<close>, so its lookups
  always miss; the map is kept in the model.
\<close>

section \<open>Nodes\<close>

record 'q kube_node =
  kn_Name :: string
  kn_Labels :: "labels option"
  kn_Unschedulable :: bool
  kn_Allocatable :: "'q resource_list"

record 'q clusterOps =
  cl_config :: "go_error option"
  cl_clientset :: "go_error option"
  cl_listNodes :: "'q kube_node list result"
  cl_parseSelector :: "string \<Rightarrow> string result"
  cl_listPods :: "string \<Rightarrow> 'q pod list result"

definition defaultClusterName :: string where "defaultClusterName = ''cluster''"
definition controlPlaneLabel :: string where "controlPlaneLabel = ''node-role.kubernetes.io/control-plane''"
definition zoneLabel :: string where "zoneLabel = ''topology.kubernetes.io/zone''"

definition skip_node :: "string \<Rightarrow> 'q kube_node \<Rightarrow> bool" where
  "skip_node skipLabel node \<longleftrightarrow>
     label_get (kn_Labels node) controlPlaneLabel \<noteq> None \<or>
     (skipLabel \<noteq> [] \<and> label_get (kn_Labels node) skipLabel \<noteq> None) \<or>
     kn_Unschedulable node"

definition pod_selection :: "string \<Rightarrow> string" where
  "pod_selection name = ''spec.nodeName='' @ name @ '',status.phase!=Succeeded,status.phase!=Failed''"

text \<open>Go's integer division truncates toward zero.\<close>

definition quot64 :: "int64 \<Rightarrow> int64 \<Rightarrow> int64" where
  "quot64 a b = word_of_int (sgn (sint a) * sgn (sint b) * (\<bar>sint a\<bar> div \<bar>sint b\<bar>))"

definition avail_cpu :: "'q quantityOps \<Rightarrow> 'q kube_node \<Rightarrow> 'q pod list \<Rightarrow> int64" where
  "avail_cpu Q node pods =
     (let reqs = computeTotalRequests Q pods;
          cpuReqs = rl_get Q ResourceCPU reqs;
          totalCpu = qo_MilliValue Q (rl_get Q ResourceCPU (kn_Allocatable node))
      in quot64 (totalCpu - qo_MilliValue Q cpuReqs) 1000)"

definition avail_mem :: "'q quantityOps \<Rightarrow> 'q kube_node \<Rightarrow> 'q pod list \<Rightarrow> int64" where
  "avail_mem Q node pods =
     (let reqs = computeTotalRequests Q pods;
          memReqs = rl_get Q ResourceMemory reqs;
          totalMem = qo_Value Q (rl_get Q ResourceMemory (kn_Allocatable node))
      in totalMem - qo_Value Q memReqs)"

section \<open>The graph\<close>

text \<open>The three inner loops: \<open>mk\<close> makes the vertex of an index, and an edge ties it to the node.\<close>

fun add_leaves :: "(int64 \<Rightarrow> fluxJGF \<Rightarrow> jnode \<times> fluxJGF) \<Rightarrow> string \<Rightarrow> nat \<Rightarrow> nat \<Rightarrow> fluxJGF \<Rightarrow> fluxJGF" where
  "add_leaves mk parent index 0 g = g"
| "add_leaves mk parent index (Suc n) g =
     (case mk (of_nat index) g of (leaf, g) \<Rightarrow>
        add_leaves mk parent (Suc index) n (MakeBidirectionalEdge parent (jn_Id leaf) g))"

text \<open>\<open>for index := 0; index < int(v); index++\<close> runs this many times.\<close>

definition loop_count :: "int64 \<Rightarrow> nat" where
  "loop_count v = nat (sint v)"

record clusterState =
  cs_graph :: fluxJGF
  cs_subnetLookup :: "string \<rightharpoonup> jnode"
  cs_subnetCounter :: int64
  cs_totalAllocCpu :: int64

text \<open>The subnet of a zone: looked up, else made below the cluster.\<close>

definition subnet_for :: "string \<Rightarrow> string \<Rightarrow> clusterState \<Rightarrow> jnode \<times> clusterState" where
  "subnet_for clusterId subnetName st =
     (case cs_subnetLookup st subnetName of
        Some subnetNode \<Rightarrow> (subnetNode, st)
      | None \<Rightarrow>
         (case MakeSubnet subnetName (cs_subnetCounter st) (cs_graph st) of (subnetNode, g) \<Rightarrow>
            (subnetNode, st\<lparr>cs_subnetCounter := cs_subnetCounter st + 1,
                            cs_graph := MakeBidirectionalEdge clusterId (jn_Id subnetNode) g\<rparr>)))"

text \<open>The compute node below its subnet, with its GPUs, cores and memory.\<close>

definition add_compute ::
  "'q quantityOps \<Rightarrow> jnode \<Rightarrow> nat \<Rightarrow> 'q kube_node \<Rightarrow> int64 \<Rightarrow> int64 \<Rightarrow> fluxJGF \<Rightarrow> fluxJGF" where
  "add_compute Q subnetNode nodeCount node availCpu availMem g =
     (let subnet = nm_Name (jn_Metadata subnetNode);
          (computeNode, g) = MakeNode (kn_Name node) subnet (of_nat nodeCount) g;
          g = MakeBidirectionalEdge (jn_Id subnetNode) (jn_Id computeNode) g;
          subpath = subnet @ ''/'' @ nm_Name (jn_Metadata computeNode);
          g = (case kn_Allocatable node NvidiaGPUResource of
                 None \<Rightarrow> g
               | Some gpus \<Rightarrow> add_leaves (MakeGPU NvidiaGPU subpath 1) (jn_Id computeNode) 0
                               (loop_count (qo_Value Q gpus)) g);
          g = add_leaves (MakeCore CoreType subpath) (jn_Id computeNode) 0 (loop_count availCpu) g;
          fractionMem = signed_drop_bit 30 availMem
      in add_leaves (MakeMemory MemoryType subpath 1024) (jn_Id computeNode) 0 (loop_count fractionMem) g)"

text \<open>The body of the loop over the nodes.\<close>

definition node_step ::
  "'q clusterOps \<Rightarrow> 'q quantityOps \<Rightarrow> string \<Rightarrow> string \<Rightarrow> nat \<Rightarrow> 'q kube_node \<Rightarrow> clusterState \<Rightarrow> clusterState result" where
  "node_step A Q skipLabel clusterId nodeCount node st =
     (if skip_node skipLabel node then Inr st
      else
        (case cl_parseSelector A (pod_selection (kn_Name node)) of
           Inl e \<Rightarrow> Inl e
         | Inr fieldselector \<Rightarrow>
            (case cl_listPods A fieldselector of
               Inl e \<Rightarrow> Inl e
             | Inr pods \<Rightarrow>
                (let subnetName = (case label_get (kn_Labels node) zoneLabel of None \<Rightarrow> [] | Some z \<Rightarrow> z);
                     (subnetNode, st) = subnet_for clusterId subnetName st;
                     availCpu = avail_cpu Q node pods;
                     availMem = avail_mem Q node pods
                 in Inr (st\<lparr>cs_totalAllocCpu := cs_totalAllocCpu st + availCpu,
                            cs_graph := add_compute Q subnetNode nodeCount node availCpu availMem (cs_graph st)\<rparr>)))))"

fun nodes_loop ::
  "'q clusterOps \<Rightarrow> 'q quantityOps \<Rightarrow> string \<Rightarrow> string \<Rightarrow> nat \<Rightarrow> 'q kube_node list \<Rightarrow> clusterState \<Rightarrow> clusterState result" where
  "nodes_loop A Q skipLabel clusterId nodeCount [] st = Inr st"
| "nodes_loop A Q skipLabel clusterId nodeCount (node # nodes) st =
     (case node_step A Q skipLabel clusterId nodeCount node st of
        Inl e \<Rightarrow> Inl e
      | Inr st \<Rightarrow> nodes_loop A Q skipLabel clusterId (Suc nodeCount) nodes st)"

definition cluster_graph :: "'q clusterOps \<Rightarrow> 'q quantityOps \<Rightarrow> string \<Rightarrow> fluxJGF result" where
  "cluster_graph A Q skipLabel =
     (case cl_config A of Some e \<Rightarrow> Inl e | None \<Rightarrow>
      (case cl_clientset A of Some e \<Rightarrow> Inl e | None \<Rightarrow>
       (case cl_listNodes A of Inl e \<Rightarrow> Inl e | Inr items \<Rightarrow>
        (case InitCluster defaultClusterName NewFluxJGF of Inl e \<Rightarrow> Inl e | Inr (clusterNode, g) \<Rightarrow>
          map_sum id cs_graph
            (nodes_loop A Q skipLabel (jn_Id clusterNode) 0 items
               \<lparr>cs_graph = g, cs_subnetLookup = Map.empty, cs_subnetCounter = 0, cs_totalAllocCpu = 0\<rparr>)))))"

definition createInClusterJGF ::
  "'q clusterOps \<Rightarrow> 'q quantityOps \<Rightarrow> go_error option \<Rightarrow> go_error option \<Rightarrow> string \<Rightarrow>
   string \<Rightarrow> (string \<rightharpoonup> string) \<Rightarrow> (go_error option \<times> (string \<rightharpoonup> string)) go" where
  "createInClusterJGF A Q create write filename skipLabel files =
     (case cluster_graph A Q skipLabel of
        Inl e \<Rightarrow> Ret (Some e, files)
      | Inr g \<Rightarrow> WriteJGF create write filename g files)"

definition KubernetesJsonGraphFormat :: string where
  "KubernetesJsonGraphFormat = ''/kubecluster.json''"

text \<open>
  \<open>readErr\<close> is the error of \<open>os.ReadFile\<close>, which otherwise returns the file just
  written; \<open>fluxion\<close> is the client, by its \<open>Init\<close> on the policy and the graph, or nil.
\<close>

definition InitFluxion ::
  "'q clusterOps \<Rightarrow> 'q quantityOps \<Rightarrow> go_error option \<Rightarrow> go_error option \<Rightarrow>
   go_error option \<Rightarrow> (string \<Rightarrow> string \<Rightarrow> go_error option) option \<Rightarrow> string \<Rightarrow> (string \<rightharpoonup> string) \<Rightarrow>
   (go_error option \<times> (string \<rightharpoonup> string)) go" where
  "InitFluxion A Q create write readErr fluxion policy files =
     (case createInClusterJGF A Q create write KubernetesJsonGraphFormat [] files of
        Panic m \<Rightarrow> Panic m
      | Ret (Some e, files) \<Rightarrow> Ret (Some e, files)
      | Ret (None, files) \<Rightarrow>
         (case readErr of
            Some e \<Rightarrow> Ret (Some e, files)
          | None \<Rightarrow>
             (case files KubernetesJsonGraphFormat of
                None \<Rightarrow> Ret (Some (NotFound KubernetesJsonGraphFormat), files)
              | Some graph \<Rightarrow>
                 (case fluxion of
                    None \<Rightarrow> Panic ''nil pointer dereference''
                  | Some init \<Rightarrow> Ret (init policy graph, files)))))"

section \<open>What a vertex maker promises\<close>

text \<open>
  The loops rely on this of the function that makes the vertex of an index: it adds one vertex of
  a fixed type and base name with that index, below a fixed path.
\<close>

locale leaf_maker =
  fixes mk :: "int64 \<Rightarrow> fluxJGF \<Rightarrow> jnode \<times> fluxJGF"
    and ty name subpath unit :: string and sz :: int64
  assumes mk_vertex: "mk i g = add_vertex name ty i (subpath @ ''/'' @ name @ itoa (sint i)) unit sz g"
    and name_plain: "CHR ''/'' \<notin> set name"
begin

lemma add_leaves_tree:
  assumes "jgf_tree g rows" "length rows + n < 2 ^ 63" "at_path g par cs" "cs \<noteq> []" "subpath = join cs ''/''"
    and "g' = add_leaves mk (node_id par) index n g"
  shows "jgf_tree g' (rows @ map (\<lambda>i. (ty, name, of_nat i, par)) [index..<index + n]) \<and>
    (\<forall>q ds. at_path g q ds \<longrightarrow> at_path g' q ds)"
  using assms
proof (induction n arbitrary: index g rows)
  case (Suc n)
  obtain leaf g1 where leaf: "mk (of_nat index) g = (leaf, g1)" by (metis prod.collapse)
  let ?g2 = "MakeBidirectionalEdge (node_id par) (jn_Id leaf) g1"
  have sub: "subpath @ ''/'' @ name @ itoa (sint (of_nat index :: int64)) =
      join (cs @ [name @ itoa (sint (of_nat index :: int64))]) ''/''"
    using Suc.prems(4,5) by (simp add: join_snoc)
  have "length rows < 2 ^ 63" using Suc.prems(2) by simp
  note child = add_child_at[OF Suc.prems(1) this Suc.prems(3) name_plain sub leaf[unfolded mk_vertex] refl]
  have g': "g' = add_leaves mk (node_id par) (Suc index) n ?g2" using Suc.prems(6) leaf by simp
  have "jgf_tree g' ((rows @ [(ty, name, of_nat index, par)]) @ map (\<lambda>i. (ty, name, of_nat i, par)) [Suc index..<Suc index + n]) \<and>
      (\<forall>q ds. at_path ?g2 q ds \<longrightarrow> at_path g' q ds)"
    using Suc.prems by (intro Suc.IH[OF child(1) _ child(4) Suc.prems(4,5) g']) simp_all
  moreover have "[index..<index + Suc n] = index # [Suc index..<Suc index + n]"
    by (simp add: upt_conv_Cons)
  ultimately show ?case using child(4) by simp
qed simp

end

interpretation gpu: leaf_maker "MakeGPU NvidiaGPU subpath 1" GPUType NvidiaGPU subpath defaultUnit 1 for subpath
  by unfold_locales (simp_all add: make_vertex NvidiaGPU_def)

interpretation core: leaf_maker "MakeCore CoreType subpath" CoreType CoreType subpath defaultUnit defaultSize for subpath
  by unfold_locales (simp_all add: make_vertex CoreType_def)

interpretation memory: leaf_maker "MakeMemory MemoryType subpath 1024" MemoryType MemoryType subpath "''MB''" 1024 for subpath
  by unfold_locales (simp_all add: make_vertex MemoryType_def)

section \<open>The vertices of a cluster\<close>

definition zone_of :: "'q kube_node \<Rightarrow> string" where
  "zone_of node = (case label_get (kn_Labels node) zoneLabel of None \<Rightarrow> [] | Some z \<Rightarrow> z)"

definition gpu_count :: "'q quantityOps \<Rightarrow> 'q kube_node \<Rightarrow> nat" where
  "gpu_count Q node = (case kn_Allocatable node NvidiaGPUResource of None \<Rightarrow> 0 | Some gpus \<Rightarrow> loop_count (qo_Value Q gpus))"

text \<open>
  The rows a node adds when \<open>b\<close> rows are there: a subnet below the cluster, the node below the
  subnet, and below the node one vertex per GPU, per available core and per available GiB of memory.
\<close>

definition node_rows :: "'q quantityOps \<Rightarrow> nat \<Rightarrow> int64 \<Rightarrow> nat \<Rightarrow> 'q kube_node \<Rightarrow> 'q pod list \<Rightarrow> vrow list" where
  "node_rows Q b subnetCounter nodeCount node pods =
     [(SubnetType, zone_of node, subnetCounter, 0), (NodeType, kn_Name node, of_nat nodeCount, Suc b)] @
     map (\<lambda>i. (GPUType, NvidiaGPU, of_nat i, Suc (Suc b))) [0..<gpu_count Q node] @
     map (\<lambda>i. (CoreType, CoreType, of_nat i, Suc (Suc b))) [0..<loop_count (avail_cpu Q node pods)] @
     map (\<lambda>i. (MemoryType, MemoryType, of_nat i, Suc (Suc b))) [0..<loop_count (signed_drop_bit 30 (avail_mem Q node pods))]"

definition pods_of :: "'q clusterOps \<Rightarrow> 'q kube_node \<Rightarrow> 'q pod list result" where
  "pods_of A node =
     (case cl_parseSelector A (pod_selection (kn_Name node)) of Inl e \<Rightarrow> Inl e | Inr s \<Rightarrow> cl_listPods A s)"

lemma node_step_skip: "skip_node skipLabel node \<Longrightarrow> node_step A Q skipLabel cid cnt node st = Inr st"
  by (simp add: node_step_def)

lemma node_step_fails:
  "\<not> skip_node skipLabel node \<Longrightarrow> pods_of A node = Inl e \<Longrightarrow> node_step A Q skipLabel cid cnt node st = Inl e"
  by (auto simp: node_step_def pods_of_def split: sum.splits)

lemma subnet_for_tree:
  assumes "cs_subnetLookup st = Map.empty" "jgf_tree (cs_graph st) rows" "at_path (cs_graph st) 0 []"
    and "CHR ''/'' \<notin> set zone" "length rows < 2 ^ 63"
  obtains sn g where
    "subnet_for (node_id 0) zone st = (sn, st\<lparr>cs_subnetCounter := cs_subnetCounter st + 1, cs_graph := g\<rparr>)"
    "jgf_tree g (rows @ [(SubnetType, zone, cs_subnetCounter st, 0)])" "jn_Id sn = node_id (Suc (length rows))"
    "nm_Name (jn_Metadata sn) = zone @ itoa (sint (cs_subnetCounter st))"
    "at_path g (Suc (length rows)) [nm_Name (jn_Metadata sn)]" "at_path g 0 []"
proof -
  obtain sn g0 where sn: "MakeSubnet zone (cs_subnetCounter st) (cs_graph st) = (sn, g0)" by (metis prod.collapse)
  have sub: "zone @ itoa (sint (cs_subnetCounter st)) = join ([] @ [zone @ itoa (sint (cs_subnetCounter st))]) ''/''"
    by simp
  note child = add_child_at[OF assms(2,5,3,4) sub sn[unfolded make_vertex] refl]
  show thesis
    using child(1,2,5) child(3) child(4)[OF assms(3)] assms(1) sn
    by (intro that[of sn]) (simp_all add: subnet_for_def)
qed

lemma add_compute_tree:
  assumes "jgf_tree g rows" "length rows + Suc (gpu_count Q node + loop_count cpu + loop_count (signed_drop_bit 30 mem)) < 2 ^ 63"
    and "at_path g (length rows) [nm_Name (jn_Metadata sn)]" "jn_Id sn = node_id (length rows)" "CHR ''/'' \<notin> set (kn_Name node)"
    and "g' = add_compute Q sn cnt node cpu mem g"
  shows "jgf_tree g' (rows @ (NodeType, kn_Name node, of_nat cnt, length rows) #
      map (\<lambda>i. (GPUType, NvidiaGPU, of_nat i, Suc (length rows))) [0..<gpu_count Q node] @
      map (\<lambda>i. (CoreType, CoreType, of_nat i, Suc (length rows))) [0..<loop_count cpu] @
      map (\<lambda>i. (MemoryType, MemoryType, of_nat i, Suc (length rows))) [0..<loop_count (signed_drop_bit 30 mem)]) \<and>
    (\<forall>q ds. at_path g q ds \<longrightarrow> at_path g' q ds)"
proof -
  let ?subnet = "nm_Name (jn_Metadata sn)" and ?node = "kn_Name node @ itoa (sint (of_nat cnt :: int64))"
  let ?b = "length rows" and ?rows = "rows @ [(NodeType, kn_Name node, of_nat cnt, length rows)]"
  let ?path = "?subnet @ ''/'' @ ?node"
  obtain cn g0 where cn: "MakeNode (kn_Name node) ?subnet (of_nat cnt) g = (cn, g0)" by (metis prod.collapse)
  define g1 where "g1 = MakeBidirectionalEdge (node_id ?b) (jn_Id cn) g0"
  define g2 where "g2 = add_leaves (MakeGPU NvidiaGPU ?path 1) (node_id (Suc ?b)) 0 (gpu_count Q node) g1"
  define g3 where "g3 = add_leaves (MakeCore CoreType ?path) (node_id (Suc ?b)) 0 (loop_count cpu) g2"
  define g4 where "g4 = add_leaves (MakeMemory MemoryType ?path 1024) (node_id (Suc ?b)) 0 (loop_count (signed_drop_bit 30 mem)) g3"
  have sub: "?path = join ([?subnet] @ [?node]) ''/''" and pj: "?path = join [?subnet, ?node] ''/''" by simp_all
  have len: "?b < 2 ^ 63" using assms(2) by simp
  note node = add_child_at[OF assms(1) len assms(3,5) sub cn[unfolded make_vertex] g1_def]
  have at1: "at_path g1 (Suc ?b) [?subnet, ?node]" using node(3) by simp
  let ?gpus = "map (\<lambda>i. (GPUType, NvidiaGPU, of_nat i, Suc ?b)) [0..<gpu_count Q node]"
  let ?cores = "map (\<lambda>i. (CoreType, CoreType, of_nat i, Suc ?b)) [0..<loop_count cpu]"
  have gpus: "jgf_tree g2 (?rows @ ?gpus) \<and> (\<forall>q ds. at_path g1 q ds \<longrightarrow> at_path g2 q ds)"
    using gpu.add_leaves_tree[OF node(1) _ at1 _ pj g2_def] assms(2) by simp
  then have cores: "jgf_tree g3 ((?rows @ ?gpus) @ ?cores) \<and> (\<forall>q ds. at_path g2 q ds \<longrightarrow> at_path g3 q ds)"
    using core.add_leaves_tree[OF _ _ _ _ pj g3_def, of "?rows @ ?gpus"] at1 assms(2) by simp
  then have mems: "jgf_tree g4 (((?rows @ ?gpus) @ ?cores) @
      map (\<lambda>i. (MemoryType, MemoryType, of_nat i, Suc ?b)) [0..<loop_count (signed_drop_bit 30 mem)]) \<and>
      (\<forall>q ds. at_path g3 q ds \<longrightarrow> at_path g4 q ds)"
    using memory.add_leaves_tree[OF _ _ _ _ pj g4_def, of "(?rows @ ?gpus) @ ?cores"] gpus at1 assms(2) by simp
  have "g' = g4"
    using assms(4,6) cn node(2,5)
    by (simp add: add_compute_def g1_def g2_def g3_def g4_def gpu_count_def Let_def split: option.splits)
  then show ?thesis using gpus cores mems node(4) by simp
qed

text \<open>One node that is not skipped.\<close>

lemma node_step_rows:
  assumes "\<not> skip_node skipLabel node" "pods_of A node = Inr pods" "cs_subnetLookup st = Map.empty"
    and "jgf_tree (cs_graph st) rows" "at_path (cs_graph st) 0 []"
    and "CHR ''/'' \<notin> set (zone_of node)" "CHR ''/'' \<notin> set (kn_Name node)"
    and "length rows + length (node_rows Q (length rows) (cs_subnetCounter st) cnt node pods) < 2 ^ 63"
  obtains st' where "node_step A Q skipLabel (node_id 0) cnt node st = Inr st'"
    "jgf_tree (cs_graph st') (rows @ node_rows Q (length rows) (cs_subnetCounter st) cnt node pods)"
    "at_path (cs_graph st') 0 []" "cs_subnetLookup st' = Map.empty" "cs_subnetCounter st' = cs_subnetCounter st + 1"
proof -
  have len: "length rows < 2 ^ 63" using assms(8) by simp
  obtain sn g where sn: "subnet_for (node_id 0) (zone_of node) st = (sn, st\<lparr>cs_subnetCounter := cs_subnetCounter st + 1, cs_graph := g\<rparr>)"
    "jgf_tree g (rows @ [(SubnetType, zone_of node, cs_subnetCounter st, 0)])" "jn_Id sn = node_id (Suc (length rows))"
    "nm_Name (jn_Metadata sn) = zone_of node @ itoa (sint (cs_subnetCounter st))"
    "at_path g (Suc (length rows)) [nm_Name (jn_Metadata sn)]" "at_path g 0 []"
    using assms(3-6) len by (rule subnet_for_tree)
  note compute = add_compute_tree[OF sn(2) _ _ _ assms(7) refl, of Q "avail_cpu Q node pods" "avail_mem Q node pods" sn cnt]
  have "node_step A Q skipLabel (node_id 0) cnt node st = Inr (st\<lparr>cs_subnetCounter := cs_subnetCounter st + 1,
      cs_totalAllocCpu := cs_totalAllocCpu st + avail_cpu Q node pods,
      cs_graph := add_compute Q sn cnt node (avail_cpu Q node pods) (avail_mem Q node pods) g\<rparr>)"
    using assms(1,2) sn(1)
    by (auto simp: node_step_def pods_of_def zone_of_def Let_def split: sum.splits)
  from that[OF this] show thesis
    using compute sn(3,5,6) assms(3,8) by (auto simp: node_rows_def)
qed

text \<open>
  The rows of a list of nodes: skipped nodes add none but keep their number, and every other node
  gets a subnet of its own. \<open>Inl\<close> is the error of the first listing that fails.
\<close>

fun cluster_rows ::
  "'q clusterOps \<Rightarrow> 'q quantityOps \<Rightarrow> string \<Rightarrow> nat \<Rightarrow> int64 \<Rightarrow> 'q kube_node list \<Rightarrow> vrow list \<Rightarrow> vrow list result" where
  "cluster_rows A Q skipLabel cnt sc [] rows = Inr rows"
| "cluster_rows A Q skipLabel cnt sc (node # nodes) rows =
     (if skip_node skipLabel node then cluster_rows A Q skipLabel (Suc cnt) sc nodes rows
      else
        (case pods_of A node of
           Inl e \<Rightarrow> Inl e
         | Inr pods \<Rightarrow>
            cluster_rows A Q skipLabel (Suc cnt) (sc + 1) nodes (rows @ node_rows Q (length rows) sc cnt node pods)))"

lemma cluster_rows_extend: "cluster_rows A Q skipLabel cnt sc nodes rows = Inr rows' \<Longrightarrow> prefix rows rows'"
proof (induction A Q skipLabel cnt sc nodes rows rule: cluster_rows.induct)
  case (2 A Q skipLabel cnt sc node nodes rows)
  then show ?case by (auto split: if_splits sum.splits simp: append_prefixD)
qed simp

definition plain_names :: "'q kube_node list \<Rightarrow> bool" where
  "plain_names nodes \<longleftrightarrow> (\<forall>n \<in> set nodes. CHR ''/'' \<notin> set (kn_Name n) \<and> CHR ''/'' \<notin> set (zone_of n))"

lemma nodes_loop_rows:
  assumes "cluster_rows A Q skipLabel cnt (cs_subnetCounter st) nodes rows = Inr rows'"
    and "length rows' < 2 ^ 63" "plain_names nodes" "cs_subnetLookup st = Map.empty"
    and "jgf_tree (cs_graph st) rows" "at_path (cs_graph st) 0 []"
  shows "\<exists>st'. nodes_loop A Q skipLabel (node_id 0) cnt nodes st = Inr st' \<and> jgf_tree (cs_graph st') rows'"
  using assms
proof (induction nodes arbitrary: cnt st rows)
  case (Cons node nodes)
  show ?case
  proof (cases "skip_node skipLabel node")
    case True
    then show ?thesis
      using Cons.prems by (auto simp: node_step_skip plain_names_def intro!: Cons.IH)
  next
    case False
    then obtain pods where pods: "pods_of A node = Inr pods"
      using Cons.prems(1) by (auto split: sum.splits)
    let ?rows = "rows @ node_rows Q (length rows) (cs_subnetCounter st) cnt node pods"
    from Cons.prems(1) False pods have rest:
      "cluster_rows A Q skipLabel (Suc cnt) (cs_subnetCounter st + 1) nodes ?rows = Inr rows'" by simp
    have bound: "length rows + length (node_rows Q (length rows) (cs_subnetCounter st) cnt node pods) < 2 ^ 63"
      using prefix_length_le[OF cluster_rows_extend[OF rest]] Cons.prems(2) by simp
    have plain: "CHR ''/'' \<notin> set (zone_of node)" "CHR ''/'' \<notin> set (kn_Name node)"
      using Cons.prems(3) by (simp_all add: plain_names_def)
    obtain st' where st': "node_step A Q skipLabel (node_id 0) cnt node st = Inr st'" "jgf_tree (cs_graph st') ?rows"
      "at_path (cs_graph st') 0 []" "cs_subnetLookup st' = Map.empty" "cs_subnetCounter st' = cs_subnetCounter st + 1"
      using False pods Cons.prems(4-6) plain bound by (rule node_step_rows)
    with Cons.IH[of "Suc cnt" st' ?rows] rest Cons.prems(2,3) show ?thesis by (simp add: plain_names_def)
  qed
qed simp

text \<open>A failed listing fails the loop with the same error.\<close>

lemma nodes_loop_error:
  "cluster_rows A Q skipLabel cnt sc nodes rows = Inl e \<Longrightarrow> nodes_loop A Q skipLabel cid cnt nodes st = Inl e"
proof (induction nodes arbitrary: cnt sc rows st)
  case (Cons node nodes)
  then show ?case
    by (auto simp: node_step_skip node_step_fails node_step_def pods_of_def Let_def split: if_splits sum.splits prod.splits)
qed simp

lemma node_rows_subnets: "length (filter (\<lambda>r. fst r = SubnetType) (node_rows Q b sc cnt node pods)) = 1"
  by (simp add: node_rows_def filter_empty_conv SubnetType_def NodeType_def GPUType_def CoreType_def MemoryType_def)

lemma cluster_rows_subnets:
  "cluster_rows A Q skipLabel cnt sc nodes rows = Inr rows' \<Longrightarrow>
   length (filter (\<lambda>r. fst r = SubnetType) rows') =
     length (filter (\<lambda>r. fst r = SubnetType) rows) + length (filter (\<lambda>n. \<not> skip_node skipLabel n) nodes)"
  by (induction A Q skipLabel cnt sc nodes rows rule: cluster_rows.induct)
     (auto simp: node_rows_subnets split: if_splits sum.splits)

section \<open>Available amounts\<close>

lemma sint_range64: "- (2 ^ 63) \<le> sint (a :: int64)" "sint (a :: int64) < 2 ^ 63"
  using sint_ge[of a] sint_lt[of a] by simp_all

lemma sint_diff64:
  assumes "0 \<le> sint (a :: int64)" "0 \<le> sint b"
  shows "sint (a - b) = sint a - sint b"
proof -
  have "sint (a - b) = signed_take_bit 63 (sint a - sint b)" by (simp add: sint_word_ariths)
  also have "\<dots> = sint a - sint b"
    using assms sint_range64[of a] sint_range64[of b] by (intro signed_take_bit_int_eq_self) linarith+
  finally show ?thesis .
qed

lemma sint_quot64:
  assumes "0 < sint b"
  shows "sint (quot64 a b) = sgn (sint a) * (\<bar>sint a\<bar> div sint b)"
proof -
  have "\<bar>sint a\<bar> div sint b \<le> \<bar>sint a\<bar>" "0 \<le> \<bar>sint a\<bar> div sint b"
    using assms zdiv_mono2[of "\<bar>sint a\<bar>" 1 "sint b"] by (simp_all add: pos_imp_zdiv_nonneg_iff)
  then have "fits64 (sgn (sint a) * (\<bar>sint a\<bar> div sint b))"
    using sint_range64[of a] by (auto simp: fits64_def sgn_if)
  from sint_word_of_int64[OF this] assms show ?thesis unfolding quot64_def by simp
qed

lemma loop_count_quot64: "0 < sint b \<Longrightarrow> int (loop_count (quot64 a b)) = max 0 (sint a div sint b)"
  by (cases "sint a < 0")
     (auto simp: loop_count_def sint_quot64 sgn_if max_def pos_imp_zdiv_nonneg_iff)

lemma loop_count_shift: "int (loop_count (signed_drop_bit n a)) = max 0 (sint a div 2 ^ n)"
  by (simp add: loop_count_def sint_signed_drop_bit_eq drop_bit_eq_div max_def)

context quantity
begin

lemma computeTotalRequests_amount:
  "rl_amount Q amt (computeTotalRequests Q pods) r = (\<Sum>p\<leftarrow>pods. rl_amount Q amt (podRequests Q p) r)"
  using amount_sum[of "podRequests Q" pods Map.empty r]
  by (simp add: computeTotalRequests_def PodRequestsAndLimits_def)

lemma used_amount:
  assumes "\<forall>p \<in> set pods. pod_nonneg Q amt p" "used = (\<Sum>p\<leftarrow>pods. rl_amount Q amt (podRequests Q p) r)"
  shows "amt (rl_get Q r (computeTotalRequests Q pods)) = used" "0 \<le> used"
proof -
  show "amt (rl_get Q r (computeTotalRequests Q pods)) = used"
    using computeTotalRequests_amount[of pods r] assms(2) by (simp add: rl_amount_def)
  show "0 \<le> used"
    unfolding assms(2) using assms(1) podRequests_nonneg by (intro sum_list_nonneg) (auto simp: rl_nonneg_def)
qed

lemma avail_cpu_count:
  assumes "\<forall>p \<in> set pods. pod_nonneg Q amt p"
    and "alloc = rl_amount Q amt (kn_Allocatable node) ResourceCPU" "0 \<le> alloc" "ceil_div alloc (10 ^ 6) < 2 ^ 63"
    and "used = (\<Sum>p\<leftarrow>pods. rl_amount Q amt (podRequests Q p) ResourceCPU)" "ceil_div used (10 ^ 6) < 2 ^ 63"
  shows "int (loop_count (avail_cpu Q node pods)) = max 0 ((ceil_div alloc (10 ^ 6) - ceil_div used (10 ^ 6)) div 1000)"
proof -
  note u = used_amount[OF assms(1,5)]
  have used: "sint (qo_MilliValue Q (rl_get Q ResourceCPU (computeTotalRequests Q pods))) = ceil_div used (10 ^ 6)"
    "0 \<le> ceil_div used (10 ^ 6)"
    using u assms(6) MilliValue_amt ceil_div_nonneg[of used "10 ^ 6"] by (simp_all add: fits64_def)
  have alloc: "sint (qo_MilliValue Q (rl_get Q ResourceCPU (kn_Allocatable node))) = ceil_div alloc (10 ^ 6)"
    "0 \<le> ceil_div alloc (10 ^ 6)"
    using assms(2-4) MilliValue_amt ceil_div_nonneg[of alloc "10 ^ 6"] by (simp_all add: rl_amount_def fits64_def)
  from used alloc show ?thesis by (simp add: avail_cpu_def Let_def loop_count_quot64 sint_diff64)
qed

lemma avail_mem_count:
  assumes "\<forall>p \<in> set pods. pod_nonneg Q amt p"
    and "alloc = rl_amount Q amt (kn_Allocatable node) ResourceMemory" "0 \<le> alloc" "ceil_div alloc (10 ^ 9) < 2 ^ 63"
    and "used = (\<Sum>p\<leftarrow>pods. rl_amount Q amt (podRequests Q p) ResourceMemory)" "ceil_div used (10 ^ 9) < 2 ^ 63"
  shows "int (loop_count (signed_drop_bit 30 (avail_mem Q node pods))) =
    max 0 ((ceil_div alloc (10 ^ 9) - ceil_div used (10 ^ 9)) div 2 ^ 30)"
proof -
  note u = used_amount[OF assms(1,5)]
  have used: "sint (qo_Value Q (rl_get Q ResourceMemory (computeTotalRequests Q pods))) = ceil_div used (10 ^ 9)"
    "0 \<le> ceil_div used (10 ^ 9)"
    using u assms(6) Value_amt ceil_div_nonneg[of used "10 ^ 9"] by (simp_all add: fits64_def)
  have alloc: "sint (qo_Value Q (rl_get Q ResourceMemory (kn_Allocatable node))) = ceil_div alloc (10 ^ 9)"
    "0 \<le> ceil_div alloc (10 ^ 9)"
    using assms(2-4) Value_amt ceil_div_nonneg[of alloc "10 ^ 9"] by (simp_all add: rl_amount_def fits64_def)
  from used alloc show ?thesis by (simp add: avail_mem_def Let_def loop_count_shift sint_diff64)
qed

end

lemma cluster_graph_rows:
  assumes "cl_config A = None" "cl_clientset A = None" "cl_listNodes A = Inr nodes" "plain_names nodes"
    and "cluster_rows A Q skipLabel 0 0 nodes [] = Inr rows" "length rows < 2 ^ 63"
  shows "\<exists>g. cluster_graph A Q skipLabel = Inr g \<and> jgf_tree g rows"
proof -
  obtain n g where init: "InitCluster defaultClusterName NewFluxJGF = Inr (n, g)" "jgf_tree g []" "jn_Id n = node_id 0"
    "at_path g 0 []"
    by (rule InitCluster_tree[of defaultClusterName]) (simp add: defaultClusterName_def)
  let ?st = "\<lparr>cs_graph = g, cs_subnetLookup = Map.empty, cs_subnetCounter = 0, cs_totalAllocCpu = 0\<rparr>"
  have "\<exists>st'. nodes_loop A Q skipLabel (node_id 0) 0 nodes ?st = Inr st' \<and> jgf_tree (cs_graph st') rows"
    using assms(4-6) init(2,4) by (intro nodes_loop_rows) auto
  with assms(1-3) init(1,3) show ?thesis by (auto simp: cluster_graph_def)
qed

section \<open>A small cluster\<close>

text \<open>A control plane and two nodes of one zone with two cores and two GiB each; a pod uses one core of the first.\<close>

definition ex_kube_node :: "string \<Rightarrow> labels \<Rightarrow> int kube_node" where
  "ex_kube_node n l = \<lparr>kn_Name = n, kn_Labels = Some l, kn_Unschedulable = False,
     kn_Allocatable = [ResourceCPU \<mapsto> 2000000000, ResourceMemory \<mapsto> 2147483648000000000]\<rparr>"

definition ex_api :: "int clusterOps" where
  "ex_api = \<lparr>cl_config = None, cl_clientset = None,
     cl_listNodes = Inr [ex_kube_node ''cp'' [controlPlaneLabel \<mapsto> []], ex_kube_node ''n'' [zoneLabel \<mapsto> ''z''],
                         ex_kube_node ''m'' [zoneLabel \<mapsto> ''z'']],
     cl_parseSelector = Inr,
     cl_listPods = (\<lambda>s. Inr (if s = pod_selection ''n'' then [ex_busy_pod] else []))\<rparr>"

lemma ex_amounts:
  "rl_amount nano_ops (\<lambda>q. q) (kn_Allocatable (ex_kube_node n l)) ResourceCPU = 2000000000"
  "rl_amount nano_ops (\<lambda>q. q) (kn_Allocatable (ex_kube_node n l)) ResourceMemory = 2147483648000000000"
  "rl_amount nano_ops (\<lambda>q. q) (podRequests nano_ops ex_busy_pod) ResourceCPU = 10"
  "rl_amount nano_ops (\<lambda>q. q) (podRequests nano_ops ex_busy_pod) ResourceMemory = 0"
  using nano.podRequests_amount[OF ex_busy_nonneg, of ResourceCPU] nano.podRequests_amount[OF ex_busy_nonneg, of ResourceMemory]
  by (simp_all add: pod_peak_def ex_busy_pod_def ex_need_def restartable_sum_def restartable_def containerRequests_def
      containerStatuses_def rl_amount_def rl_get_def ex_kube_node_def ResourceCPU_def ResourceMemory_def nano_ops_def)

lemma ex_used:
  "10 = (\<Sum>p\<leftarrow>[ex_busy_pod]. rl_amount nano_ops (\<lambda>q. q) (podRequests nano_ops p) ResourceCPU)"
  "0 = (\<Sum>p\<leftarrow>[ex_busy_pod]. rl_amount nano_ops (\<lambda>q. q) (podRequests nano_ops p) ResourceMemory)"
  "0 = (\<Sum>p\<leftarrow>[]. rl_amount nano_ops (\<lambda>q. q) (podRequests nano_ops p) ResourceCPU)"
  "0 = (\<Sum>p\<leftarrow>[]. rl_amount nano_ops (\<lambda>q. q) (podRequests nano_ops p) ResourceMemory)"
  by (simp_all add: ex_amounts)

lemma ex_avail:
  "loop_count (avail_cpu nano_ops (ex_kube_node n l) [ex_busy_pod]) = 1"
  "loop_count (avail_cpu nano_ops (ex_kube_node n l) []) = 2"
  "loop_count (signed_drop_bit 30 (avail_mem nano_ops (ex_kube_node n l) [ex_busy_pod])) = 2"
  "loop_count (signed_drop_bit 30 (avail_mem nano_ops (ex_kube_node n l) [])) = 2"
proof -
  have busy: "\<forall>p \<in> set [ex_busy_pod]. pod_nonneg nano_ops (\<lambda>q. q) p" using ex_busy_nonneg by simp
  have idle: "\<forall>p \<in> set []. pod_nonneg nano_ops (\<lambda>q. q) p" by simp
  show "loop_count (avail_cpu nano_ops (ex_kube_node n l) [ex_busy_pod]) = 1"
    using nano.avail_cpu_count[OF busy ex_amounts(1)[symmetric, of n l] _ _ ex_used(1)] by (simp add: ceil_div_def)
  show "loop_count (avail_cpu nano_ops (ex_kube_node n l) []) = 2"
    using nano.avail_cpu_count[OF idle ex_amounts(1)[symmetric, of n l] _ _ ex_used(3)] by (simp add: ceil_div_def)
  show "loop_count (signed_drop_bit 30 (avail_mem nano_ops (ex_kube_node n l) [ex_busy_pod])) = 2"
    using nano.avail_mem_count[OF busy ex_amounts(2)[symmetric, of n l] _ _ ex_used(2)] by (simp add: ceil_div_def)
  show "loop_count (signed_drop_bit 30 (avail_mem nano_ops (ex_kube_node n l) [])) = 2"
    using nano.avail_mem_count[OF idle ex_amounts(2)[symmetric, of n l] _ _ ex_used(4)] by (simp add: ceil_div_def)
qed

lemma ex_rows:
  "cluster_rows ex_api nano_ops [] 0 0
     [ex_kube_node ''cp'' [controlPlaneLabel \<mapsto> []], ex_kube_node ''n'' [zoneLabel \<mapsto> ''z''], ex_kube_node ''m'' [zoneLabel \<mapsto> ''z'']] [] =
   Inr [(SubnetType, ''z'', 0, 0), (NodeType, ''n'', 1, 1), (CoreType, CoreType, 0, 2),
      (MemoryType, MemoryType, 0, 2), (MemoryType, MemoryType, 1, 2),
      (SubnetType, ''z'', 1, 0), (NodeType, ''m'', 2, 6), (CoreType, CoreType, 0, 7), (CoreType, CoreType, 1, 7),
      (MemoryType, MemoryType, 0, 7), (MemoryType, MemoryType, 1, 7)]"
proof -
  have "\<not> skip_node [] (ex_kube_node n [zoneLabel \<mapsto> ''z''])" "skip_node [] (ex_kube_node n [controlPlaneLabel \<mapsto> []])"
    "zone_of (ex_kube_node n [zoneLabel \<mapsto> ''z'']) = ''z''" "gpu_count nano_ops (ex_kube_node n l) = 0"
    "pods_of ex_api (ex_kube_node ''n'' l) = Inr [ex_busy_pod]" "pods_of ex_api (ex_kube_node ''m'' l) = Inr []"
    "kn_Name (ex_kube_node n l) = n" for n l
    by (simp_all add: skip_node_def ex_kube_node_def zoneLabel_def controlPlaneLabel_def zone_of_def gpu_count_def
        NvidiaGPUResource_def ResourceCPU_def ResourceMemory_def pods_of_def ex_api_def pod_selection_def)
  then show ?thesis by (simp add: node_rows_def ex_avail upt_rec)
qed

lemma ex_cluster_graph: "\<exists>g. cluster_graph ex_api nano_ops [] = Inr g"
proof -
  have "cl_listNodes ex_api = Inr [ex_kube_node ''cp'' [controlPlaneLabel \<mapsto> []], ex_kube_node ''n'' [zoneLabel \<mapsto> ''z''],
      ex_kube_node ''m'' [zoneLabel \<mapsto> ''z'']]" "cl_config ex_api = None" "cl_clientset ex_api = None"
    by (simp_all add: ex_api_def)
  from cluster_graph_rows[OF this(2,3,1) _ ex_rows] show ?thesis
    by (auto simp: plain_names_def ex_kube_node_def zone_of_def zoneLabel_def controlPlaneLabel_def)
qed

section \<open>Properties\<close>

text \<open>C15: the graph of the cluster is a containment tree: identifiers are the positions of the vertices
  and are found in the lookup map, each vertex but the root has one parent before it, joined by a pair
  of edges, and its path is its parent's path and its name. Its rows are those of the nodes that are
  not skipped: per node its subnet, itself, its GPUs, its available cores and memory.\<close>
theorem cluster_graph_tree:
  assumes "cl_config A = None" "cl_clientset A = None" "cl_listNodes A = Inr nodes" "plain_names nodes"
    and "cluster_rows A Q skipLabel 0 0 nodes [] = Inr rows" "length rows < 2 ^ 63"
  shows "\<exists>g. cluster_graph A Q skipLabel = Inr g \<and> jgf_tree g rows"
  using assms by (rule cluster_graph_rows)

theorem cluster_graph_tree_witness:
  "\<exists>g. cluster_graph ex_api nano_ops [] = Inr g \<and>
    jgf_tree g [(SubnetType, ''z'', 0, 0), (NodeType, ''n'', 1, 1), (CoreType, CoreType, 0, 2),
      (MemoryType, MemoryType, 0, 2), (MemoryType, MemoryType, 1, 2),
      (SubnetType, ''z'', 1, 0), (NodeType, ''m'', 2, 6), (CoreType, CoreType, 0, 7), (CoreType, CoreType, 1, 7),
      (MemoryType, MemoryType, 0, 7), (MemoryType, MemoryType, 1, 7)]"
  by (rule cluster_graph_tree[OF _ _ _ _ ex_rows]) (simp_all add: ex_api_def plain_names_def ex_kube_node_def zone_of_def)

text \<open>Every node that is scheduled to gets a subnet vertex of its own, also when nodes share a zone:
  the number of subnets is the number of nodes that are not skipped.\<close>

lemma one_subnet_per_node:
  assumes "cluster_rows A Q skipLabel 0 0 nodes [] = Inr rows"
  shows "length (filter (\<lambda>r. fst r = SubnetType) rows) = length (filter (\<lambda>n. \<not> skip_node skipLabel n) nodes)"
  using cluster_rows_subnets[OF assms] by simp

text \<open>C32: a node gets one core vertex per whole core, and one memory vertex per GiB, that its allocatable
  resources leave after the requests of the pods on it, and none when the requests take more than that.\<close>
theorem vertices_are_available_resources:
  assumes "quantity Q amt" "\<forall>p \<in> set pods. pod_nonneg Q amt p"
    and "cpu = rl_amount Q amt (kn_Allocatable node) ResourceCPU" "0 \<le> cpu" "ceil_div cpu (10 ^ 6) < 2 ^ 63"
    and "usedCpu = (\<Sum>p\<leftarrow>pods. rl_amount Q amt (podRequests Q p) ResourceCPU)" "ceil_div usedCpu (10 ^ 6) < 2 ^ 63"
    and "mem = rl_amount Q amt (kn_Allocatable node) ResourceMemory" "0 \<le> mem" "ceil_div mem (10 ^ 9) < 2 ^ 63"
    and "usedMem = (\<Sum>p\<leftarrow>pods. rl_amount Q amt (podRequests Q p) ResourceMemory)" "ceil_div usedMem (10 ^ 9) < 2 ^ 63"
  shows "int (loop_count (avail_cpu Q node pods)) = max 0 ((ceil_div cpu (10 ^ 6) - ceil_div usedCpu (10 ^ 6)) div 1000) \<and>
    int (loop_count (signed_drop_bit 30 (avail_mem Q node pods))) =
      max 0 ((ceil_div mem (10 ^ 9) - ceil_div usedMem (10 ^ 9)) div 2 ^ 30)"
  using quantity.avail_cpu_count[OF assms(1-7)] quantity.avail_mem_count[OF assms(1,2,8-12)] by blast

theorem vertices_are_available_resources_witness:
  "int (loop_count (avail_cpu nano_ops (ex_kube_node ''n'' Map.empty) [ex_busy_pod])) = 1 \<and>
   int (loop_count (signed_drop_bit 30 (avail_mem nano_ops (ex_kube_node ''n'' Map.empty) [ex_busy_pod]))) = 2"
proof -
  have busy: "\<forall>p \<in> set [ex_busy_pod]. pod_nonneg nano_ops (\<lambda>q. q) p" using ex_busy_nonneg by simp
  show ?thesis
    using vertices_are_available_resources[OF nano.quantity_axioms busy ex_amounts(1)[symmetric, of "''n''" Map.empty] _ _ ex_used(1)
      _ ex_amounts(2)[symmetric, of "''n''" Map.empty] _ _ ex_used(2)]
    by (simp add: ceil_div_def)
qed

end
