(* ===== verification/Service.thy ===== *)
theory Service
  imports Cluster
begin

text \<open>
  The external gRPC service of \<open>pkg/service/service.go\<close>, over the files that
  \<open>Cluster.thy\<close> writes. The messages are those of the service's protocol definition; the
  generated stubs are in \<open>Grpc_Stubs.thy\<close>.
\<close>

section \<open>Operations\<close>

record groupResponse =
  gp_Name :: string
  gp_Size :: int64

record resourceResponse =
  rp_Graph :: string

definition GetGroup :: "string \<Rightarrow> groupResponse \<times> go_error option" where
  "GetGroup req = (\<lparr>gp_Name = [], gp_Size = 0\<rparr>, None)"

definition ListGroups :: "string \<Rightarrow> groupResponse \<times> go_error option" where
  "ListGroups req = (\<lparr>gp_Name = [], gp_Size = 0\<rparr>, None)"

text \<open>\<open>os.ReadFile\<close> fails with \<open>readErr\<close>, or because there is no such file, or returns its content.\<close>

definition GetResources :: "go_error option \<Rightarrow> (string \<rightharpoonup> string) \<Rightarrow> resourceResponse \<times> go_error option" where
  "GetResources readErr files =
     (case readErr of
        Some e \<Rightarrow> (\<lparr>rp_Graph = []\<rparr>, Some e)
      | None \<Rightarrow>
         (case files KubernetesJsonGraphFormat of
            None \<Rightarrow> (\<lparr>rp_Graph = []\<rparr>, Some (NotFound KubernetesJsonGraphFormat))
          | Some jgf \<Rightarrow> (\<lparr>rp_Graph = jgf\<rparr>, None)))"

section \<open>The graph that is served\<close>

text \<open>When \<open>InitFluxion\<close> returns without an error, Fluxion accepted exactly the encoded graph
  of the cluster, and the service returns that same graph from then on.\<close>

lemma InitFluxion_serves:
  "InitFluxion A Q create write readErr fluxion policy files = Ret (None, files') \<Longrightarrow>
    \<exists>init g b. fluxion = Some init \<and> cluster_graph A Q [] = Inr g \<and> ToBytes g = Ret b \<and> init policy b = None \<and>
      GetResources None files' = (\<lparr>rp_Graph = b\<rparr>, None)"
  by (auto simp: InitFluxion_def createInClusterJGF_def WriteJGF_def GetResources_def
      split: sum.splits option.splits go.splits prod.splits)

end
