(* ===== verification/Graph_Text.thy ===== *)
theory Graph_Text
  imports Service Worker_Job
begin

text \<open>
  The text of the resource graph. What \<open>ToBytes\<close> writes is valid JSON, and reading it with the
  decoder of the job worker (\<open>json.Unmarshal\<close> into \<open>pkg/types\<close>) gives the nodes and
  edges of the graph back: the two descriptions of the format, \<open>pkg/jgf/types.go\<close> and
  \<open>pkg/types/types.go\<close>, agree.
\<close>

section \<open>Well-formed graphs\<close>

text \<open>Strings are valid UTF-8 and maps are finite, as in every value of a Go program.\<close>

definition map_ok :: "(string \<rightharpoonup> string) \<Rightarrow> bool" where
  "map_ok m \<longleftrightarrow> finite (dom m) \<and> (\<forall>k v. m k = Some v \<longrightarrow> utf8 k \<and> utf8 v)"

definition node_ok :: "jnode \<Rightarrow> bool" where
  "node_ok n \<longleftrightarrow> utf8 (jn_Id n) \<and> utf8 (jn_Label n) \<and>
     (case jn_Metadata n of m \<Rightarrow> utf8 (nm_Type m) \<and> utf8 (nm_Basename m) \<and> utf8 (nm_Name m) \<and> utf8 (nm_Unit m) \<and>
        map_ok (nm_Paths m) \<and> map_ok (nm_Properties m))"

definition edge_ok :: "jedge \<Rightarrow> bool" where
  "edge_ok e \<longleftrightarrow> utf8 (je_Source e) \<and> utf8 (je_Relation e) \<and> utf8 (je_Target e) \<and> utf8 (je_Subsystem e)"

definition graph_ok :: "jgraph \<Rightarrow> bool" where
  "graph_ok g \<longleftrightarrow> (\<forall>n \<in> set (gr_Nodes g). node_ok n) \<and> (\<forall>e \<in> set (gr_Edges g). edge_ok e)"

section \<open>The text is JSON\<close>

lemma json_ok_omitempty [simp]:
  "(\<forall>(k, v) \<in> set (omitempty z key j). utf8 k \<and> json_ok d v) \<longleftrightarrow> z \<or> utf8 key \<and> json_ok d j"
  by (simp add: omitempty_def)

lemma json_ok_int [simp]: "json_ok d (encode_int w)"
  by (simp add: encode_int_def number_ok_itoa)

lemma json_ok_map: "map_ok m \<Longrightarrow> 0 < d \<Longrightarrow> json_ok d (encode_map m)"
  by (auto simp: encode_map_def map_ok_def)

lemma json_ok_slice: "(\<And>x. x \<in> set xs \<Longrightarrow> json_ok (d - 1) (f x)) \<Longrightarrow> 0 < d \<Longrightarrow> json_ok d (encode_slice f xs)"
  by (simp add: encode_slice_def)

lemma json_ok_node: "node_ok n \<Longrightarrow> 3 \<le> d \<Longrightarrow> json_ok d (encode_node n)"
  by (simp add: encode_node_def encode_metadata_def node_ok_def json_ok_map ball_Un)

lemma json_ok_edge: "edge_ok e \<Longrightarrow> 2 \<le> d \<Longrightarrow> json_ok d (encode_edge e)"
  by (simp add: encode_edge_def edge_ok_def ball_Un)

lemma json_ok_graph: "graph_ok g \<Longrightarrow> 5 \<le> d \<Longrightarrow> json_ok d (encode_graph g)"
  by (auto simp: encode_graph_def graph_ok_def ball_Un intro!: json_ok_slice json_ok_node json_ok_edge)

lemma json_read_ToBytes: "graph_ok (fg_Graph g) \<Longrightarrow> \<exists>b. ToBytes g = Ret b \<and> json_read b = Inr (encode_jgf g)"
  by (auto simp: ToBytes_def MarshalIndent_def encode_jgf_def json_ok_graph max_depth_def blank_def
      simp del: write_indent.simps intro!: json_read_write)

lemma json_read_ToJson: "graph_ok (fg_Graph g) \<Longrightarrow> \<exists>b. ToJson g = Inr b \<and> json_read b = Inr (encode_graph (fg_Graph g))"
  by (simp add: ToJson_def MarshalIndent_def json_read_write json_ok_graph max_depth_def blank_def ws_def)

section \<open>Decoding the text\<close>

text \<open>A vertex as the job worker sees it.\<close>

definition alloc_of :: "jnode \<Rightarrow> allocNode" where
  "alloc_of n = (let m = jn_Metadata n in
     \<lparr>an_ID = jn_Id n, an_Type = nm_Type m, an_Id = word_of_int (sint (nm_Id m)), an_Rank = word_of_int (sint (nm_Rank m)),
      an_Basename = nm_Basename m, an_Exclusive = nm_Exclusive m, an_Paths = nm_Paths m\<rparr>)"

text \<open>The index and the rank fit the 32-bit fields of the decoder.\<close>

definition fits32 :: "jnode \<Rightarrow> bool" where
  "fits32 n \<longleftrightarrow> (\<forall>i \<in> {sint (nm_Id (jn_Metadata n)), sint (nm_Rank (jn_Metadata n))}. - (2 ^ 31) \<le> i \<and> i < 2 ^ 31)"

lemma decode_members_append:
  "decode_members f (xs @ ys) x = (case decode_members f xs x of Inl e \<Rightarrow> Inl e | Inr y \<Rightarrow> decode_members f ys y)"
  by (induction xs arbitrary: x) (auto split: sum.splits)

lemma decode_encode_int:
  assumes "- (2 ^ 31) \<le> sint w" "sint w < 2 ^ 31"
  shows "decode_int32 (encode_int w) x = Inr (word_of_int (sint w))"
proof -
  have "parseInt (itoa (sint w)) 64 = (sint w, None)" using assms by (intro parseInt_itoa) simp_all
  with assms show ?thesis by (simp add: decode_int32_def encode_int_def)
qed

lemma decode_map_members:
  "decode_members (\<lambda>key j m. map_sum id (\<lambda>s. m(key \<mapsto> s)) (decode_string j [])) (map (\<lambda>k. (k, JStr (f k))) ks) m =
     Inr (m ++ (\<lambda>k. if k \<in> set ks then Some (f k) else None))"
proof (induction ks arbitrary: m)
  case (Cons k ks)
  then show ?case by (auto simp: decode_string_def map_add_def fun_eq_iff split: option.splits)
qed (simp add: map_add_def)

lemma decode_encode_map: "finite (dom m) \<Longrightarrow> decode_map (encode_map m) Map.empty = Inr m"
  by (auto simp: decode_map_def encode_map_def decode_map_members fun_eq_iff dom_def)

lemma decode_metadata:
  assumes "node_ok n" "fits32 n"
  shows "decode_struct metadata_field (encode_metadata (jn_Metadata n)) (zero_node\<lparr>an_ID := i\<rparr>) = Inr ((alloc_of n)\<lparr>an_ID := i\<rparr>)"
proof -
  let ?m = "jn_Metadata n"
  have ints: "decode_int32 (encode_int (nm_Id ?m)) x = Inr (word_of_int (sint (nm_Id ?m)))"
    "decode_int32 (encode_int (nm_Rank ?m)) x = Inr (word_of_int (sint (nm_Rank ?m)))" for x
    using assms(2) decode_encode_int by (auto simp: fits32_def)
  have paths: "decode_map (encode_map (nm_Paths ?m)) Map.empty = Inr (nm_Paths ?m)"
    using assms(1) by (simp add: node_ok_def map_ok_def decode_encode_map)
  show ?thesis
    by (simp add: encode_metadata_def decode_struct_def decode_members_append omitempty_def decode_fields ints paths
        decode_string_def decode_bool_def alloc_of_def zero_node_def Let_def)
qed

lemma decode_node:
  assumes "node_ok n" "fits32 n"
  shows "decode_struct node_field (encode_node n) zero_node = Inr (alloc_of n)"
  using decode_metadata[OF assms, of "jn_Id n"]
  by (simp add: encode_node_def decode_struct_def[of node_field] decode_members_append omitempty_def decode_fields
      decode_string_def alloc_of_def Let_def)

lemma decode_edge: "decode_struct edge_field (encode_edge e) ([], []) = Inr (je_Source e, je_Target e)"
  by (simp add: encode_edge_def decode_struct_def decode_members_append omitempty_def decode_fields decode_string_def)

lemma decode_elements_map:
  "(\<And>x. x \<in> set xs \<Longrightarrow> f (g x) zero = Inr (h x)) \<Longrightarrow> decode_elements f zero (map g xs) [] = Inr (map h xs)"
  by (induction xs) simp_all

lemma decode_encode_slice:
  "(\<And>x. x \<in> set xs \<Longrightarrow> f (g x) zero = Inr (h x)) \<Longrightarrow> decode_slice f zero (encode_slice g xs) [] = Inr (map h xs)"
  by (simp add: decode_slice_def encode_slice_def decode_elements_map)

lemma decode_graph:
  assumes "graph_ok g" "\<forall>n \<in> set (gr_Nodes g). fits32 n"
  shows "decode_struct graph_field (encode_graph g) ([], []) =
    Inr (map alloc_of (gr_Nodes g), map (\<lambda>e. (je_Source e, je_Target e)) (gr_Edges g))"
proof -
  have "decode_slice (decode_struct node_field) zero_node (encode_slice encode_node (gr_Nodes g)) [] =
      Inr (map alloc_of (gr_Nodes g))"
    using assms by (intro decode_encode_slice decode_node) (auto simp: graph_ok_def)
  moreover have "decode_slice (decode_struct edge_field) ([], []) (encode_slice encode_edge (gr_Edges g)) [] =
      Inr (map (\<lambda>e. (je_Source e, je_Target e)) (gr_Edges g))"
    by (intro decode_encode_slice decode_edge)
  ultimately show ?thesis
    by (simp add: encode_graph_def decode_struct_def[of graph_field] omitempty_def decode_fields)
qed

section \<open>The vertices of a cluster can be written\<close>

text \<open>All of a vertex but its path: strings are valid, the index fits 32 bits, and there is one path.\<close>

definition vertex_ok :: "jnode \<Rightarrow> bool" where
  "vertex_ok n \<longleftrightarrow> utf8 (jn_Id n) \<and> jn_Label n = [] \<and>
     (case jn_Metadata n of m \<Rightarrow> utf8 (nm_Type m) \<and> utf8 (nm_Basename m) \<and> utf8 (nm_Unit m) \<and>
        nm_Name m = nm_Basename m @ itoa (sint (nm_Id m)) \<and> - (2 ^ 31) \<le> sint (nm_Id m) \<and> sint (nm_Id m) < 2 ^ 31 \<and>
        nm_Rank m = - 1 \<and> nm_Properties m = Map.empty \<and> nm_Paths m = [containmentKey \<mapsto> node_path n])"

definition vertices_ok :: "fluxJGF \<Rightarrow> bool" where
  "vertices_ok g \<longleftrightarrow> (\<forall>n \<in> set (fg_Nodes g). vertex_ok n) \<and> rc_RootName (fg_Resources g) = ''cluster0''"

definition index_ok :: "int64 \<Rightarrow> bool" where
  "index_ok i \<longleftrightarrow> - (2 ^ 31) \<le> sint i \<and> sint i < 2 ^ 31"

lemma index_ok_of_nat: "k < 2 ^ 31 \<Longrightarrow> index_ok (of_nat k)"
proof -
  assume k: "k < 2 ^ 31"
  then have "int k < 2 ^ 31" by simp
  then have "sint (word_of_int (int k) :: int64) = int k" by (intro sint_word_of_int64) (simp add: fits64_def)
  with \<open>int k < 2 ^ 31\<close> show ?thesis by (simp add: index_ok_def)
qed

lemma utf8_types [simp]:
  "utf8 SubnetType" "utf8 NodeType" "utf8 GPUType" "utf8 CoreType" "utf8 MemoryType" "utf8 ClusterType" "utf8 NvidiaGPU"
  "utf8 defaultUnit" "utf8 containmentKey" "utf8 defaultClusterName"
  by (simp_all add: SubnetType_def NodeType_def GPUType_def CoreType_def MemoryType_def ClusterType_def NvidiaGPU_def
      defaultUnit_def containmentKey_def defaultClusterName_def)

lemma add_vertex_ok:
  assumes "add_vertex name ty index subpath unit sz g = (n, g')" "vertices_ok g" "utf8 name" "utf8 ty" "utf8 unit" "index_ok index"
  shows "vertices_ok g'"
proof -
  note r = add_vertex_result[OF assms(1)]
  have "jn_Label n = []" "nm_Rank (jn_Metadata n) = - 1" "nm_Properties (jn_Metadata n) = Map.empty"
    "nm_Paths (jn_Metadata n) = [containmentKey \<mapsto> node_path n]"
    using assms(1) by (auto simp: add_vertex_def makeNewNode_def getCounter_defs getContainmentPath_def node_path_def defaultRank_def)
  then have "vertex_ok n" using r(6,8-12) assms(3-6) by (simp add: vertex_ok_def index_ok_def)
  with assms(2) r(1,5) show ?thesis by (simp add: vertices_ok_def)
qed

lemma edge_vertices_ok [simp]: "vertices_ok (MakeBidirectionalEdge a b g) = vertices_ok g"
  by (simp add: vertices_ok_def)

context leaf_maker
begin

lemma add_leaves_ok:
  assumes "vertices_ok g" "index + n \<le> 2 ^ 31" "utf8 name" "utf8 ty" "utf8 unit"
  shows "vertices_ok (add_leaves mk parent index n g)"
  using assms(1,2)
proof (induction n arbitrary: index g)
  case (Suc n)
  obtain leaf g1 where leaf: "mk (of_nat index) g = (leaf, g1)" by (metis prod.collapse)
  have "vertices_ok g1"
    using add_vertex_ok[OF leaf[unfolded mk_vertex] Suc.prems(1) assms(3-5) index_ok_of_nat] Suc.prems(2) by simp
  with Suc leaf show ?case by simp
qed simp

end

lemma subnet_for_ok:
  assumes "subnet_for cid zone st = (sn, st')" "cs_subnetLookup st = Map.empty" "vertices_ok (cs_graph st)" "utf8 zone"
    and "index_ok (cs_subnetCounter st)"
  shows "vertices_ok (cs_graph st')"
proof -
  obtain n g where mk: "MakeSubnet zone (cs_subnetCounter st) (cs_graph st) = (n, g)" by (metis prod.collapse)
  with add_vertex_ok[OF mk[unfolded make_vertex] assms(3,4) _ _ assms(5)] assms(1,2) show ?thesis
    by (auto simp: subnet_for_def)
qed

lemma add_compute_ok:
  assumes "vertices_ok g" "utf8 (kn_Name node)" "cnt < 2 ^ 31"
    and "gpu_count Q node + loop_count cpu + loop_count (signed_drop_bit 30 mem) \<le> 2 ^ 31"
  shows "vertices_ok (add_compute Q sn cnt node cpu mem g)"
proof -
  let ?subnet = "nm_Name (jn_Metadata sn)"
  obtain cn g0 where cn: "MakeNode (kn_Name node) ?subnet (of_nat cnt) g = (cn, g0)" by (metis prod.collapse)
  let ?path = "?subnet @ ''/'' @ nm_Name (jn_Metadata cn)"
  let ?g1 = "MakeBidirectionalEdge (jn_Id sn) (jn_Id cn) g0"
  have "vertices_ok ?g1" using add_vertex_ok[OF cn[unfolded make_vertex] assms(1,2)] index_ok_of_nat[OF assms(3)] by simp
  then have "vertices_ok (add_leaves (MakeGPU NvidiaGPU ?path 1) (jn_Id cn) 0 (gpu_count Q node) ?g1)" (is "vertices_ok ?g2")
    using assms(4) by (intro gpu.add_leaves_ok) simp_all
  then have "vertices_ok (add_leaves (MakeCore CoreType ?path) (jn_Id cn) 0 (loop_count cpu) ?g2)" (is "vertices_ok ?g3")
    using assms(4) by (intro core.add_leaves_ok) simp_all
  then have "vertices_ok (add_leaves (MakeMemory MemoryType ?path 1024) (jn_Id cn) 0 (loop_count (signed_drop_bit 30 mem)) ?g3)"
    using assms(4) by (intro memory.add_leaves_ok) simp_all
  then show ?thesis using cn by (simp add: add_compute_def gpu_count_def Let_def split: option.splits)
qed

definition utf8_names :: "'q kube_node list \<Rightarrow> bool" where
  "utf8_names nodes \<longleftrightarrow> (\<forall>n \<in> set nodes. utf8 (kn_Name n) \<and> utf8 (zone_of n))"

lemma node_step_ok:
  assumes "\<not> skip_node skipLabel node" "pods_of A node = Inr pods" "node_step A Q skipLabel cid cnt node st = Inr st'"
    and "cs_subnetLookup st = Map.empty" "vertices_ok (cs_graph st)" "utf8 (kn_Name node)" "utf8 (zone_of node)"
    and "cnt < 2 ^ 31" "index_ok (cs_subnetCounter st)" "length (node_rows Q b sc cnt node pods) \<le> 2 ^ 31"
  shows "vertices_ok (cs_graph st') \<and> cs_subnetLookup st' = Map.empty \<and> cs_subnetCounter st' = cs_subnetCounter st + 1"
proof -
  obtain sn st1 where sn: "subnet_for cid (zone_of node) st = (sn, st1)" by (metis prod.collapse)
  note ok = subnet_for_ok[OF sn assms(4,5,7,9)]
  have "cs_subnetLookup st1 = Map.empty" "cs_subnetCounter st1 = cs_subnetCounter st + 1"
    using sn assms(4) by (auto simp: subnet_for_def split: prod.splits)
  moreover have "cs_graph st' = add_compute Q sn cnt node (avail_cpu Q node pods) (avail_mem Q node pods) (cs_graph st1)"
    "cs_subnetLookup st' = cs_subnetLookup st1" "cs_subnetCounter st' = cs_subnetCounter st1"
    using assms(1-3) sn by (auto simp: node_step_def pods_of_def zone_of_def Let_def split: sum.splits)
  moreover have "vertices_ok (add_compute Q sn cnt node (avail_cpu Q node pods) (avail_mem Q node pods) (cs_graph st1))"
    using assms(10) by (intro add_compute_ok ok assms(6,8)) (simp add: node_rows_def)
  ultimately show ?thesis by simp
qed

lemma nodes_loop_ok:
  assumes "cluster_rows A Q skipLabel cnt (cs_subnetCounter st) nodes rows = Inr rows'" "length rows' \<le> 2 ^ 31"
    and "nodes_loop A Q skipLabel cid cnt nodes st = Inr st'" "utf8_names nodes" "cs_subnetLookup st = Map.empty"
    and "vertices_ok (cs_graph st)" "cnt + length nodes \<le> 2 ^ 31" "cs_subnetCounter st = of_nat k" "k \<le> cnt"
  shows "vertices_ok (cs_graph st')"
  using assms
proof (induction nodes arbitrary: cnt st rows k)
  case (Cons node nodes)
  show ?case
  proof (cases "skip_node skipLabel node")
    case True
    then show ?thesis
      using Cons.prems by (intro Cons.IH[of "Suc cnt" st rows k]) (auto simp: node_step_skip utf8_names_def)
  next
    case False
    then obtain pods where pods: "pods_of A node = Inr pods"
      using Cons.prems(1) by (auto split: sum.splits)
    obtain st1 where st1: "node_step A Q skipLabel cid cnt node st = Inr st1"
      "nodes_loop A Q skipLabel cid (Suc cnt) nodes st1 = Inr st'"
      using Cons.prems(3) by (auto split: sum.splits)
    let ?rows = "rows @ node_rows Q (length rows) (cs_subnetCounter st) cnt node pods"
    from Cons.prems(1) False pods have rest:
      "cluster_rows A Q skipLabel (Suc cnt) (cs_subnetCounter st + 1) nodes ?rows = Inr rows'" by simp
    have "length (node_rows Q (length rows) (cs_subnetCounter st) cnt node pods) \<le> 2 ^ 31"
      using prefix_length_le[OF cluster_rows_extend[OF rest]] Cons.prems(2) by simp
    from node_step_ok[OF False pods st1(1) Cons.prems(5,6) _ _ _ _ this]
    have "vertices_ok (cs_graph st1)" "cs_subnetLookup st1 = Map.empty" "cs_subnetCounter st1 = cs_subnetCounter st + 1"
      using Cons.prems(4,7-9) index_ok_of_nat[of k] by (auto simp: utf8_names_def)
    with Cons.IH[of "Suc cnt" st1 ?rows "Suc k"] rest st1(2) Cons.prems(2,4,7-9) show ?thesis
      by (simp add: utf8_names_def)
  qed
qed simp

lemma cluster_vertices_ok:
  assumes "cluster_graph A Q skipLabel = Inr g" "cl_listNodes A = Inr nodes" "utf8_names nodes"
    and "cluster_rows A Q skipLabel 0 0 nodes [] = Inr rows" "length rows \<le> 2 ^ 31" "length nodes \<le> 2 ^ 31"
  shows "vertices_ok g"
proof -
  obtain n g0 where init: "InitCluster defaultClusterName NewFluxJGF = Inr (n, g0)"
    by (simp add: InitCluster_def NewFluxJGF_def makeNewNode_def getCounter_defs)
  then have "vertices_ok g0"
    by (auto simp: InitCluster_def NewFluxJGF_def makeNewNode_def getCounter_defs vertices_ok_def vertex_ok_def
        defaultClusterName_def ClusterType_def defaultUnit_def defaultRank_def StringElementId_def NameWithIndex_def
        getContainmentPath_def node_path_def)
  from assms(1,2) init obtain st' where "g = cs_graph st'" "nodes_loop A Q skipLabel (jn_Id n) 0 nodes
      \<lparr>cs_graph = g0, cs_subnetLookup = Map.empty, cs_subnetCounter = 0, cs_totalAllocCpu = 0\<rparr> = Inr st'" (is "nodes_loop _ _ _ _ _ _ ?st = _")
    by (cases "nodes_loop A Q skipLabel (jn_Id n) 0 nodes
      \<lparr>cs_graph = g0, cs_subnetLookup = Map.empty, cs_subnetCounter = 0, cs_totalAllocCpu = 0\<rparr>")
       (auto simp: cluster_graph_def split: option.splits)
  moreover have "cluster_rows A Q skipLabel 0 (cs_subnetCounter ?st) nodes [] = Inr rows" using assms(4) by simp
  ultimately show ?thesis
    using nodes_loop_ok[of A Q skipLabel 0 ?st nodes "[]" rows "jn_Id n" st' 0] assms(3,5,6) \<open>vertices_ok g0\<close> by simp
qed

text \<open>The paths are valid as well, and so is the whole graph.\<close>

lemma path_ok:
  assumes "jgf_tree g rows" "vertices_ok g" "i < length (fg_Nodes g)"
  shows "utf8 (node_path (fg_Nodes g ! i))"
  using assms(3)
proof (induction i rule: less_induct)
  case (less i)
  show ?case
  proof (cases i)
    case 0
    with assms(1,2) show ?thesis by (simp add: jgf_tree_def vertices_ok_def)
  next
    case (Suc j)
    obtain ty name idx par where row: "rows ! j = (ty, name, idx, par)" by (metis prod_cases4)
    have "j < length rows" using assms(1) less.prems Suc by (simp add: jgf_tree_def)
    with assms(1) row have par: "par \<le> j" "node_path (fg_Nodes g ! i) = node_path (fg_Nodes g ! par) @ ''/'' @ nm_Name (jn_Metadata (fg_Nodes g ! i))"
      by (force simp: jgf_tree_def Suc)+
    have "vertex_ok (fg_Nodes g ! i)" using assms(2) less.prems by (simp add: vertices_ok_def)
    then have "utf8 (nm_Name (jn_Metadata (fg_Nodes g ! i)))" by (simp add: vertex_ok_def utf8_append)
    moreover have "utf8 (node_path (fg_Nodes g ! par))" using less.IH[of par] par(1) less.prems Suc by simp
    ultimately show ?thesis by (simp add: par(2) utf8_append)
  qed
qed

lemma tree_graph_ok:
  assumes "jgf_tree g rows" "vertices_ok g"
  shows "graph_ok (fg_Graph g)" "\<forall>n \<in> set (fg_Nodes g). fits32 n"
proof -
  have "node_ok n \<and> fits32 n" if "n \<in> set (fg_Nodes g)" for n
  proof -
    from that obtain i where "i < length (fg_Nodes g)" "n = fg_Nodes g ! i" by (auto simp: in_set_conv_nth)
    with path_ok[OF assms] have "utf8 (node_path n)" by simp
    moreover have "vertex_ok n" using assms(2) that by (simp add: vertices_ok_def)
    ultimately show ?thesis by (auto simp: vertex_ok_def node_ok_def fits32_def map_ok_def utf8_append split: if_splits)
  qed
  moreover have "edge_ok e" if "e \<in> set (fg_Edges g)" for e
    using assms(1) that by (auto simp: jgf_tree_def cont_edge_def edge_ok_def node_id_def)
  ultimately show "graph_ok (fg_Graph g)" "\<forall>n \<in> set (fg_Nodes g). fits32 n" by (auto simp: graph_ok_def)
qed

section \<open>The node names\<close>

lemma node_rows_names: "map (\<lambda>r. fst (snd r)) (filter (\<lambda>r. fst r = NodeType) (node_rows Q b sc cnt node pods)) = [kn_Name node]"
  by (simp add: node_rows_def filter_empty_conv SubnetType_def NodeType_def GPUType_def CoreType_def MemoryType_def)

lemma cluster_rows_names:
  "cluster_rows A Q skipLabel cnt sc nodes rows = Inr rows' \<Longrightarrow>
   map (\<lambda>r. fst (snd r)) (filter (\<lambda>r. fst r = NodeType) rows') =
     map (\<lambda>r. fst (snd r)) (filter (\<lambda>r. fst r = NodeType) rows) @
     map kn_Name (filter (\<lambda>n. \<not> skip_node skipLabel n) nodes)"
  by (induction A Q skipLabel cnt sc nodes rows rule: cluster_rows.induct)
     (auto simp: node_rows_names split: if_splits sum.splits)

lemma tree_node_names:
  assumes "jgf_tree g rows"
  shows "node_names (map alloc_of (fg_Nodes g)) = map (\<lambda>r. fst (snd r)) (filter (\<lambda>r. fst r = NodeType) rows)"
proof -
  obtain root rest where nodes: "fg_Nodes g = root # rest" using assms by (cases "fg_Nodes g") (auto simp: jgf_tree_def)
  have root: "nm_Type (jn_Metadata root) = ClusterType" using assms nodes by (simp add: jgf_tree_def)
  have "map (\<lambda>n. (nm_Type (jn_Metadata n), nm_Basename (jn_Metadata n))) rest = map (\<lambda>(ty, name, _). (ty, name)) rows"
  proof (rule nth_equalityI)
    show "length (map (\<lambda>n. (nm_Type (jn_Metadata n), nm_Basename (jn_Metadata n))) rest) = length (map (\<lambda>(ty, name, _). (ty, name)) rows)"
      using assms nodes by (simp add: jgf_tree_def)
    fix i assume i: "i < length (map (\<lambda>n. (nm_Type (jn_Metadata n), nm_Basename (jn_Metadata n))) rest)"
    obtain ty name idx par where row: "rows ! i = (ty, name, idx, par)" by (metis prod_cases4)
    have "i < length rows" "row_vertex (fg_Nodes g) i (rows ! i) (fg_Nodes g ! Suc i)"
      using assms nodes i by (auto simp: jgf_tree_def)
    with row nodes i show "map (\<lambda>n. (nm_Type (jn_Metadata n), nm_Basename (jn_Metadata n))) rest ! i = map (\<lambda>(ty, name, _). (ty, name)) rows ! i"
      by simp
  qed
  then have "map snd (filter (\<lambda>x. fst x = NodeType) (map (\<lambda>n. (nm_Type (jn_Metadata n), nm_Basename (jn_Metadata n))) rest)) =
      map snd (filter (\<lambda>x. fst x = NodeType) (map (\<lambda>(ty, name, _). (ty, name)) rows))" by simp
  then show ?thesis
    by (simp add: node_names_def nodes root filter_map comp_def alloc_of_def Let_def NodeType_def ClusterType_def case_prod_beta)
qed

section \<open>Properties\<close>

text \<open>C16: writing the graph and reading it with the decoder of the job worker are inverse: for every graph
  with valid strings and 32-bit indices the text holds the same vertices (identifier, type, base name,
  index, rank, exclusiveness, paths) and the same edges.\<close>
theorem graph_text_roundtrip:
  assumes "graph_ok (fg_Graph g)" "\<forall>n \<in> set (fg_Nodes g). fits32 n"
  shows "\<exists>b. ToBytes g = Ret b \<and>
    Unmarshal b = Inr (map alloc_of (fg_Nodes g), map (\<lambda>e. (je_Source e, je_Target e)) (fg_Edges g))"
proof -
  obtain b where b: "ToBytes g = Ret b" "json_read b = Inr (encode_jgf g)" using json_read_ToBytes[OF assms(1)] by blast
  then show ?thesis using decode_graph[OF assms]
    by (simp add: Unmarshal_def encode_jgf_def decode_struct_def[of allocation_field] decode_fields)
qed

lemma ex_api_ok:
  "cl_listNodes ex_api = Inr [ex_kube_node ''cp'' [controlPlaneLabel \<mapsto> []], ex_kube_node ''n'' [zoneLabel \<mapsto> ''z''],
     ex_kube_node ''m'' [zoneLabel \<mapsto> ''z'']]"
  "cl_config ex_api = None" "cl_clientset ex_api = None"
  "plain_names [ex_kube_node ''cp'' [controlPlaneLabel \<mapsto> []], ex_kube_node ''n'' [zoneLabel \<mapsto> ''z''], ex_kube_node ''m'' [zoneLabel \<mapsto> ''z'']]"
  "utf8_names [ex_kube_node ''cp'' [controlPlaneLabel \<mapsto> []], ex_kube_node ''n'' [zoneLabel \<mapsto> ''z''], ex_kube_node ''m'' [zoneLabel \<mapsto> ''z'']]"
  by (simp_all add: ex_api_def plain_names_def utf8_names_def ex_kube_node_def zone_of_def zoneLabel_def controlPlaneLabel_def)

theorem graph_text_roundtrip_witness:
  "\<exists>g b. cluster_graph ex_api nano_ops [] = Inr g \<and> ToBytes g = Ret b \<and>
    Unmarshal b = Inr (map alloc_of (fg_Nodes g), map (\<lambda>e. (je_Source e, je_Target e)) (fg_Edges g))"
proof -
  obtain g where g: "cluster_graph ex_api nano_ops [] = Inr g" "jgf_tree g
     [(SubnetType, ''z'', 0, 0), (NodeType, ''n'', 1, 1), (CoreType, CoreType, 0, 2),
      (MemoryType, MemoryType, 0, 2), (MemoryType, MemoryType, 1, 2),
      (SubnetType, ''z'', 1, 0), (NodeType, ''m'', 2, 6), (CoreType, CoreType, 0, 7), (CoreType, CoreType, 1, 7),
      (MemoryType, MemoryType, 0, 7), (MemoryType, MemoryType, 1, 7)]"
    using cluster_graph_rows[OF ex_api_ok(2,3,1,4) ex_rows] by auto
  have "vertices_ok g" using cluster_vertices_ok[OF g(1) ex_api_ok(1,5) ex_rows] by simp
  with g graph_text_roundtrip[OF tree_graph_ok[OF g(2)]] show ?thesis by blast
qed

text \<open>C26: the job worker and the controller agree on the format: reading the written graph of a cluster as
  an allocation gives exactly the names of the nodes that are not skipped, in the order of the cluster's
  node list, each once.\<close>
theorem written_graph_lists_nodes:
  assumes "cl_config A = None" "cl_clientset A = None" "cl_listNodes A = Inr nodes" "plain_names nodes" "utf8_names nodes"
    and "cluster_rows A Q skipLabel 0 0 nodes [] = Inr rows" "length rows \<le> 2 ^ 31" "length nodes \<le> 2 ^ 31"
  shows "\<exists>g b. cluster_graph A Q skipLabel = Inr g \<and> ToBytes g = Ret b \<and>
    parseNodes b = Inr (firsts (map kn_Name (filter (\<lambda>n. \<not> skip_node skipLabel n) nodes)))"
proof -
  obtain g where g: "cluster_graph A Q skipLabel = Inr g" "jgf_tree g rows"
    using cluster_graph_rows[OF assms(1-4,6)] assms(7) by auto
  note ok = tree_graph_ok[OF g(2) cluster_vertices_ok[OF g(1) assms(3,5-8)]]
  obtain b where b: "ToBytes g = Ret b" "json_read b = Inr (encode_jgf g)" using json_read_ToBytes[OF ok(1)] by blast
  then have "Unmarshal b = Inr (map alloc_of (fg_Nodes g), map (\<lambda>e. (je_Source e, je_Target e)) (fg_Edges g))"
    using decode_graph[OF ok] by (simp add: Unmarshal_def encode_jgf_def decode_struct_def[of allocation_field] decode_fields)
  then have "parseNodes b = Inr (firsts (map kn_Name (filter (\<lambda>n. \<not> skip_node skipLabel n) nodes)))"
    using tree_node_names[OF g(2)] cluster_rows_names[OF assms(6)] by (simp add: parseNodes_def parse_nodes_loop_nodes)
  with g b show ?thesis by blast
qed

theorem written_graph_lists_nodes_witness:
  "\<exists>g b. cluster_graph ex_api nano_ops [] = Inr g \<and> ToBytes g = Ret b \<and> parseNodes b = Inr [''n'', ''m'']"
proof -
  have "map kn_Name (filter (\<lambda>n. \<not> skip_node [] n) [ex_kube_node ''cp'' [controlPlaneLabel \<mapsto> []],
      ex_kube_node ''n'' [zoneLabel \<mapsto> ''z''], ex_kube_node ''m'' [zoneLabel \<mapsto> ''z'']]) = [''n'', ''m'']"
    by (simp add: skip_node_def ex_kube_node_def zoneLabel_def controlPlaneLabel_def)
  with written_graph_lists_nodes[OF ex_api_ok(2,3,1,4,5) ex_rows] show ?thesis by simp
qed

end
