(* ===== verification/Go_Float.thy ===== *)
theory Go_Float
  imports Go_Prelude Complex_Main
begin

text \<open>
  The \<open>float64\<close> arithmetic that the sources use: conversion of an \<open>int64\<close>, division,
  \<open>math.Ceil\<close> and conversion back. A finite value is the rational number it stands for;
  operations round to 53 significant bits, ties to even. Quotients of 64-bit integers stay far from
  the limits of the exponent, so neither overflow nor subnormal numbers occur. The sign of zero is
  left out: conversion to an integer does not see it.
\<close>

section \<open>Rounding\<close>

fun ilog2 :: "nat \<Rightarrow> nat" where
  "ilog2 n = (if n < 2 then 0 else Suc (ilog2 (n div 2)))"

declare ilog2.simps [simp del]

text \<open>The exponent of the leading bit of a positive number.\<close>

definition exponent :: "rat \<Rightarrow> int" where
  "exponent x =
     (let (n, d) = quotient_of x;
          e = int (ilog2 (nat n)) - int (ilog2 (nat d))
      in if x < 2 powi e then e - 1 else e)"

definition round_even :: "rat \<Rightarrow> int" where
  "round_even m =
     (let f = \<lfloor>m\<rfloor>; r = m - of_int f
      in if r < 1 / 2 then f else if r > 1 / 2 then f + 1 else if even f then f else f + 1)"

definition round_pos :: "rat \<Rightarrow> rat" where
  "round_pos x = (let s = 2 powi (exponent x - 52) in of_int (round_even (x / s)) * s)"

definition round64 :: "rat \<Rightarrow> rat" where
  "round64 x = (if x = 0 then 0 else if x < 0 then - round_pos (- x) else round_pos x)"

section \<open>Operations\<close>

datatype float64 = Finite rat | Infinite bool | NaN

definition float_of_int64 :: "int64 \<Rightarrow> float64" where
  "float_of_int64 w = Finite (round64 (of_int (sint w)))"

text \<open>The arguments come from integers, so a zero divisor is a positive zero.\<close>

fun float_div :: "float64 \<Rightarrow> float64 \<Rightarrow> float64" where
  "float_div (Finite x) (Finite y) =
     (if y = 0 then (if x = 0 then NaN else Infinite (x < 0)) else Finite (round64 (x / y)))"
| "float_div _ _ = NaN"

fun float_ceil :: "float64 \<Rightarrow> float64" where
  "float_ceil (Finite x) = Finite (of_int \<lceil>x\<rceil>)"
| "float_ceil x = x"

text \<open>
  Conversion to \<open>int64\<close> drops the fraction; Go leaves the result open for a value that does
  not fit, which is the parameter \<open>wild\<close>.
\<close>

definition int64_of_float :: "(float64 \<Rightarrow> int64) \<Rightarrow> float64 \<Rightarrow> int64" where
  "int64_of_float wild x =
     (case x of
        Finite r \<Rightarrow>
          (let i = (if r < 0 then \<lceil>r\<rceil> else \<lfloor>r\<rfloor>)
           in if - (2 ^ 63) \<le> i \<and> i < 2 ^ 63 then word_of_int i else wild x)
      | _ \<Rightarrow> wild x)"

section \<open>Rounding is accurate\<close>

lemma ilog2_bounds: "0 < n \<Longrightarrow> 2 ^ ilog2 n \<le> n \<and> n < 2 * 2 ^ ilog2 n"
proof (induction n rule: ilog2.induct)
  case (1 n)
  show ?case
  proof (cases "n < 2")
    case True
    with "1.prems" show ?thesis by (simp add: ilog2.simps[of n])
  next
    case False
    with "1.IH" have "2 ^ ilog2 (n div 2) \<le> n div 2" "n div 2 < 2 * 2 ^ ilog2 (n div 2)" by auto
    then have "2 * 2 ^ ilog2 (n div 2) \<le> n" "n < 2 * (2 * 2 ^ ilog2 (n div 2))" by linarith+
    with False show ?thesis by (simp add: ilog2.simps[of n])
  qed
qed

text \<open>A quotient of two numbers whose binary logarithms are known.\<close>

lemma quotient_bounds:
  fixes x n d :: rat
  assumes "x * d = n" "0 < x" "2 ^ a \<le> n" "n < 2 * 2 ^ a" "2 ^ b \<le> d" "d < 2 * 2 ^ b"
  shows "x < 2 * (2 ^ a / 2 ^ b)" "2 ^ a / 2 ^ b < 2 * x"
proof -
  have "x * 2 ^ b \<le> n" using assms(1,2,5) by (metis mult_le_cancel_left_pos)
  with assms(4) show "x < 2 * (2 ^ a / 2 ^ b)" by (simp add: field_simps)
  have "n < x * (2 * 2 ^ b)" using assms(1,2,6) by (metis mult_less_cancel_left_pos)
  with assms(3) show "2 ^ a / 2 ^ b < 2 * x" by (simp add: field_simps)
qed

lemma rat_ilog2_bounds: "0 < n \<Longrightarrow> 2 ^ ilog2 (nat n) \<le> rat_of_int n \<and> rat_of_int n < 2 * 2 ^ ilog2 (nat n)"
proof -
  assume n: "0 < n"
  then have "2 ^ ilog2 (nat n) \<le> nat n \<and> nat n < 2 * 2 ^ ilog2 (nat n)" by (intro ilog2_bounds) simp
  then have "int (2 ^ ilog2 (nat n)) \<le> int (nat n)" "int (nat n) < int (2 * 2 ^ ilog2 (nat n))"
    by (simp_all only: of_nat_le_iff of_nat_less_iff)
  then have "int (2 ^ ilog2 (nat n)) \<le> n" "n < int (2 * 2 ^ ilog2 (nat n))" using n by simp_all
  then have "rat_of_int (int (2 ^ ilog2 (nat n))) \<le> of_int n" "of_int n < rat_of_int (int (2 * 2 ^ ilog2 (nat n)))"
    by (simp_all only: of_int_le_iff of_int_less_iff)
  then show ?thesis by simp
qed

lemma exponent_bounds:
  assumes "0 < x"
  shows "2 powi exponent x \<le> x" "x < 2 * 2 powi exponent x"
proof -
  obtain n d where q: "quotient_of x = (n, d)" by (cases "quotient_of x")
  have d: "0 < d" using quotient_of_denom_pos[OF q] .
  have x: "x = of_int n / of_int d" using quotient_of_div[OF q] .
  have n: "0 < n" using assms d x by (simp add: zero_less_divide_iff)
  let ?a = "ilog2 (nat n)" and ?b = "ilog2 (nat d)"
  have p: "2 powi (int ?a - int ?b) = (2 ^ ?a / 2 ^ ?b :: rat)" by (simp add: power_int_diff)
  have "x * of_int d = of_int n" using x d by simp
  then have "x < 2 * 2 powi (int ?a - int ?b)" "2 powi (int ?a - int ?b) < 2 * x"
    unfolding p using quotient_bounds[of x "of_int d" "of_int n" ?a ?b] assms rat_ilog2_bounds[OF n] rat_ilog2_bounds[OF d]
    by blast+
  moreover have "2 powi (int ?a - int ?b - 1) = (2 powi (int ?a - int ?b) / 2 :: rat)" by (simp add: power_int_diff)
  ultimately show "2 powi exponent x \<le> x" "x < 2 * 2 powi exponent x"
    by (auto simp: exponent_def q Let_def)
qed

lemma round_even_error: "\<bar>of_int (round_even m) - m\<bar> \<le> 1 / 2"
proof -
  have "of_int \<lfloor>m\<rfloor> \<le> m" "m < of_int \<lfloor>m\<rfloor> + 1" using floor_correct[of m] by simp_all
  then show ?thesis
    unfolding round_even_def Let_def abs_le_iff by (intro conjI; simp split: if_splits; linarith)
qed

lemma round_even_int [simp]: "round_even (of_int i) = i"
  by (simp add: round_even_def)

lemma round_pos_error:
  assumes "0 < x"
  shows "\<bar>round_pos x - x\<bar> \<le> x / 2 ^ 53"
proof -
  let ?s = "2 powi (exponent x - 52) :: rat"
  have s: "0 < ?s" by simp
  have "round_pos x - x = (of_int (round_even (x / ?s)) - x / ?s) * ?s"
    using s by (simp add: round_pos_def Let_def left_diff_distrib)
  then have "\<bar>round_pos x - x\<bar> = \<bar>of_int (round_even (x / ?s)) - x / ?s\<bar> * ?s" using s by (simp add: abs_mult)
  also have "\<dots> \<le> 1 / 2 * ?s" using round_even_error[of "x / ?s"] s by (intro mult_right_mono) auto
  also have "\<dots> = 2 powi exponent x / 2 ^ 53" by (simp add: power_int_diff)
  also have "\<dots> \<le> x / 2 ^ 53" using exponent_bounds(1)[OF assms] by (simp add: divide_right_mono)
  finally show ?thesis .
qed

text \<open>Integers of at most 53 bits are exact.\<close>

lemma round_pos_int:
  assumes "0 < i" "i < 2 ^ 53"
  shows "round_pos (of_int i) = of_int i"
proof -
  have "2 powi exponent (of_int i) < (2 :: rat) ^ 53"
    using exponent_bounds(1)[of "of_int i"] assms by (meson le_less_trans of_int_0_less_iff of_int_less_numeral_power_cancel_iff)
  then have "(2 :: rat) powi exponent (of_int i) < 2 powi 53" by simp
  then have "\<not> 53 \<le> exponent (of_int i)" using power_int_increasing[of 53 "exponent (of_int i)" "2 :: rat"] by auto
  then have e: "exponent (of_int i) \<le> 52" by simp
  define k where "k = nat (52 - exponent (of_int i))"
  have s: "2 powi (exponent (of_int i) - 52) = 1 / (2 :: rat) ^ k"
  proof -
    have "exponent (of_int i) - 52 = - int k" using e by (simp add: k_def)
    then show ?thesis by (simp add: power_int_minus inverse_eq_divide)
  qed
  have "of_int i / (1 / (2 :: rat) ^ k) = of_int (i * 2 ^ k)" by simp
  then have "round_even (of_int i / (1 / (2 :: rat) ^ k)) = i * 2 ^ k" by (simp only: round_even_int)
  then show ?thesis by (simp add: round_pos_def s Let_def)
qed

lemma round64_int: "\<bar>i\<bar> < 2 ^ 53 \<Longrightarrow> round64 (of_int i) = of_int i"
  using round_pos_int[of i] round_pos_int[of "- i"] by (auto simp: round64_def)

text \<open>The rounded quotient of two such integers has the ceiling of the exact one.\<close>

lemma ceiling_round_div:
  assumes "0 \<le> a" "a < 2 ^ 53" "0 < b"
  shows "\<lceil>round64 (of_int a / of_int b)\<rceil> = \<lceil>rat_of_int a / of_int b\<rceil>"
proof (cases "a = 0")
  case False
  let ?q = "rat_of_int a / of_int b" and ?c = "\<lceil>rat_of_int a / of_int b\<rceil>"
  have q: "0 < ?q" using assms False by simp
  have b: "0 < rat_of_int b" using assms(3) by simp
  have "?q / 2 ^ 53 = (rat_of_int a / 2 ^ 53) / of_int b" by simp
  also have "\<dots> < 1 / of_int b"
    using assms(2) b by (intro divide_strict_right_mono) (simp_all add: of_int_less_numeral_power_cancel_iff)
  finally have err: "\<bar>round_pos ?q - ?q\<bar> < 1 / of_int b" using round_pos_error[OF q] by linarith
  show ?thesis
  proof (cases "b dvd a")
    case True
    then obtain k where k: "a = b * k" by (elim dvdE)
    then have "?q = of_int k" using assms(3) by simp
    moreover have "0 < k" using k assms \<open>a \<noteq> 0\<close> by (simp add: zero_le_mult_iff order_less_le)
    moreover have "k < 2 ^ 53" using mult_right_mono[of 1 b k] \<open>0 < k\<close> k assms by linarith
    ultimately show ?thesis using round_pos_int[of k] by (simp add: round64_def)
  next
    case False
    define c where "c = ?c"
    have c: "of_int (c - 1) < ?q" "?q \<le> of_int c" using ceiling_correct[of ?q] unfolding c_def by simp_all
    have "rat_of_int ((c - 1) * b) < of_int a" "rat_of_int a \<le> of_int (c * b)"
      using c b by (simp_all add: field_simps)
    then have "(c - 1) * b < a" "a \<le> c * b" by (simp_all only: of_int_less_iff of_int_le_iff)
    moreover have "a \<noteq> c * b" using False by auto
    ultimately have "(c - 1) * b + 1 \<le> a" "a + 1 \<le> c * b" by linarith+
    then have "rat_of_int ((c - 1) * b + 1) \<le> of_int a" "rat_of_int (a + 1) \<le> of_int (c * b)" by (simp_all only: of_int_le_iff)
    then have "of_int (c - 1) + 1 / of_int b \<le> ?q" "?q + 1 / of_int b \<le> of_int c"
      using b by (simp_all add: pos_le_divide_eq pos_divide_le_eq distrib_right flip: add_divide_distrib)
    with err have "of_int (c - 1) < round_pos ?q" "round_pos ?q \<le> of_int c" by linarith+
    then have "\<lceil>round_pos ?q\<rceil> = c" by (simp add: ceiling_unique)
    then show ?thesis using q by (simp add: round64_def c_def)
  qed
qed (simp add: round64_def)

lemma ceiling_div: "0 < b \<Longrightarrow> \<lceil>rat_of_int a / of_int b\<rceil> = - ((- a) div b)"
  by (rule ceiling_divide_eq_div)

end
