(* ===== verification/Resource_Value.thy ===== *)
theory Resource_Value
  imports Resources Go_Float
begin

text \<open>
  The value of a resource field of a container, the second half of
  \<open>internal/controller/resources.go\<close>: \<open>ExtractContainerResourceValue\<close>, which divides a
  request or a limit by the selector's divisor in floating point and rounds up, and the predicates
  on resource names. The selector is a type of the Kubernetes libraries; the two fields that the
  source reads are here. \<open>wild\<close> is the conversion of a \<open>float64\<close> that does not fit
  \<open>int64\<close>, which Go leaves open. The theorems give the exact result for values below
  \<open>2\<^sup>5\<^sup>3\<close>, the supported names, and a value above the bound that is rounded down.
\<close>

section \<open>Resource names\<close>

definition ResourceHugePagesPrefix :: string where "ResourceHugePagesPrefix = ''hugepages-''"

definition IsHugePageResourceName :: "string \<Rightarrow> bool" where
  "IsHugePageResourceName name \<longleftrightarrow> prefix ResourceHugePagesPrefix name"

definition standardContainerResources :: "string list" where
  "standardContainerResources = [ResourceCPU, ResourceMemory, ResourceEphemeralStorage]"

definition IsStandardContainerResourceName :: "string \<Rightarrow> bool" where
  "IsStandardContainerResourceName str \<longleftrightarrow> str \<in> set standardContainerResources \<or> IsHugePageResourceName str"

section \<open>Conversions\<close>

definition ceil_quotient :: "(float64 \<Rightarrow> int64) \<Rightarrow> int64 \<Rightarrow> int64 \<Rightarrow> string" where
  "ceil_quotient wild a b =
     itoa (sint (int64_of_float wild (float_ceil (float_div (float_of_int64 a) (float_of_int64 b)))))"

definition convertResourceCPUToString :: "'q quantityOps \<Rightarrow> (float64 \<Rightarrow> int64) \<Rightarrow> 'q \<Rightarrow> 'q \<Rightarrow> string result" where
  "convertResourceCPUToString Q wild cpu divisor =
     Inr (ceil_quotient wild (qo_MilliValue Q cpu) (qo_MilliValue Q divisor))"

definition convertResourceMemoryToString :: "'q quantityOps \<Rightarrow> (float64 \<Rightarrow> int64) \<Rightarrow> 'q \<Rightarrow> 'q \<Rightarrow> string result" where
  "convertResourceMemoryToString Q wild memory divisor =
     Inr (ceil_quotient wild (qo_Value Q memory) (qo_Value Q divisor))"

definition convertResourceHugePagesToString :: "'q quantityOps \<Rightarrow> (float64 \<Rightarrow> int64) \<Rightarrow> 'q \<Rightarrow> 'q \<Rightarrow> string result" where
  "convertResourceHugePagesToString Q wild hugePages divisor =
     Inr (ceil_quotient wild (qo_Value Q hugePages) (qo_Value Q divisor))"

definition convertResourceEphemeralStorageToString ::
  "'q quantityOps \<Rightarrow> (float64 \<Rightarrow> int64) \<Rightarrow> 'q \<Rightarrow> 'q \<Rightarrow> string result" where
  "convertResourceEphemeralStorageToString Q wild ephemeralStorage divisor =
     Inr (ceil_quotient wild (qo_Value Q ephemeralStorage) (qo_Value Q divisor))"

section \<open>Extraction\<close>

record 'q resourceFieldSelector =
  fs_Resource :: string
  fs_Divisor :: 'q

text \<open>The divisor: one unit when the selector leaves it zero.\<close>

definition fs_divisor :: "'q quantityOps \<Rightarrow> 'q resourceFieldSelector \<Rightarrow> 'q go" where
  "fs_divisor Q fs =
     (if qo_Cmp Q (qo_zero Q) (fs_Divisor fs) = 0 then qo_MustParse Q ''1'' else Ret (fs_Divisor fs))"

text \<open>The part after the six fixed names: huge pages of any size, else an error.\<close>

definition dynamic_value ::
  "'q quantityOps \<Rightarrow> (float64 \<Rightarrow> int64) \<Rightarrow> string \<Rightarrow> 'q \<Rightarrow> 'q container \<Rightarrow> string result" where
  "dynamic_value Q wild res divisor c =
     (if prefix ''requests.'' res \<and> IsHugePageResourceName (drop (length ''requests.'') res)
      then convertResourceHugePagesToString Q wild (rl_get Q (drop (length ''requests.'') res) (c_Requests c)) divisor
      else if prefix ''limits.'' res \<and> IsHugePageResourceName (drop (length ''limits.'') res)
      then convertResourceHugePagesToString Q wild (rl_get Q (drop (length ''limits.'') res) (c_Limits c)) divisor
      else Inl (Errorf (''Unsupported container resource : '' @ res)))"

definition ExtractContainerResourceValue ::
  "'q quantityOps \<Rightarrow> (float64 \<Rightarrow> int64) \<Rightarrow> 'q resourceFieldSelector \<Rightarrow> 'q container \<Rightarrow> string result go" where
  "ExtractContainerResourceValue Q wild fs c =
     (case fs_divisor Q fs of
        Panic m \<Rightarrow> Panic m
      | Ret divisor \<Rightarrow>
         Ret (if fs_Resource fs = ''limits.cpu''
              then convertResourceCPUToString Q wild (rl_get Q ResourceCPU (c_Limits c)) divisor
              else if fs_Resource fs = ''limits.memory''
              then convertResourceMemoryToString Q wild (rl_get Q ResourceMemory (c_Limits c)) divisor
              else if fs_Resource fs = ''limits.ephemeral-storage''
              then convertResourceEphemeralStorageToString Q wild (rl_get Q ResourceEphemeralStorage (c_Limits c)) divisor
              else if fs_Resource fs = ''requests.cpu''
              then convertResourceCPUToString Q wild (rl_get Q ResourceCPU (c_Requests c)) divisor
              else if fs_Resource fs = ''requests.memory''
              then convertResourceMemoryToString Q wild (rl_get Q ResourceMemory (c_Requests c)) divisor
              else if fs_Resource fs = ''requests.ephemeral-storage''
              then convertResourceEphemeralStorageToString Q wild (rl_get Q ResourceEphemeralStorage (c_Requests c)) divisor
              else dynamic_value Q wild (fs_Resource fs) divisor c))"

section \<open>Specification\<close>

text \<open>
  What a supported name selects: the list and the name in it, and the unit in which the amount is
  counted, thousandths for cpu and whole units otherwise.
\<close>

definition unit_of :: "string \<Rightarrow> int" where
  "unit_of n = (if n = ResourceCPU then 10 ^ 6 else 10 ^ 9)"

definition selects :: "string \<Rightarrow> 'q container \<Rightarrow> string \<Rightarrow> 'q resource_list \<Rightarrow> bool" where
  "selects res c n l \<longleftrightarrow> IsStandardContainerResourceName n \<and>
     (res = ''requests.'' @ n \<and> l = c_Requests c \<or> res = ''limits.'' @ n \<and> l = c_Limits c)"

lemma ceil_div_pos: "0 < s \<Longrightarrow> 0 < a \<Longrightarrow> 0 < ceil_div a s"
  by (simp add: ceil_div_def pos_imp_zdiv_neg_iff)

lemma ceil_div_le: "1 \<le> b \<Longrightarrow> 0 \<le> a \<Longrightarrow> ceil_div a b \<le> a"
  using zdiv_mono2_neg[of "- a" 1 b] by (cases "a = 0") (simp_all add: ceil_div_def)

text \<open>The floating point division rounds up exactly on integers of 53 bits.\<close>

lemma ceil_quotient_exact:
  assumes "0 \<le> sint a" "sint a < 2 ^ 53" "0 < sint b" "sint b < 2 ^ 53"
  shows "ceil_quotient wild a b = itoa (ceil_div (sint a) (sint b))"
proof -
  define c where "c = ceil_div (sint a) (sint b)"
  have ceil: "\<lceil>round64 (of_int (sint a) / of_int (sint b))\<rceil> = c"
    using assms by (simp only: ceiling_round_div ceiling_div ceil_div_def c_def)
  have "0 \<le> c" "c \<le> sint a"
    unfolding c_def using assms by (simp_all add: ceil_div_nonneg ceil_div_le)
  then have fit: "- (2 ^ 63) \<le> c" "c < 2 ^ 63" "0 \<le> c" using assms(2) by simp_all
  have fl: "float_of_int64 a = Finite (of_int (sint a))" "float_of_int64 b = Finite (of_int (sint b))"
    unfolding float_of_int64_def using assms by (simp_all only: round64_int abs_of_nonneg less_imp_le)
  have "float_ceil (float_div (float_of_int64 a) (float_of_int64 b)) = Finite (of_int c)"
    unfolding fl using assms(3) ceil by (simp del: of_int_sint)
  then have "ceil_quotient wild a b = itoa (sint (word_of_int c :: int64))"
    using fit by (simp add: ceil_quotient_def int64_of_float_def Let_def)
  then show ?thesis using fit by (simp add: sint_word_of_int64 fits64_def c_def)
qed

lemma ceil_quotient_amounts:
  assumes "0 \<le> x" "0 < y" "0 < s" "ceil_div x s < 2 ^ 53" "ceil_div y s < 2 ^ 53"
    and "fits64 (ceil_div x s) \<Longrightarrow> sint a = ceil_div x s" "fits64 (ceil_div y s) \<Longrightarrow> sint b = ceil_div y s"
  shows "ceil_quotient wild a b = itoa (ceil_div (ceil_div x s) (ceil_div y s))"
proof -
  have x: "0 \<le> ceil_div x s" and y: "0 < ceil_div y s"
    using assms(1,2,3) by (simp_all add: ceil_div_nonneg ceil_div_pos)
  have "fits64 (ceil_div x s)" "fits64 (ceil_div y s)" using x y assms(4,5) by (simp_all add: fits64_def)
  with assms(6,7) have "sint a = ceil_div x s" "sint b = ceil_div y s" by blast+
  with x y assms(4,5) show ?thesis by (simp only: ceil_quotient_exact)
qed

context quantity
begin

lemma fs_divisor_amt:
  "\<exists>d. fs_divisor Q fs = Ret d \<and> amt d = (if amt (fs_Divisor fs) = 0 then 10 ^ 9 else amt (fs_Divisor fs))"
  using MustParse_one by (auto simp: fs_divisor_def Cmp_amt sgn_if split: if_splits)

lemma MilliValue_quotient:
  assumes "0 \<le> amt q" "0 < amt d" "ceil_div (amt q) (10 ^ 6) < 2 ^ 53" "ceil_div (amt d) (10 ^ 6) < 2 ^ 53"
  shows "ceil_quotient wild (qo_MilliValue Q q) (qo_MilliValue Q d) =
    itoa (ceil_div (ceil_div (amt q) (10 ^ 6)) (ceil_div (amt d) (10 ^ 6)))"
  using ceil_quotient_amounts[of "amt q" "amt d" "10 ^ 6"] assms MilliValue_amt less_imp_le by simp

lemma Value_quotient:
  assumes "0 \<le> amt q" "0 < amt d" "ceil_div (amt q) (10 ^ 9) < 2 ^ 53" "ceil_div (amt d) (10 ^ 9) < 2 ^ 53"
  shows "ceil_quotient wild (qo_Value Q q) (qo_Value Q d) =
    itoa (ceil_div (ceil_div (amt q) (10 ^ 9)) (ceil_div (amt d) (10 ^ 9)))"
  using ceil_quotient_amounts[of "amt q" "amt d" "10 ^ 9"] assms Value_amt less_imp_le by simp

lemmas quotients = MilliValue_quotient Value_quotient

end

lemmas convert_defs = convertResourceCPUToString_def convertResourceMemoryToString_def
  convertResourceHugePagesToString_def convertResourceEphemeralStorageToString_def

text \<open>The switch, over the selected entry: cpu in thousandths, every other name in whole units.\<close>

lemma Extract_selected:
  assumes "selects (fs_Resource fs) c n l" "fs_divisor Q fs = Ret d"
  shows "ExtractContainerResourceValue Q wild fs c =
    Ret (Inr (if n = ResourceCPU then ceil_quotient wild (qo_MilliValue Q (rl_get Q n l)) (qo_MilliValue Q d)
              else ceil_quotient wild (qo_Value Q (rl_get Q n l)) (qo_Value Q d)))"
proof -
  have names: "ResourceCPU = ''cpu''" "ResourceMemory = ''memory''" "ResourceEphemeralStorage = ''ephemeral-storage''"
    "ResourceHugePagesPrefix = ''hugepages-''"
    by (simp_all add: ResourceCPU_def ResourceMemory_def ResourceEphemeralStorage_def ResourceHugePagesPrefix_def)
  have n: "n = ResourceCPU \<or> n = ResourceMemory \<or> n = ResourceEphemeralStorage \<or>
      (\<exists>size. n = ResourceHugePagesPrefix @ size)"
    using assms(1)
    by (auto simp: selects_def IsStandardContainerResourceName_def standardContainerResources_def
        IsHugePageResourceName_def prefix_def)
  have res: "fs_Resource fs = ''requests.'' @ n \<and> l = c_Requests c \<or> fs_Resource fs = ''limits.'' @ n \<and> l = c_Limits c"
    using assms(1) by (simp add: selects_def)
  from n res show ?thesis
    by (elim disjE exE conjE)
      (simp_all add: ExtractContainerResourceValue_def assms(2) convert_defs dynamic_value_def
        IsHugePageResourceName_def names)
qed

lemma Extract_unselected:
  assumes "\<nexists>n l. selects (fs_Resource fs) c n l" "fs_divisor Q fs = Ret d"
  shows "ExtractContainerResourceValue Q wild fs c =
    Ret (Inl (Errorf (''Unsupported container resource : '' @ fs_Resource fs)))"
proof -
  have no: "\<not> IsStandardContainerResourceName n" if "fs_Resource fs = ''requests.'' @ n \<or> fs_Resource fs = ''limits.'' @ n" for n
    using assms(1) that by (auto simp: selects_def)
  have fixed: "fs_Resource fs \<noteq> ''requests.'' @ n" "fs_Resource fs \<noteq> ''limits.'' @ n"
    if "n \<in> set standardContainerResources" for n
    using no that by (auto simp: IsStandardContainerResourceName_def)
  have huge: "\<not> IsHugePageResourceName n" if "fs_Resource fs = ''requests.'' @ n \<or> fs_Resource fs = ''limits.'' @ n" for n
    using no[OF that] by (simp add: IsStandardContainerResourceName_def)
  have "fs_Resource fs \<noteq> ''requests.cpu''" "fs_Resource fs \<noteq> ''requests.memory''"
    "fs_Resource fs \<noteq> ''requests.ephemeral-storage''" "fs_Resource fs \<noteq> ''limits.cpu''"
    "fs_Resource fs \<noteq> ''limits.memory''" "fs_Resource fs \<noteq> ''limits.ephemeral-storage''"
    using fixed[of ResourceCPU] fixed[of ResourceMemory] fixed[of ResourceEphemeralStorage]
    by (simp_all add: standardContainerResources_def ResourceCPU_def ResourceMemory_def ResourceEphemeralStorage_def)
  moreover have "dynamic_value Q wild (fs_Resource fs) d c =
      Inl (Errorf (''Unsupported container resource : '' @ fs_Resource fs))"
    using huge by (auto simp: dynamic_value_def prefix_def)
  ultimately show ?thesis using assms(2) by (simp add: ExtractContainerResourceValue_def)
qed

section \<open>Properties\<close>

definition ex_limits :: "int container" where
  "ex_limits = \<lparr>c_Name = ''c'', c_Requests = [ResourceCPU \<mapsto> 2500000000], c_Limits = [ResourceMemory \<mapsto> (2 ^ 53 + 1) * 10 ^ 9],
     c_RestartPolicy = None\<rparr>"

lemma itoa_3: "itoa 3 = ''3''"
  using char_of_char[of "CHR ''3''"] by (simp add: itoa_def nat_dec.simps[of 3] digit_char_def)

text \<open>C31: the value of a resource field is the selected amount divided by the divisor and rounded up, in
  decimal, although the source divides in floating point: exact as long as both, in the unit in which
  the resource is counted, are below \<open>2\<^sup>5\<^sup>3\<close>. A divisor of zero counts as one.\<close>
theorem ExtractContainerResourceValue_exact:
  assumes "quantity Q amt" "selects (fs_Resource fs) c n l"
    and "0 \<le> amt (fs_Divisor fs)" "0 \<le> rl_amount Q amt l n"
    and "d = (if amt (fs_Divisor fs) = 0 then 10 ^ 9 else amt (fs_Divisor fs))"
    and "ceil_div (rl_amount Q amt l n) (unit_of n) < 2 ^ 53" "ceil_div d (unit_of n) < 2 ^ 53"
  shows "ExtractContainerResourceValue Q wild fs c =
    Ret (Inr (itoa (ceil_div (ceil_div (rl_amount Q amt l n) (unit_of n)) (ceil_div d (unit_of n)))))"
proof -
  obtain q where q: "fs_divisor Q fs = Ret q" "amt q = d"
    using quantity.fs_divisor_amt[OF assms(1), of fs] assms(5) by auto
  then have "0 < amt q" using assms(3,5) by auto
  with q assms(4,6,7) show ?thesis
    by (auto simp: Extract_selected[OF assms(2) q(1)] unit_of_def rl_amount_def
        quantity.quotients[OF assms(1)] simp del: One_nat_def split: if_splits)
qed

theorem ExtractContainerResourceValue_exact_witness:
  "ExtractContainerResourceValue nano_ops (\<lambda>_. 0) \<lparr>fs_Resource = ''requests.cpu'', fs_Divisor = 0\<rparr> ex_limits = Ret (Inr ''3'')"
  using ExtractContainerResourceValue_exact[OF nano.quantity_axioms, of "\<lparr>fs_Resource = ''requests.cpu'', fs_Divisor = 0\<rparr>"
      ex_limits ResourceCPU "c_Requests ex_limits" "10 ^ 9" "\<lambda>_. 0"]
  by (simp add: selects_def IsStandardContainerResourceName_def standardContainerResources_def ResourceCPU_def
      ex_limits_def rl_amount_def rl_get_def unit_of_def ceil_div_def itoa_3)

text \<open>A field is refused with an error exactly when its name is not \<open>requests.\<close> or
  \<open>limits.\<close> followed by a standard container resource name; no name makes the extraction
  panic.\<close>

lemma ExtractContainerResourceValue_supported:
  assumes "quantity Q amt"
  shows "if \<exists>n. IsStandardContainerResourceName n \<and> fs_Resource fs \<in> {''requests.'' @ n, ''limits.'' @ n}
    then \<exists>v. ExtractContainerResourceValue Q wild fs c = Ret (Inr v)
    else ExtractContainerResourceValue Q wild fs c = Ret (Inl (Errorf (''Unsupported container resource : '' @ fs_Resource fs)))"
proof -
  obtain d where d: "fs_divisor Q fs = Ret d" using quantity.fs_divisor_amt[OF assms, of fs] by auto
  have "(\<exists>n l. selects (fs_Resource fs) c n l) \<longleftrightarrow>
      (\<exists>n. IsStandardContainerResourceName n \<and> fs_Resource fs \<in> {''requests.'' @ n, ''limits.'' @ n})"
    unfolding selects_def by blast
  then show ?thesis using Extract_selected[OF _ d] Extract_unselected[OF _ d, of c wild] by auto
qed

text \<open>Above the bound the result may be below the value: a memory limit of \<open>2\<^sup>5\<^sup>3 + 1\<close>
  bytes, asked for in bytes, is given as \<open>2\<^sup>5\<^sup>3\<close>.\<close>

lemma round64_tie: "round64 9007199254740993 = 9007199254740992" "round64 9007199254740992 = 9007199254740992"
proof -
  have e: "exponent 9007199254740993 = 53" "exponent 9007199254740992 = 53"
    by (simp_all add: exponent_def quotient_of_number ilog2.simps)
  have "\<lfloor>rat_of_int 9007199254740993 / of_int 2\<rfloor> = 4503599627370496" by (subst floor_divide_of_int_eq) simp
  then have "round_even (9007199254740993 / 2) = 4503599627370496" by (simp add: round_even_def)
  moreover have "round_even (9007199254740992 / 2) = 4503599627370496" using round_even_int[of 4503599627370496] by simp
  ultimately show "round64 9007199254740993 = 9007199254740992" "round64 9007199254740992 = 9007199254740992"
    by (simp_all add: round64_def round_pos_def e)
qed

lemma large_value_rounded_down:
  "ExtractContainerResourceValue nano_ops wild \<lparr>fs_Resource = ''limits.memory'', fs_Divisor = 0\<rparr> ex_limits =
     Ret (Inr (itoa (2 ^ 53)))"
proof -
  have "sint (word_of_int (2 ^ 53 + 1) :: int64) = 2 ^ 53 + 1" by (rule sint_word_of_int64) (simp add: fits64_def)
  then show ?thesis
    using round64_tie round64_int[of 1]
    by (simp add: ExtractContainerResourceValue_def fs_divisor_def nano_ops_def convert_defs ceil_quotient_def ex_limits_def
        rl_get_def ceil_div_def float_of_int64_def int64_of_float_def ResourceMemory_def)
qed

end
