(* ===== verification/Deep_Memory.thy ===== *)
theory Deep_Memory
  imports Flux_Types
begin

text \<open>
  Memory for the generated copy functions of \<open>api/v1alpha1\<close>: typed stores of arrays, Go
  slices and pointers into them, \<open>make\<close>, \<open>copy\<close> and \<open>new\<close>. The locales state the
  contract of a deep copy once: \<open>memory\<close> is a heap with the locations it has allocated and
  agreement of two heaps on a set of locations; \<open>deep_copier\<close> is a function that copies a
  value into fresh locations; \<open>cell_copier\<close> lifts it to pointers, which is what every generated
  \<open>DeepCopy\<close> does. No file under \<open>src/\<close> is modelled here.
\<close>

section \<open>Slices and pointers\<close>

record slice =
  sl_array :: nat
  sl_off :: nat
  sl_len :: nat

type_synonym 'a store = "'a list list"
type_synonym pointer = "nat \<times> nat"

definition slice_ok :: "'a store \<Rightarrow> slice \<Rightarrow> bool" where
  "slice_ok st s \<longleftrightarrow> sl_array s < length st \<and> sl_off s + sl_len s \<le> length (st ! sl_array s)"

definition slice_read :: "'a store \<Rightarrow> slice \<Rightarrow> 'a list" where
  "slice_read st s = take (sl_len s) (drop (sl_off s) (st ! sl_array s))"

text \<open>\<open>make([]T, n)\<close> allocates a zeroed array; \<open>copy(dst, src)\<close> moves as many elements as both have.\<close>

definition go_make :: "'a \<Rightarrow> nat \<Rightarrow> 'a store \<Rightarrow> slice \<times> 'a store" where
  "go_make zero n st = (\<lparr>sl_array = length st, sl_off = 0, sl_len = n\<rparr>, st @ [replicate n zero])"

definition go_copy :: "slice \<Rightarrow> slice \<Rightarrow> 'a store \<Rightarrow> 'a store" where
  "go_copy dst src st =
     (let n = min (sl_len dst) (sl_len src); arr = st ! sl_array dst
      in st[sl_array dst := take (sl_off dst) arr @ take n (slice_read st src) @ drop (sl_off dst + n) arr])"

definition ptr_ok :: "'a store \<Rightarrow> pointer \<Rightarrow> bool" where
  "ptr_ok st p \<longleftrightarrow> fst p < length st \<and> snd p < length (st ! fst p)"

definition deref :: "'a store \<Rightarrow> pointer \<Rightarrow> 'a" where
  "deref st p = st ! fst p ! snd p"

definition assign :: "pointer \<Rightarrow> 'a \<Rightarrow> 'a store \<Rightarrow> 'a store" where
  "assign p v st = st[fst p := (st ! fst p)[snd p := v]]"

text \<open>\<open>new(T)\<close>: an array of one zero element.\<close>

definition new :: "'a \<Rightarrow> 'a store \<Rightarrow> pointer \<times> 'a store" where
  "new zero st = ((length st, 0), st @ [[zero]])"

text \<open>Two stores with the same arrays at a set of addresses of the first.\<close>

definition same :: "'a store \<Rightarrow> 'a store \<Rightarrow> nat set \<Rightarrow> bool" where
  "same xs ys A \<longleftrightarrow> (\<forall>a\<in>A. a < length xs \<longrightarrow> a < length ys \<and> ys ! a = xs ! a)"

lemma same_refl [simp]: "same xs xs A"
  by (simp add: same_def)

lemma same_mono: "same xs ys A \<Longrightarrow> B \<subseteq> A \<Longrightarrow> same xs ys B"
  unfolding same_def by blast

lemma same_trans: "same xs ys A \<Longrightarrow> same ys zs A \<Longrightarrow> same xs zs A"
  unfolding same_def by auto

lemma same_length: "same xs ys {a. a < length xs} \<Longrightarrow> length xs \<le> length ys"
  unfolding same_def by (cases "length xs") auto

lemma same_append [simp]: "same xs (xs @ ys) A"
  by (simp add: same_def nth_append)

lemma same_update: "a \<notin> A \<Longrightarrow> same xs (xs[a := v]) A"
  unfolding same_def by (metis length_list_update nth_list_update_neq)

lemma same_slice:
  assumes "same xs ys A" "sl_array s \<in> A" "slice_ok xs s"
  shows "slice_ok ys s \<and> slice_read ys s = slice_read xs s"
  using assms unfolding same_def slice_ok_def slice_read_def by auto

lemma slice_read_length: "slice_ok st s \<Longrightarrow> length (slice_read st s) = sl_len s"
  by (auto simp: slice_ok_def slice_read_def)

lemma same_alloc_slice:
  "same xs ys {a. a < length xs} \<Longrightarrow> slice_ok xs s \<Longrightarrow> slice_ok ys s \<and> slice_read ys s = slice_read xs s"
  by (rule same_slice) (auto simp: slice_ok_def)

text \<open>The generated pattern for a slice: \<open>*out = make(...)\<close>, \<open>copy(*out, *in)\<close>.\<close>

definition clone :: "'a \<Rightarrow> slice \<Rightarrow> 'a store \<Rightarrow> slice \<times> 'a store" where
  "clone zero s st = (let (out, st') = go_make zero (sl_len s) st in (out, go_copy out s st'))"

lemma clone_correct:
  assumes "slice_ok st s" "clone zero s st = (s', st')"
  shows "sl_array s' = length st" "slice_ok st' s'" "slice_read st' s' = slice_read st s" "length st' = Suc (length st)"
    "same st st' A"
  using assms by (auto simp: clone_def go_make_def go_copy_def slice_ok_def slice_read_def same_def nth_append Let_def)

section \<open>The contract of a deep copy\<close>

locale memory =
  fixes alloc :: "'h \<Rightarrow> 'r set" and agree :: "'h \<Rightarrow> 'h \<Rightarrow> 'r set \<Rightarrow> bool"
  assumes agree_refl [simp]: "agree h h R"
    and agree_mono: "agree h h' R \<Longrightarrow> S \<subseteq> R \<Longrightarrow> agree h h' S"
    and agree_trans: "agree h h' R \<Longrightarrow> agree h' h'' R \<Longrightarrow> agree h h'' R"
    and agree_alloc: "agree h h' (alloc h) \<Longrightarrow> alloc h \<subseteq> alloc h'"

text \<open>
  A value \<open>a\<close> of a heap owns the locations it refers to; what it stands for, \<open>val\<close>,
  depends on those alone. A copy allocates: it changes nothing that was there before, and its result
  stands for the same and owns only new locations.
\<close>

locale deep_copier = memory alloc agree
  for alloc :: "'h \<Rightarrow> 'r set" and agree :: "'h \<Rightarrow> 'h \<Rightarrow> 'r set \<Rightarrow> bool" +
  fixes copy :: "'a \<Rightarrow> 'h \<Rightarrow> 'a \<times> 'h" and ok :: "'h \<Rightarrow> 'a \<Rightarrow> bool"
    and val :: "'h \<Rightarrow> 'a \<Rightarrow> 'v" and own :: "'h \<Rightarrow> 'a \<Rightarrow> 'r set"
  assumes own_alloc: "ok h a \<Longrightarrow> own h a \<subseteq> alloc h"
    and read_agree: "ok h a \<Longrightarrow> agree h h' (own h a) \<Longrightarrow> ok h' a \<and> val h' a = val h a \<and> own h' a = own h a"
    and copy_frame: "ok h a \<Longrightarrow> copy a h = (a', h') \<Longrightarrow> agree h h' (alloc h)"
    and copy_val: "ok h a \<Longrightarrow> copy a h = (a', h') \<Longrightarrow> ok h' a' \<and> val h' a' = val h a"
    and copy_fresh: "ok h a \<Longrightarrow> copy a h = (a', h') \<Longrightarrow> own h' a' \<inter> alloc h = {}"
begin

lemma copy_keeps:
  assumes "ok h a" "copy a h = (a', h')" "ok h b"
  shows "ok h' b" "val h' b = val h b" "own h' b = own h b"
  using read_agree[OF assms(3)] agree_mono[OF copy_frame[OF assms(1,2)] own_alloc[OF assms(3)]] by blast+

lemma copy_alloc: "ok h a \<Longrightarrow> copy a h = (a', h') \<Longrightarrow> alloc h \<subseteq> alloc h'"
  using copy_frame agree_alloc by blast

text \<open>After a copy, no change confined to what the one owns is seen through the other.\<close>

lemma copy_independent:
  assumes "ok h a" "copy a h = (a', h')"
  shows "agree h' h'' (- own h' a') \<Longrightarrow> ok h'' a \<and> val h'' a = val h a"
    and "agree h' h'' (- own h a) \<Longrightarrow> ok h'' a' \<and> val h'' a' = val h a"
proof -
  have disj: "own h' a' \<inter> own h a = {}" using copy_fresh[OF assms] own_alloc[OF assms(1)] by blast
  show "ok h'' a \<and> val h'' a = val h a" if "agree h' h'' (- own h' a')"
    using copy_keeps[OF assms assms(1)] read_agree[of h' a h''] agree_mono[OF that, of "own h a"] disj by auto
  show "ok h'' a' \<and> val h'' a' = val h a" if "agree h' h'' (- own h a)"
    using copy_val[OF assms] read_agree[of h' a' h''] agree_mono[OF that, of "own h' a'"] disj by auto
qed

lemma copy_separate:
  assumes "ok h a" "copy a h = (a', h')"
  shows "val h' a' = val h a \<and> own h' a' \<inter> alloc h = {} \<and> agree h h' (alloc h) \<and>
    (\<forall>h''. agree h' h'' (- own h' a') \<longrightarrow> val h'' a = val h a) \<and>
    (\<forall>h''. agree h' h'' (- own h a) \<longrightarrow> val h'' a' = val h a)"
  using copy_val[OF assms] copy_fresh[OF assms] copy_frame[OF assms] copy_independent[OF assms] by blast

end

section \<open>Copies through pointers\<close>

text \<open>
  The generated \<open>DeepCopy\<close>: nil for nil, else \<open>new\<close> and \<open>DeepCopyInto\<close>. The store
  of the type is read with \<open>get\<close> and changed with \<open>upd\<close>; \<open>copy\<close> gives the value
  that \<open>DeepCopyInto\<close> leaves in \<open>*out\<close>, which it overwrites first.
\<close>

definition deep_copy_ptr ::
  "('h \<Rightarrow> 'a store) \<Rightarrow> (('a store \<Rightarrow> 'a store) \<Rightarrow> 'h \<Rightarrow> 'h) \<Rightarrow> 'a \<Rightarrow> ('a \<Rightarrow> 'h \<Rightarrow> 'a \<times> 'h) \<Rightarrow>
    pointer option \<Rightarrow> 'h \<Rightarrow> pointer option \<times> 'h" where
  "deep_copy_ptr get upd zero copy src h =
     (case src of
        None \<Rightarrow> (None, h)
      | Some p \<Rightarrow>
         (let (out, st) = new zero (get h);
              h1 = upd (\<lambda>_. st) h;
              (v, h2) = copy (deref (get h1) p) h1
          in (Some out, upd (assign out v) h2)))"

definition pok :: "('h \<Rightarrow> 'a store) \<Rightarrow> ('h \<Rightarrow> 'a \<Rightarrow> bool) \<Rightarrow> 'h \<Rightarrow> pointer option \<Rightarrow> bool" where
  "pok get ok h p = (case p of None \<Rightarrow> True | Some q \<Rightarrow> ptr_ok (get h) q \<and> ok h (deref (get h) q))"

definition pval :: "('h \<Rightarrow> 'a store) \<Rightarrow> ('h \<Rightarrow> 'a \<Rightarrow> 'v) \<Rightarrow> 'h \<Rightarrow> pointer option \<Rightarrow> 'v option" where
  "pval get val h p = map_option (\<lambda>q. val h (deref (get h) q)) p"

definition pown :: "('h \<Rightarrow> 'a store) \<Rightarrow> (nat \<Rightarrow> 'r) \<Rightarrow> ('h \<Rightarrow> 'a \<Rightarrow> 'r set) \<Rightarrow> 'h \<Rightarrow> pointer option \<Rightarrow> 'r set" where
  "pown get tag own h p = (case p of None \<Rightarrow> {} | Some q \<Rightarrow> insert (tag (fst q)) (own h (deref (get h) q)))"

lemma same_deref:
  assumes "same xs ys A" "fst p \<in> A" "ptr_ok xs p"
  shows "ptr_ok ys p" "deref ys p = deref xs p"
  using assms unfolding same_def ptr_ok_def deref_def by auto

locale cell_copier = deep_copier alloc agree copy ok val own
  for alloc :: "'h \<Rightarrow> 'r set" and agree copy and ok :: "'h \<Rightarrow> 'a \<Rightarrow> bool" and val :: "'h \<Rightarrow> 'a \<Rightarrow> 'v" and own +
  fixes get :: "'h \<Rightarrow> 'a store" and upd :: "('a store \<Rightarrow> 'a store) \<Rightarrow> 'h \<Rightarrow> 'h" and tag :: "nat \<Rightarrow> 'r" and zero :: 'a
  assumes get_upd [simp]: "get (upd f h) = f (get h)"
    and tag_inject [simp]: "tag a = tag b \<longleftrightarrow> a = b"
    and agree_upd: "same (get h) (f (get h)) {a. tag a \<in> R} \<Longrightarrow> agree h (upd f h) R"
    and agree_get: "agree h h' R \<Longrightarrow> same (get h) (get h') {a. tag a \<in> R}"
    and alloc_tag: "tag a \<in> alloc h \<longleftrightarrow> a < length (get h)"
    and own_no_cell: "ok h x \<Longrightarrow> tag a \<notin> own h x"
begin

abbreviation copy_ptr where "copy_ptr \<equiv> deep_copy_ptr get upd zero copy"

lemma ptr_read:
  assumes "ptr_ok (get h) p" "ok h (deref (get h) p)" "agree h h' (insert (tag (fst p)) (own h (deref (get h) p)))"
  shows "ptr_ok (get h') p" "deref (get h') p = deref (get h) p" "ok h' (deref (get h) p)"
    "val h' (deref (get h) p) = val h (deref (get h) p)" "own h' (deref (get h) p) = own h (deref (get h) p)"
  using same_deref[OF agree_get[OF assms(3)] _ assms(1)] read_agree[OF assms(2) agree_mono[OF assms(3)]] by auto

text \<open>The four heaps of a copy: before, with the new cell, with the copied value, with the cell assigned.\<close>

lemma copy_ptr_steps:
  assumes "ptr_ok (get h) p" "ok h (deref (get h) p)" "copy_ptr (Some p) h = (q, h')"
  obtains v h1 h2 where "q = Some (length (get h), 0)" "agree h h1 UNIV" "get h1 = get h @ [[zero]]"
    "deref (get h1) p = deref (get h) p" "copy (deref (get h) p) h1 = (v, h2)" "ok h1 (deref (get h) p)"
    "val h1 (deref (get h) p) = val h (deref (get h) p)" "h' = upd (assign (length (get h), 0) v) h2"
proof -
  define h1 where "h1 = upd (\<lambda>_. get h @ [[zero]]) h"
  obtain v h2 where c: "copy (deref (get h1) p) h1 = (v, h2)" by (cases "copy (deref (get h1) p) h1")
  have agree: "agree h h1 UNIV" unfolding h1_def by (rule agree_upd) simp
  note rd = ptr_read[OF assms(1,2) agree_mono[OF agree]]
  show thesis
    using that[of h1 v h2] assms(3) c agree rd
    by (simp add: deep_copy_ptr_def new_def h1_def)
qed

lemma assign_correct:
  assumes "ok h v" "(a, i) = q" "ptr_ok (get h) q"
  shows "agree h (upd (assign q v) h) (- {tag a})" "ok (upd (assign q v) h) v" "val (upd (assign q v) h) v = val h v"
    "own (upd (assign q v) h) v = own h v" "deref (get (upd (assign q v) h)) q = v" "ptr_ok (get (upd (assign q v) h)) q"
proof -
  show ag: "agree h (upd (assign q v) h) (- {tag a})"
    by (rule agree_upd) (use assms(2) in \<open>auto simp: assign_def intro!: same_update\<close>)
  show "ok (upd (assign q v) h) v" "val (upd (assign q v) h) v = val h v" "own (upd (assign q v) h) v = own h v"
    using read_agree[OF assms(1) agree_mono[OF ag]] own_no_cell[OF assms(1)] by blast+
  show "deref (get (upd (assign q v) h)) q = v" "ptr_ok (get (upd (assign q v) h)) q"
    using assms(3) by (auto simp: deref_def assign_def ptr_ok_def)
qed

lemma copy_ptr_correct:
  assumes "ptr_ok (get h) p" "ok h (deref (get h) p)" "copy_ptr (Some p) h = (q, h')"
  shows "\<exists>q'. q = Some q' \<and> agree h h' (alloc h) \<and> ptr_ok (get h') q' \<and> ok h' (deref (get h') q') \<and>
    val h' (deref (get h') q') = val h (deref (get h) p) \<and>
    insert (tag (fst q')) (own h' (deref (get h') q')) \<inter> alloc h = {}"
proof -
  from copy_ptr_steps[OF assms] obtain v h1 h2 where st:
    "q = Some (length (get h), 0)" "agree h h1 UNIV" "get h1 = get h @ [[zero]]"
    "copy (deref (get h) p) h1 = (v, h2)" "ok h1 (deref (get h) p)"
    "val h1 (deref (get h) p) = val h (deref (get h) p)" "h' = upd (assign (length (get h), 0) v) h2"
    by metis
  let ?q = "(length (get h), 0) :: pointer"
  have a01: "alloc h \<subseteq> alloc h1" using agree_alloc[OF agree_mono[OF st(2)]] by simp
  have f12: "agree h1 h2 (alloc h1)" using copy_frame[OF st(5,4)] .
  have "ptr_ok (get h1) ?q" by (simp add: ptr_ok_def st(3))
  then have q2: "ptr_ok (get h2) ?q" using same_deref(1)[OF agree_get[OF f12], of ?q] by (simp add: alloc_tag st(3))
  have new: "tag (length (get h)) \<notin> alloc h" by (simp add: alloc_tag)
  note v = copy_val[OF st(5,4)]
  note asg = assign_correct[OF conjunct1[OF v] refl q2, folded st(7)]
  have "agree h h2 (alloc h)" using agree_trans[OF agree_mono[OF st(2)] agree_mono[OF f12 a01]] by simp
  moreover have "agree h2 h' (alloc h)" using agree_mono[OF asg(1)] new by auto
  ultimately have "agree h h' (alloc h)" by (rule agree_trans)
  moreover have "own h' v \<inter> alloc h = {}" using copy_fresh[OF st(5,4)] a01 asg(4) by auto
  ultimately show ?thesis using st(1,6) v asg new by auto
qed

end

sublocale cell_copier \<subseteq> ptr: deep_copier alloc agree "deep_copy_ptr get upd zero copy" "pok get ok" "pval get val" "pown get tag own"
proof
  fix h p
  assume ok: "pok get ok h p"
  show "pown get tag own h p \<subseteq> alloc h"
    using ok own_alloc by (fastforce simp: pok_def pown_def ptr_ok_def alloc_tag split: option.splits)
  show "pok get ok h' p \<and> pval get val h' p = pval get val h p \<and> pown get tag own h' p = pown get tag own h p"
    if "agree h h' (pown get tag own h p)" for h'
    using ok that ptr_read[of h _ h'] by (cases p) (auto simp: pok_def pval_def pown_def)
  fix q h'
  assume c: "deep_copy_ptr get upd zero copy p h = (q, h')"
  have all: "agree h h' (alloc h) \<and> (pok get ok h' q \<and> pval get val h' q = pval get val h p) \<and> pown get tag own h' q \<inter> alloc h = {}"
  proof (cases p)
    case None
    with c show ?thesis by (simp add: deep_copy_ptr_def pok_def pval_def pown_def)
  next
    case (Some x)
    with ok c copy_ptr_correct[of h x q h'] show ?thesis by (auto simp: pok_def pval_def pown_def)
  qed
  then show "agree h h' (alloc h)" "pok get ok h' q \<and> pval get val h' q = pval get val h p"
    "pown get tag own h' q \<inter> alloc h = {}" by blast+
qed

end
