(* ===== verification/Deep_Copy.thy ===== *)
theory Deep_Copy
  imports Deep_Memory
begin

text \<open>
  The copy functions that controller-gen wrote for the custom resource,
  \<open>api/v1alpha1/zz_generated.deepcopy.go\<close>, over an explicit heap: the structs of
  \<open>fluxjob_types.go\<close> with their slices as references, so that sharing between a copy and its
  original is visible. \<open>metav1.ObjectMeta\<close> and \<open>metav1.ListMeta\<close> with their own
  \<open>DeepCopyInto\<close> are types of the Kubernetes libraries: parameters, under the contract
  \<open>deep_copier\<close>. Every function of the file is shown to meet the same contract: the result
  stands for the same object, shares no memory with it, and nothing that was there has changed.
\<close>

section \<open>Structs\<close>

record resourcesStruct =
  rs_Nodes :: "slice option"

record specStruct =
  ss_JobSpec :: string
  ss_Type :: jobWrapped
  ss_Name :: string
  ss_Object :: "slice option"
  ss_Duration :: int32
  ss_Reservation :: bool
  ss_Nodes :: int32
  ss_Resources :: resourcesStruct

record statusStruct =
  st_SubmitStatus :: submitStatus

record typeMeta =
  tm_Kind :: string
  tm_APIVersion :: string

record 'm jobStruct =
  js_TypeMeta :: typeMeta
  js_ObjectMeta :: 'm
  js_Spec :: specStruct
  js_Status :: statusStruct

record 'l listStruct =
  ls_TypeMeta :: typeMeta
  ls_ListMeta :: 'l
  ls_Items :: "slice option"

text \<open>The zero values that \<open>new\<close> and \<open>make\<close> give.\<close>

definition zero_Resources :: resourcesStruct where "zero_Resources = \<lparr>rs_Nodes = None\<rparr>"

definition zero_Spec :: specStruct where
  "zero_Spec = \<lparr>ss_JobSpec = [], ss_Type = 0, ss_Name = [], ss_Object = None, ss_Duration = 0, ss_Reservation = False,
     ss_Nodes = 0, ss_Resources = zero_Resources\<rparr>"

definition zero_Status :: statusStruct where "zero_Status = \<lparr>st_SubmitStatus = []\<rparr>"

definition zero_TypeMeta :: typeMeta where "zero_TypeMeta = \<lparr>tm_Kind = [], tm_APIVersion = []\<rparr>"

section \<open>The heap\<close>

text \<open>One store per element type; \<open>h_meta\<close> is the memory of the library's metadata types.\<close>

record ('m, 'l, 'x) heap =
  h_bytes :: "char store"
  h_strings :: "string store"
  h_jobs :: "'m jobStruct store"
  h_lists :: "'l listStruct store"
  h_specs :: "specStruct store"
  h_statuses :: "statusStruct store"
  h_resources :: "resourcesStruct store"
  h_meta :: 'x

record ('m, 'l, 'x) metaOps =
  mo_ObjectMeta :: "'m \<Rightarrow> 'x \<Rightarrow> 'm \<times> 'x"
  mo_ListMeta :: "'l \<Rightarrow> 'x \<Rightarrow> 'l \<times> 'x"
  mo_zeroObjectMeta :: 'm
  mo_zeroListMeta :: 'l

section \<open>DeepCopyInto\<close>

text \<open>
  Each function starts with \<open>*out = *in\<close>, so the old value of \<open>*out\<close> does not matter: the
  result is the value it leaves there, with the heap.
\<close>

definition Resources_DeepCopyInto ::
  "resourcesStruct \<Rightarrow> ('m, 'l, 'x) heap \<Rightarrow> resourcesStruct \<times> ('m, 'l, 'x) heap" where
  "Resources_DeepCopyInto r h =
     (case rs_Nodes r of
        None \<Rightarrow> (r, h)
      | Some s \<Rightarrow>
         (let (out, st) = clone [] s (h_strings h)
          in (r\<lparr>rs_Nodes := Some out\<rparr>, h\<lparr>h_strings := st\<rparr>)))"

definition FluxJobSpec_DeepCopyInto ::
  "specStruct \<Rightarrow> ('m, 'l, 'x) heap \<Rightarrow> specStruct \<times> ('m, 'l, 'x) heap" where
  "FluxJobSpec_DeepCopyInto sp h =
     (let (out, h1) =
            (case ss_Object sp of
               None \<Rightarrow> (sp, h)
             | Some s \<Rightarrow>
                (let (obj, st) = clone (CHR 0x00) s (h_bytes h)
                 in (sp\<lparr>ss_Object := Some obj\<rparr>, h\<lparr>h_bytes := st\<rparr>)));
          (res, h2) = Resources_DeepCopyInto (ss_Resources sp) h1
      in (out\<lparr>ss_Resources := res\<rparr>, h2))"

definition FluxJobStatus_DeepCopyInto ::
  "statusStruct \<Rightarrow> ('m, 'l, 'x) heap \<Rightarrow> statusStruct \<times> ('m, 'l, 'x) heap" where
  "FluxJobStatus_DeepCopyInto s h = (s, h)"

definition FluxJob_DeepCopyInto ::
  "('m, 'l, 'x) metaOps \<Rightarrow> 'm jobStruct \<Rightarrow> ('m, 'l, 'x) heap \<Rightarrow> 'm jobStruct \<times> ('m, 'l, 'x) heap" where
  "FluxJob_DeepCopyInto ops j h =
     (let (om, x) = mo_ObjectMeta ops (js_ObjectMeta j) (h_meta h);
          (sp, h1) = FluxJobSpec_DeepCopyInto (js_Spec j) (h\<lparr>h_meta := x\<rparr>)
      in (j\<lparr>js_TypeMeta := js_TypeMeta j, js_ObjectMeta := om, js_Spec := sp, js_Status := js_Status j\<rparr>, h1))"

text \<open>The loop over \<open>Items\<close>: element \<open>i\<close> of the old slice is copied into element \<open>i\<close> of the new one.\<close>

definition zero_FluxJob :: "('m, 'l, 'x) metaOps \<Rightarrow> 'm jobStruct" where
  "zero_FluxJob ops = \<lparr>js_TypeMeta = zero_TypeMeta, js_ObjectMeta = mo_zeroObjectMeta ops, js_Spec = zero_Spec, js_Status = zero_Status\<rparr>"

definition zero_FluxJobList :: "('m, 'l, 'x) metaOps \<Rightarrow> 'l listStruct" where
  "zero_FluxJobList ops = \<lparr>ls_TypeMeta = zero_TypeMeta, ls_ListMeta = mo_zeroListMeta ops, ls_Items = None\<rparr>"

definition item_step ::
  "('m, 'l, 'x) metaOps \<Rightarrow> slice \<Rightarrow> slice \<Rightarrow> nat \<Rightarrow> ('m, 'l, 'x) heap \<Rightarrow> ('m, 'l, 'x) heap" where
  "item_step ops src dst i h =
     (let (v, h1) = FluxJob_DeepCopyInto ops (deref (h_jobs h) (sl_array src, sl_off src + i)) h
      in h1\<lparr>h_jobs := assign (sl_array dst, sl_off dst + i) v (h_jobs h1)\<rparr>)"

definition FluxJobList_DeepCopyInto ::
  "('m, 'l, 'x) metaOps \<Rightarrow> 'l listStruct \<Rightarrow> ('m, 'l, 'x) heap \<Rightarrow> 'l listStruct \<times> ('m, 'l, 'x) heap" where
  "FluxJobList_DeepCopyInto ops l h =
     (let (lm, x) = mo_ListMeta ops (ls_ListMeta l) (h_meta h);
          out = l\<lparr>ls_TypeMeta := ls_TypeMeta l, ls_ListMeta := lm\<rparr>;
          h1 = h\<lparr>h_meta := x\<rparr>
      in (case ls_Items l of
            None \<Rightarrow> (out, h1)
          | Some src \<Rightarrow>
             (let (dst, st) = go_make (zero_FluxJob ops) (sl_len src) (h_jobs h1)
              in (out\<lparr>ls_Items := Some dst\<rparr>,
                  fold (item_step ops src dst) [0..<sl_len src] (h1\<lparr>h_jobs := st\<rparr>)))))"

section \<open>DeepCopy and DeepCopyObject\<close>

definition FluxJob_DeepCopy where
  "FluxJob_DeepCopy ops = deep_copy_ptr h_jobs h_jobs_update (zero_FluxJob ops) (FluxJob_DeepCopyInto ops)"

definition FluxJobList_DeepCopy where
  "FluxJobList_DeepCopy ops = deep_copy_ptr h_lists h_lists_update (zero_FluxJobList ops) (FluxJobList_DeepCopyInto ops)"

definition FluxJobSpec_DeepCopy where
  "FluxJobSpec_DeepCopy = deep_copy_ptr h_specs h_specs_update zero_Spec FluxJobSpec_DeepCopyInto"

definition FluxJobStatus_DeepCopy where
  "FluxJobStatus_DeepCopy = deep_copy_ptr h_statuses h_statuses_update zero_Status FluxJobStatus_DeepCopyInto"

definition Resources_DeepCopy where
  "Resources_DeepCopy = deep_copy_ptr h_resources h_resources_update zero_Resources Resources_DeepCopyInto"

text \<open>
  A \<open>runtime.Object\<close> is an interface value: nil, or a pointer with its type. Without the test
  the nil pointer would become a non-nil interface.
\<close>

datatype runtimeObject = FluxJobObject pointer | FluxJobListObject pointer

definition FluxJob_DeepCopyObject ::
  "('m, 'l, 'x) metaOps \<Rightarrow> pointer option \<Rightarrow> ('m, 'l, 'x) heap \<Rightarrow> runtimeObject option \<times> ('m, 'l, 'x) heap" where
  "FluxJob_DeepCopyObject ops p h =
     (case FluxJob_DeepCopy ops p h of (Some c, h') \<Rightarrow> (Some (FluxJobObject c), h') | (None, h') \<Rightarrow> (None, h'))"

definition FluxJobList_DeepCopyObject ::
  "('m, 'l, 'x) metaOps \<Rightarrow> pointer option \<Rightarrow> ('m, 'l, 'x) heap \<Rightarrow> runtimeObject option \<times> ('m, 'l, 'x) heap" where
  "FluxJobList_DeepCopyObject ops p h =
     (case FluxJobList_DeepCopy ops p h of (Some c, h') \<Rightarrow> (Some (FluxJobListObject c), h') | (None, h') \<Rightarrow> (None, h'))"

section \<open>Locations, agreement, and what a struct stands for\<close>

datatype 'r loc = LByte nat | LString nat | LJob nat | LList nat | LSpec nat | LStatus nat | LResources nat | LMeta 'r

definition h_alloc :: "('x \<Rightarrow> 'r set) \<Rightarrow> ('m, 'l, 'x) heap \<Rightarrow> 'r loc set" where
  "h_alloc xalloc h = {l. case l of
       LByte a \<Rightarrow> a < length (h_bytes h) | LString a \<Rightarrow> a < length (h_strings h) | LJob a \<Rightarrow> a < length (h_jobs h)
     | LList a \<Rightarrow> a < length (h_lists h) | LSpec a \<Rightarrow> a < length (h_specs h) | LStatus a \<Rightarrow> a < length (h_statuses h)
     | LResources a \<Rightarrow> a < length (h_resources h) | LMeta r \<Rightarrow> r \<in> xalloc (h_meta h)}"

definition h_agree :: "('x \<Rightarrow> 'x \<Rightarrow> 'r set \<Rightarrow> bool) \<Rightarrow> ('m, 'l, 'x) heap \<Rightarrow> ('m, 'l, 'x) heap \<Rightarrow> 'r loc set \<Rightarrow> bool" where
  "h_agree xagree h h' R \<longleftrightarrow>
     same (h_bytes h) (h_bytes h') {a. LByte a \<in> R} \<and> same (h_strings h) (h_strings h') {a. LString a \<in> R} \<and>
     same (h_jobs h) (h_jobs h') {a. LJob a \<in> R} \<and> same (h_lists h) (h_lists h') {a. LList a \<in> R} \<and>
     same (h_specs h) (h_specs h') {a. LSpec a \<in> R} \<and> same (h_statuses h) (h_statuses h') {a. LStatus a \<in> R} \<and>
     same (h_resources h) (h_resources h') {a. LResources a \<in> R} \<and> xagree (h_meta h) (h_meta h') {r. LMeta r \<in> R}"

definition res_ok :: "('m, 'l, 'x) heap \<Rightarrow> resourcesStruct \<Rightarrow> bool" where
  "res_ok h r = (case rs_Nodes r of None \<Rightarrow> True | Some s \<Rightarrow> slice_ok (h_strings h) s)"

definition res_val :: "('m, 'l, 'x) heap \<Rightarrow> resourcesStruct \<Rightarrow> string list option" where
  "res_val h r = map_option (slice_read (h_strings h)) (rs_Nodes r)"

definition res_own :: "('m, 'l, 'x) heap \<Rightarrow> resourcesStruct \<Rightarrow> 'r loc set" where
  "res_own h r = (case rs_Nodes r of None \<Rightarrow> {} | Some s \<Rightarrow> {LString (sl_array s)})"

definition spec_ok :: "('m, 'l, 'x) heap \<Rightarrow> specStruct \<Rightarrow> bool" where
  "spec_ok h sp \<longleftrightarrow> (case ss_Object sp of None \<Rightarrow> True | Some s \<Rightarrow> slice_ok (h_bytes h) s) \<and> res_ok h (ss_Resources sp)"

definition spec_val :: "('m, 'l, 'x) heap \<Rightarrow> specStruct \<Rightarrow> specStruct \<times> string option \<times> string list option" where
  "spec_val h sp = (sp\<lparr>ss_Object := None, ss_Resources := zero_Resources\<rparr>,
     map_option (slice_read (h_bytes h)) (ss_Object sp), res_val h (ss_Resources sp))"

definition spec_own :: "('m, 'l, 'x) heap \<Rightarrow> specStruct \<Rightarrow> 'r loc set" where
  "spec_own h sp = (case ss_Object sp of None \<Rightarrow> {} | Some s \<Rightarrow> {LByte (sl_array s)}) \<union> res_own h (ss_Resources sp)"

definition job_ok :: "('x \<Rightarrow> 'm \<Rightarrow> bool) \<Rightarrow> ('m, 'l, 'x) heap \<Rightarrow> 'm jobStruct \<Rightarrow> bool" where
  "job_ok omok h j \<longleftrightarrow> omok (h_meta h) (js_ObjectMeta j) \<and> spec_ok h (js_Spec j)"

definition job_val where
  "job_val omval h j = (js_TypeMeta j, omval (h_meta h) (js_ObjectMeta j), spec_val h (js_Spec j), js_Status j)"

definition job_own :: "('x \<Rightarrow> 'm \<Rightarrow> 'r set) \<Rightarrow> ('m, 'l, 'x) heap \<Rightarrow> 'm jobStruct \<Rightarrow> 'r loc set" where
  "job_own omown h j = LMeta ` omown (h_meta h) (js_ObjectMeta j) \<union> spec_own h (js_Spec j)"

definition list_ok :: "('x \<Rightarrow> 'm \<Rightarrow> bool) \<Rightarrow> ('x \<Rightarrow> 'l \<Rightarrow> bool) \<Rightarrow> ('m, 'l, 'x) heap \<Rightarrow> 'l listStruct \<Rightarrow> bool" where
  "list_ok omok lmok h l \<longleftrightarrow> lmok (h_meta h) (ls_ListMeta l) \<and>
     (case ls_Items l of None \<Rightarrow> True | Some s \<Rightarrow> slice_ok (h_jobs h) s \<and> (\<forall>j \<in> set (slice_read (h_jobs h) s). job_ok omok h j))"

definition list_val where
  "list_val omval lmval h l = (ls_TypeMeta l, lmval (h_meta h) (ls_ListMeta l),
     map_option (\<lambda>s. map (job_val omval h) (slice_read (h_jobs h) s)) (ls_Items l))"

definition list_own ::
  "('x \<Rightarrow> 'm \<Rightarrow> 'r set) \<Rightarrow> ('x \<Rightarrow> 'l \<Rightarrow> 'r set) \<Rightarrow> ('m, 'l, 'x) heap \<Rightarrow> 'l listStruct \<Rightarrow> 'r loc set" where
  "list_own omown lmown h l = LMeta ` lmown (h_meta h) (ls_ListMeta l) \<union>
     (case ls_Items l of None \<Rightarrow> {} | Some s \<Rightarrow> insert (LJob (sl_array s)) (\<Union>j \<in> set (slice_read (h_jobs h) s). job_own omown h j))"

section \<open>The contract, struct by struct\<close>

locale heap_memory = x: memory xalloc xagree
  for xalloc :: "'x \<Rightarrow> 'r set" and xagree :: "'x \<Rightarrow> 'x \<Rightarrow> 'r set \<Rightarrow> bool"

lemma h_alloc_simps [simp]:
  "LByte a \<in> h_alloc xalloc h \<longleftrightarrow> a < length (h_bytes h)" "LString a \<in> h_alloc xalloc h \<longleftrightarrow> a < length (h_strings h)"
  "LJob a \<in> h_alloc xalloc h \<longleftrightarrow> a < length (h_jobs h)" "LList a \<in> h_alloc xalloc h \<longleftrightarrow> a < length (h_lists h)"
  "LSpec a \<in> h_alloc xalloc h \<longleftrightarrow> a < length (h_specs h)" "LStatus a \<in> h_alloc xalloc h \<longleftrightarrow> a < length (h_statuses h)"
  "LResources a \<in> h_alloc xalloc h \<longleftrightarrow> a < length (h_resources h)" "LMeta r \<in> h_alloc xalloc h \<longleftrightarrow> r \<in> xalloc (h_meta h)"
  by (simp_all add: h_alloc_def)

sublocale heap_memory \<subseteq> memory "h_alloc xalloc" "h_agree xagree"
proof
  fix h h' h'' :: "('m, 'l, 'x) heap" and R S :: "'r loc set"
  show "h_agree xagree h h R" by (simp add: h_agree_def)
  show "h_agree xagree h h' S" if "h_agree xagree h h' R" "S \<subseteq> R"
    using that by (auto simp: h_agree_def elim!: same_mono x.agree_mono)
  show "h_agree xagree h h'' R" if "h_agree xagree h h' R" "h_agree xagree h' h'' R"
    using that by (auto simp: h_agree_def elim: same_trans x.agree_trans)
  show "h_alloc xalloc h \<subseteq> h_alloc xalloc h'" if "h_agree xagree h h' (h_alloc xalloc h)"
  proof -
    from that have "length (h_bytes h) \<le> length (h_bytes h')" "length (h_strings h) \<le> length (h_strings h')"
      "length (h_jobs h) \<le> length (h_jobs h')" "length (h_lists h) \<le> length (h_lists h')"
      "length (h_specs h) \<le> length (h_specs h')" "length (h_statuses h) \<le> length (h_statuses h')"
      "length (h_resources h) \<le> length (h_resources h')" "xalloc (h_meta h) \<subseteq> xalloc (h_meta h')"
      by (simp_all add: h_agree_def same_length x.agree_alloc)
    then show ?thesis by (auto simp: h_alloc_def split: loc.splits)
  qed
qed

sublocale heap_memory \<subseteq> res: cell_copier "h_alloc xalloc" "h_agree xagree" Resources_DeepCopyInto res_ok res_val res_own
  h_resources h_resources_update LResources zero_Resources
proof
  fix h h' h'' :: "('m, 'l, 'x) heap" and r r' :: resourcesStruct
  show "res_own h r \<subseteq> h_alloc xalloc h" if "res_ok h r"
    using that by (auto simp: res_own_def res_ok_def slice_ok_def split: option.splits)
  show "res_ok h' r \<and> res_val h' r = res_val h r \<and> (res_own h' r :: 'r loc set) = res_own h r"
    if "res_ok h r" "h_agree xagree h h' (res_own h r)"
    using that same_slice[of "h_strings h" "h_strings h'"]
    by (auto simp: res_ok_def res_val_def res_own_def h_agree_def split: option.splits)
  assume ok: "res_ok h r" and c: "Resources_DeepCopyInto r h = (r', h')"
  have all: "h_agree xagree h h' (h_alloc xalloc h) \<and> (res_ok h' r' \<and> res_val h' r' = res_val h r) \<and>
      (res_own h' r' :: 'r loc set) \<inter> h_alloc xalloc h = {}"
  proof (cases "rs_Nodes r")
    case None
    with c show ?thesis by (auto simp: Resources_DeepCopyInto_def res_ok_def res_val_def res_own_def)
  next
    case (Some s)
    obtain s' st where k: "clone [] s (h_strings h) = (s', st)" by (cases "clone [] s (h_strings h)")
    have "slice_ok (h_strings h) s" using ok Some by (simp add: res_ok_def)
    note k' = clone_correct[OF this k]
    show ?thesis
      using c Some k k' by (auto simp: Resources_DeepCopyInto_def res_ok_def res_val_def res_own_def h_agree_def)
  qed
  then show "h_agree xagree h h' (h_alloc xalloc h)" "res_ok h' r' \<and> res_val h' r' = res_val h r"
    "(res_own h' r' :: 'r loc set) \<inter> h_alloc xalloc h = {}" by blast+
qed (auto simp: h_agree_def res_own_def split: option.splits)

text \<open>The object of a specification, as \<open>FluxJobSpec.DeepCopyInto\<close> copies it before the resources.\<close>

definition copy_object :: "specStruct \<Rightarrow> ('m, 'l, 'x) heap \<Rightarrow> slice option \<times> ('m, 'l, 'x) heap" where
  "copy_object sp h =
     (case ss_Object sp of
        None \<Rightarrow> (None, h)
      | Some s \<Rightarrow> (let (obj, st) = clone (CHR 0x00) s (h_bytes h) in (Some obj, h\<lparr>h_bytes := st\<rparr>)))"

lemma Spec_copy_object:
  "FluxJobSpec_DeepCopyInto sp h =
     (let (obj, h1) = copy_object sp h; (res, h2) = Resources_DeepCopyInto (ss_Resources sp) h1
      in (sp\<lparr>ss_Object := obj, ss_Resources := res\<rparr>, h2))"
  by (cases sp) (simp add: FluxJobSpec_DeepCopyInto_def copy_object_def Let_def split: option.splits prod.splits)

context heap_memory
begin

lemma copy_object_correct:
  fixes h h1 :: "('m, 'l, 'x) heap"
  assumes "case ss_Object sp of None \<Rightarrow> True | Some s \<Rightarrow> slice_ok (h_bytes h) s" "copy_object sp h = (obj, h1)"
  shows "h_agree xagree h h1 R" "h_strings h1 = h_strings h"
    "case obj of None \<Rightarrow> True | Some s \<Rightarrow> slice_ok (h_bytes h1) s \<and> sl_array s = length (h_bytes h)"
    "map_option (slice_read (h_bytes h1)) obj = map_option (slice_read (h_bytes h)) (ss_Object sp)"
proof -
  have "h_agree xagree h h1 R \<and> h_strings h1 = h_strings h \<and>
    (case obj of None \<Rightarrow> True | Some s \<Rightarrow> slice_ok (h_bytes h1) s \<and> sl_array s = length (h_bytes h)) \<and>
    map_option (slice_read (h_bytes h1)) obj = map_option (slice_read (h_bytes h)) (ss_Object sp)"
  proof (cases "ss_Object sp")
    case None
    with assms show ?thesis by (auto simp: copy_object_def)
  next
    case (Some s)
    obtain s' st where k: "clone (CHR 0x00) s (h_bytes h) = (s', st)" by (cases "clone (CHR 0x00) s (h_bytes h)")
    have "slice_ok (h_bytes h) s" using assms(1) Some by simp
    note k' = clone_correct[OF this k]
    show ?thesis using assms(2) Some k k' by (auto simp: copy_object_def h_agree_def)
  qed
  then show "h_agree xagree h h1 R" "h_strings h1 = h_strings h"
    "case obj of None \<Rightarrow> True | Some s \<Rightarrow> slice_ok (h_bytes h1) s \<and> sl_array s = length (h_bytes h)"
    "map_option (slice_read (h_bytes h1)) obj = map_option (slice_read (h_bytes h)) (ss_Object sp)" by blast+
qed

lemma spec_read:
  fixes h h' :: "('m, 'l, 'x) heap"
  assumes "spec_ok h sp" "h_agree xagree h h' (spec_own h sp)"
  shows "spec_ok h' sp \<and> spec_val h' sp = spec_val h sp \<and> (spec_own h' sp :: 'r loc set) = spec_own h sp"
  using assms res.read_agree[of h "ss_Resources sp" h'] agree_mono[OF assms(2), of "res_own h (ss_Resources sp)"]
    same_slice[of "h_bytes h" "h_bytes h'"]
  by (auto simp: spec_ok_def spec_val_def spec_own_def h_agree_def split: option.splits)

lemma spec_copy:
  fixes h h' :: "('m, 'l, 'x) heap"
  assumes "spec_ok h sp" "FluxJobSpec_DeepCopyInto sp h = (sp', h')"
  shows "h_agree xagree h h' (h_alloc xalloc h)" "spec_ok h' sp'" "spec_val h' sp' = spec_val h sp"
    "(spec_own h' sp' :: 'r loc set) \<inter> h_alloc xalloc h = {}"
proof -
  obtain obj h1 where o: "copy_object sp h = (obj, h1)" by (cases "copy_object sp h")
  obtain res h2 where r: "Resources_DeepCopyInto (ss_Resources sp) h1 = (res, h2)"
    by (cases "Resources_DeepCopyInto (ss_Resources sp) h1")
  have eqs: "sp' = sp\<lparr>ss_Object := obj, ss_Resources := res\<rparr>" "h' = h2"
    using assms(2) o r by (auto simp: Spec_copy_object Let_def)
  have obj: "case ss_Object sp of None \<Rightarrow> True | Some s \<Rightarrow> slice_ok (h_bytes h) s" and res: "res_ok h (ss_Resources sp)"
    using assms(1) by (simp_all add: spec_ok_def)
  note oc = copy_object_correct[OF obj o]
  have res1: "res_ok h1 (ss_Resources sp)" "res_val h1 (ss_Resources sp) = res_val h (ss_Resources sp)"
    using res oc(2) by (simp_all add: res_ok_def res_val_def split: option.splits)
  note rc = res.copy_frame[OF res1(1) r] res.copy_val[OF res1(1) r] res.copy_fresh[OF res1(1) r]
  have sub: "h_alloc xalloc h \<subseteq> h_alloc xalloc h1" using agree_alloc[OF oc(1)] .
  show "h_agree xagree h h' (h_alloc xalloc h)"
    unfolding eqs by (rule agree_trans[OF oc(1) agree_mono[OF rc(1) sub]])
  have bytes: "case obj of None \<Rightarrow> True | Some s \<Rightarrow> slice_ok (h_bytes h2) s \<and> slice_read (h_bytes h2) s = slice_read (h_bytes h1) s"
  proof -
    have "same (h_bytes h1) (h_bytes h2) {a. a < length (h_bytes h1)}" using rc(1) by (simp add: h_agree_def)
    then show ?thesis using oc(3) same_alloc_slice by (auto split: option.splits)
  qed
  show "spec_ok h' sp'" "spec_val h' sp' = spec_val h sp"
    using bytes oc(4) rc(2) res1(2) unfolding eqs
    by (auto simp: spec_ok_def spec_val_def split: option.splits)
  show "(spec_own h' sp' :: 'r loc set) \<inter> h_alloc xalloc h = {}"
    using rc(3) sub oc(3) unfolding eqs by (auto simp: spec_own_def split: option.splits)
qed

end

lemma spec_own_alloc: "spec_ok h sp \<Longrightarrow> spec_own h sp \<subseteq> h_alloc xalloc h"
  by (auto simp: spec_ok_def res_ok_def spec_own_def res_own_def slice_ok_def split: option.splits)

lemma spec_own_kinds: "l \<in> spec_own h sp \<Longrightarrow> \<exists>a. l = LByte a \<or> l = LString a"
  by (auto simp: spec_own_def res_own_def split: option.splits)

sublocale heap_memory \<subseteq> spec: cell_copier "h_alloc xalloc" "h_agree xagree" FluxJobSpec_DeepCopyInto spec_ok spec_val spec_own
  h_specs h_specs_update LSpec zero_Spec
proof
  fix h h' :: "('m, 'l, 'x) heap" and sp sp' a
  show "spec_own h sp \<subseteq> h_alloc xalloc h" if "spec_ok h sp" using that by (rule spec_own_alloc)
  show "spec_ok h' sp \<and> spec_val h' sp = spec_val h sp \<and> (spec_own h' sp :: 'r loc set) = spec_own h sp"
    if "spec_ok h sp" "h_agree xagree h h' (spec_own h sp)" using that by (rule spec_read)
  show "LSpec a \<notin> spec_own h sp" using spec_own_kinds by fastforce
  assume c: "spec_ok h sp" "FluxJobSpec_DeepCopyInto sp h = (sp', h')"
  show "h_agree xagree h h' (h_alloc xalloc h)" "spec_ok h' sp' \<and> spec_val h' sp' = spec_val h sp"
    "(spec_own h' sp' :: 'r loc set) \<inter> h_alloc xalloc h = {}" using spec_copy[OF c] by blast+
qed (auto simp: h_agree_def)

sublocale heap_memory \<subseteq> status: cell_copier "h_alloc xalloc" "h_agree xagree" FluxJobStatus_DeepCopyInto
  "\<lambda>h s. True" "\<lambda>h s. s" "\<lambda>h s. {}" h_statuses h_statuses_update LStatus zero_Status
  by unfold_locales (auto simp: h_agree_def FluxJobStatus_DeepCopyInto_def)

section \<open>With the metadata of the library\<close>

locale metas =
  om: deep_copier xalloc xagree "mo_ObjectMeta ops" omok omval omown +
  lm: deep_copier xalloc xagree "mo_ListMeta ops" lmok lmval lmown
  for xalloc :: "'x \<Rightarrow> 'r set" and xagree :: "'x \<Rightarrow> 'x \<Rightarrow> 'r set \<Rightarrow> bool" and ops :: "('m, 'l, 'x) metaOps"
    and omok :: "'x \<Rightarrow> 'm \<Rightarrow> bool" and omval :: "'x \<Rightarrow> 'm \<Rightarrow> 'v" and omown :: "'x \<Rightarrow> 'm \<Rightarrow> 'r set"
    and lmok :: "'x \<Rightarrow> 'l \<Rightarrow> bool" and lmval :: "'x \<Rightarrow> 'l \<Rightarrow> 'w" and lmown :: "'x \<Rightarrow> 'l \<Rightarrow> 'r set"

sublocale metas \<subseteq> heap_memory xalloc xagree
  by unfold_locales

context metas
begin

lemma job_read:
  fixes h h' :: "('m, 'l, 'x) heap"
  assumes "job_ok omok h j" "h_agree xagree h h' (job_own omown h j)"
  shows "job_ok omok h' j \<and> job_val omval h' j = job_val omval h j \<and> job_own omown h' j = job_own omown h j"
proof -
  have "xagree (h_meta h) (h_meta h') (omown (h_meta h) (js_ObjectMeta j))"
    using assms(2) by (auto simp: h_agree_def job_own_def elim!: om.agree_mono)
  moreover have "h_agree xagree h h' (spec_own h (js_Spec j))"
    using agree_mono[OF assms(2)] by (simp add: job_own_def)
  ultimately show ?thesis
    using assms(1) om.read_agree[of "h_meta h" "js_ObjectMeta j" "h_meta h'"] spec_read[of h "js_Spec j" h']
    by (auto simp: job_ok_def job_val_def job_own_def)
qed

lemma job_own_alloc: "job_ok omok h j \<Longrightarrow> job_own omown h j \<subseteq> h_alloc xalloc h"
  using om.own_alloc[of "h_meta h" "js_ObjectMeta j"] spec_own_alloc[of h "js_Spec j" xalloc]
  by (auto simp: job_ok_def job_own_def)

lemma job_own_kinds: "l \<in> job_own omown h j \<Longrightarrow> \<exists>a r. l = LByte a \<or> l = LString a \<or> l = LMeta r"
  using spec_own_kinds by (fastforce simp: job_own_def)

lemma job_copy:
  fixes h h' :: "('m, 'l, 'x) heap"
  assumes "job_ok omok h j" "FluxJob_DeepCopyInto ops j h = (j', h')"
  shows "h_agree xagree h h' (h_alloc xalloc h)" "job_ok omok h' j'" "job_val omval h' j' = job_val omval h j"
    "job_own omown h' j' \<inter> h_alloc xalloc h = {}"
proof -
  obtain m x where o: "mo_ObjectMeta ops (js_ObjectMeta j) (h_meta h) = (m, x)"
    by (cases "mo_ObjectMeta ops (js_ObjectMeta j) (h_meta h)")
  let ?h1 = "h\<lparr>h_meta := x\<rparr>"
  obtain sp h2 where s: "FluxJobSpec_DeepCopyInto (js_Spec j) ?h1 = (sp, h2)" by (cases "FluxJobSpec_DeepCopyInto (js_Spec j) ?h1")
  have eqs: "j' = j\<lparr>js_ObjectMeta := m, js_Spec := sp\<rparr>" "h' = h2"
    using assms(2) o s by (auto simp: FluxJob_DeepCopyInto_def Let_def)
  have ok: "omok (h_meta h) (js_ObjectMeta j)" "spec_ok h (js_Spec j)" using assms(1) by (simp_all add: job_ok_def)
  note oc = om.copy_frame[OF ok(1) o] om.copy_val[OF ok(1) o] om.copy_fresh[OF ok(1) o]
  have h1: "h_agree xagree h ?h1 (h_alloc xalloc h)" using oc(1) by (simp add: h_agree_def)
  then have sub: "h_alloc xalloc h \<subseteq> h_alloc xalloc ?h1" by (rule agree_alloc)
  have spec1: "spec_ok ?h1 (js_Spec j)" "spec_val ?h1 (js_Spec j) = spec_val h (js_Spec j)"
    using spec_read[OF ok(2) agree_mono[OF h1 spec_own_alloc[OF ok(2)]]] by blast+
  note sc = spec_copy[OF spec1(1) s]
  show "h_agree xagree h h' (h_alloc xalloc h)"
    unfolding eqs by (rule agree_trans[OF h1 agree_mono[OF sc(1) sub]])
  have "xagree x (h_meta h2) (omown x m)"
    using sc(1) om.own_alloc[of x m] oc(2) by (auto simp: h_agree_def elim!: om.agree_mono)
  then have om2: "omok (h_meta h2) m" "omval (h_meta h2) m = omval (h_meta h) (js_ObjectMeta j)" "omown (h_meta h2) m = omown x m"
    using om.read_agree[of x m "h_meta h2"] oc(2) by auto
  show "job_ok omok h' j'" "job_val omval h' j' = job_val omval h j"
    using om2 sc(2,3) spec1(2) unfolding eqs by (simp_all add: job_ok_def job_val_def)
  show "job_own omown h' j' \<inter> h_alloc xalloc h = {}"
    using om2(3) oc(3) sc(4) sub unfolding eqs by (auto simp: job_own_def)
qed

end

sublocale metas \<subseteq> job: cell_copier "h_alloc xalloc" "h_agree xagree" "FluxJob_DeepCopyInto ops" "job_ok omok" "job_val omval"
  "job_own omown" h_jobs h_jobs_update LJob "zero_FluxJob ops"
proof
  fix h h' :: "('m, 'l, 'x) heap" and j j' a
  show "job_own omown h j \<subseteq> h_alloc xalloc h" if "job_ok omok h j" using that by (rule job_own_alloc)
  show "job_ok omok h' j \<and> job_val omval h' j = job_val omval h j \<and> job_own omown h' j = job_own omown h j"
    if "job_ok omok h j" "h_agree xagree h h' (job_own omown h j)" using that by (rule job_read)
  show "LJob a \<notin> job_own omown h j" using job_own_kinds by fastforce
  assume c: "job_ok omok h j" "FluxJob_DeepCopyInto ops j h = (j', h')"
  show "h_agree xagree h h' (h_alloc xalloc h)" "job_ok omok h' j' \<and> job_val omval h' j' = job_val omval h j"
    "job_own omown h' j' \<inter> h_alloc xalloc h = {}" using job_copy[OF c] by blast+
qed (auto simp: h_agree_def)

text \<open>
  The invariant of the loop over the items, after \<open>k\<close> of them: the elements below
  \<open>k\<close> of the new array are copies that own nothing of the heap \<open>h0\<close> in which the loop
  started, and of that heap only the new array \<open>d\<close> has changed.
\<close>

definition items_inv where
  "items_inv xalloc xagree omok omval omown src d h0 k h \<longleftrightarrow>
     h_agree xagree h0 h (h_alloc xalloc h0 - {LJob d}) \<and> h_alloc xalloc h0 \<subseteq> h_alloc xalloc h \<and>
     d < length (h_jobs h) \<and> length (h_jobs h ! d) = length src \<and>
     (\<forall>i<k. job_ok omok h (h_jobs h ! d ! i) \<and> job_val omval h (h_jobs h ! d ! i) = job_val omval h0 (src ! i) \<and>
        job_own omown h (h_jobs h ! d ! i) \<inter> h_alloc xalloc h0 = {})"

context metas
begin

abbreviation inv where "inv \<equiv> items_inv xalloc xagree omok omval omown"

lemma no_cell:
  fixes h :: "('m, 'l, 'x) heap"
  shows "job_ok omok h j \<Longrightarrow> job_own omown h j \<subseteq> h_alloc xalloc h - {LJob d}"
  using job_own_alloc[of h j] job.own_no_cell[of h j d] by blast

lemma items_step:
  fixes h0 h :: "('m, 'l, 'x) heap"
  assumes inv: "inv src d h0 k h" and k: "k < length src" and src: "job_ok omok h0 (src ! k)"
    and copy: "FluxJob_DeepCopyInto ops (src ! k) h = (v, h1)"
  shows "inv src d h0 (Suc k) (h1\<lparr>h_jobs := assign (d, k) v (h_jobs h1)\<rparr>)"
proof -
  let ?h2 = "h1\<lparr>h_jobs := assign (d, k) v (h_jobs h1)\<rparr>"
  from inv have ag: "h_agree xagree h0 h (h_alloc xalloc h0 - {LJob d})" and sub: "h_alloc xalloc h0 \<subseteq> h_alloc xalloc h"
    and d: "d < length (h_jobs h)" "length (h_jobs h ! d) = length src" by (auto simp: items_inv_def)
  have ok: "job_ok omok h (src ! k)" and vk: "job_val omval h (src ! k) = job_val omval h0 (src ! k)"
    using job_read[OF src agree_mono[OF ag no_cell[OF src]]] by blast+
  note jc = job_copy[OF ok copy]
  have arr: "d < length (h_jobs h1)" "h_jobs h1 ! d = h_jobs h ! d"
    using jc(1) d(1) by (auto simp: h_agree_def same_def)
  have q: "ptr_ok (h_jobs h1) (d, k)" using arr d k by (simp add: ptr_ok_def)
  note asg = job.assign_correct[OF jc(2) refl q]
  have upd: "h_jobs_update (assign (d, k) v) h1 = ?h2" by (cases h1) simp
  note asg = asg[unfolded upd]
  have sub2: "h_alloc xalloc h \<subseteq> h_alloc xalloc ?h2"
    using agree_alloc[OF jc(1)] by (auto simp: h_alloc_def assign_def split: loc.splits)
  have ag2: "h_agree xagree h ?h2 (h_alloc xalloc h - {LJob d})"
    by (rule agree_trans[OF agree_mono[OF jc(1)] agree_mono[OF asg(1)]]) auto
  have new: "h_jobs ?h2 ! d ! i = (if i = k then v else h_jobs h ! d ! i)" if "i < Suc k" for i
    using that arr d k by (auto simp: assign_def nth_list_update)
  have old: "job_ok omok ?h2 j \<and> job_val omval ?h2 j = job_val omval h j \<and> job_own omown ?h2 j = job_own omown h j"
    if "job_ok omok h j" for j using job_read[OF that agree_mono[OF ag2 no_cell[OF that]]] .
  have elems: "job_ok omok ?h2 (h_jobs ?h2 ! d ! i) \<and> job_val omval ?h2 (h_jobs ?h2 ! d ! i) = job_val omval h0 (src ! i) \<and>
      job_own omown ?h2 (h_jobs ?h2 ! d ! i) \<inter> h_alloc xalloc h0 = {}" if "i < Suc k" for i
  proof (cases "i = k")
    case True
    then show ?thesis using new[OF that] asg(2-4) jc(3,4) vk sub by auto
  next
    case False
    with that have "i < k" by simp
    with inv old[of "h_jobs h ! d ! i"] False show ?thesis unfolding new[OF that] by (simp add: items_inv_def)
  qed
  have "h_agree xagree h0 ?h2 (h_alloc xalloc h0 - {LJob d})"
    by (rule agree_trans[OF ag agree_mono[OF ag2]]) (use sub in auto)
  moreover have "h_alloc xalloc h0 \<subseteq> h_alloc xalloc ?h2" using sub sub2 by blast
  moreover have "d < length (h_jobs ?h2)" "length (h_jobs ?h2 ! d) = length src"
    using arr d by (simp_all add: assign_def)
  ultimately show ?thesis unfolding items_inv_def using elems by blast
qed

lemma items_loop:
  fixes h0 :: "('m, 'l, 'x) heap"
  assumes "slice_ok (h_jobs h0) s" "\<forall>j \<in> set (slice_read (h_jobs h0) s). job_ok omok h0 j"
    and "sl_array s \<noteq> d" "d < length (h_jobs h0)" "length (h_jobs h0 ! d) = sl_len s"
    and "sl_array dst = d" "sl_off dst = 0" "k \<le> sl_len s"
  shows "inv (slice_read (h_jobs h0) s) d h0 k (fold (item_step ops s dst) [0..<k] h0)"
  using assms(8)
proof (induction k)
  case 0
  show ?case using assms(1,4,5) by (simp add: items_inv_def slice_read_length)
next
  case (Suc k)
  let ?src = "slice_read (h_jobs h0) s" and ?h = "fold (item_step ops s dst) [0..<k] h0"
  have inv: "inv ?src d h0 k ?h" using Suc by simp
  have k: "k < length ?src" using Suc.prems assms(1) by (simp add: slice_read_length)
  have "LJob (sl_array s) \<in> h_alloc xalloc h0 - {LJob d}" using assms(1,3) by (simp add: slice_ok_def)
  then have "h_jobs ?h ! sl_array s = h_jobs h0 ! sl_array s"
    using inv assms(1) by (auto simp: items_inv_def h_agree_def same_def slice_ok_def)
  then have rd: "deref (h_jobs ?h) (sl_array s, sl_off s + k) = ?src ! k"
    using k assms(1) by (simp add: deref_def slice_read_def slice_ok_def)
  obtain v h1 where c: "FluxJob_DeepCopyInto ops (?src ! k) ?h = (v, h1)" by (cases "FluxJob_DeepCopyInto ops (?src ! k) ?h")
  have "job_ok omok h0 (?src ! k)" using assms(2) k by simp
  from items_step[OF inv k this c] show ?case using rd c assms(6,7) by (simp add: item_step_def[of ops s dst k ?h])
qed

lemma list_read:
  fixes h h' :: "('m, 'l, 'x) heap"
  assumes ok: "list_ok omok lmok h l" and ag: "h_agree xagree h h' (list_own omown lmown h l)"
  shows "list_ok omok lmok h' l \<and> list_val omval lmval h' l = list_val omval lmval h l \<and>
    list_own omown lmown h' l = list_own omown lmown h l"
proof -
  have "xagree (h_meta h) (h_meta h') (lmown (h_meta h) (ls_ListMeta l))"
    using ag by (auto simp: h_agree_def list_own_def elim!: om.agree_mono)
  then have meta: "lmok (h_meta h') (ls_ListMeta l)" "lmval (h_meta h') (ls_ListMeta l) = lmval (h_meta h) (ls_ListMeta l)"
      "lmown (h_meta h') (ls_ListMeta l) = lmown (h_meta h) (ls_ListMeta l)"
    using lm.read_agree[of "h_meta h" "ls_ListMeta l" "h_meta h'"] ok by (auto simp: list_ok_def)
  show ?thesis
  proof (cases "ls_Items l")
    case None
    with meta show ?thesis by (simp add: list_ok_def list_val_def list_own_def)
  next
    case (Some s)
    have "slice_ok (h_jobs h) s" using ok Some by (simp add: list_ok_def)
    moreover have "same (h_jobs h) (h_jobs h') {a. LJob a \<in> list_own omown lmown h l}" using ag by (simp add: h_agree_def)
    ultimately have sl: "slice_ok (h_jobs h') s \<and> slice_read (h_jobs h') s = slice_read (h_jobs h) s"
      using Some by (intro same_slice) (auto simp: list_own_def)
    have js: "job_ok omok h' j \<and> job_val omval h' j = job_val omval h j \<and> job_own omown h' j = job_own omown h j"
      if "j \<in> set (slice_read (h_jobs h) s)" for j
      using job_read[of h j h'] agree_mono[OF ag, of "job_own omown h j"] that ok Some by (auto simp: list_ok_def list_own_def)
    show ?thesis using meta sl js Some by (simp add: list_ok_def list_val_def list_own_def)
  qed
qed

lemma list_own_alloc:
  fixes h :: "('m, 'l, 'x) heap"
  assumes "list_ok omok lmok h l"
  shows "list_own omown lmown h l \<subseteq> h_alloc xalloc h"
  using assms lm.own_alloc[of "h_meta h" "ls_ListMeta l"] job_own_alloc[of h]
  by (fastforce simp: list_ok_def list_own_def slice_ok_def split: option.splits)

text \<open>The copies of the items, in a new array, read as the items do and own nothing old.\<close>

lemma items_copy:
  fixes h h0 :: "('m, 'l, 'x) heap"
  assumes "slice_ok (h_jobs h) s" "\<forall>j \<in> set (slice_read (h_jobs h) s). job_ok omok h j"
    and ag0: "h_agree xagree h h0 (h_alloc xalloc h)"
    and h0: "h_jobs h0 = h_jobs h @ [replicate (sl_len s) (zero_FluxJob ops)]"
    and h': "h' = fold (item_step ops s \<lparr>sl_array = length (h_jobs h), sl_off = 0, sl_len = sl_len s\<rparr>) [0..<sl_len s] h0"
  defines "js \<equiv> h_jobs h' ! length (h_jobs h)"
  shows "h_agree xagree h0 h' (h_alloc xalloc h0 - {LJob (length (h_jobs h))})"
    "length (h_jobs h) < length (h_jobs h')" "length js = sl_len s"
    "map (job_val omval h') js = map (job_val omval h) (slice_read (h_jobs h) s)"
    "j \<in> set js \<Longrightarrow> job_ok omok h' j \<and> job_own omown h' j \<inter> h_alloc xalloc h = {}"
proof -
  have rd: "slice_ok (h_jobs h0) s" "slice_read (h_jobs h0) s = slice_read (h_jobs h) s"
    using same_slice[of "h_jobs h" "h_jobs h0" UNIV s] assms(1) by (simp_all add: h0)
  have js0: "job_ok omok h0 j \<and> job_val omval h0 j = job_val omval h j" if "j \<in> set (slice_read (h_jobs h) s)" for j
    using job_read[of h j h0] agree_mono[OF ag0 job_own_alloc[of h j]] assms(2) that by blast
  have "inv (slice_read (h_jobs h) s) (length (h_jobs h)) h0 (sl_len s) h'"
    unfolding h' rd(2)[symmetric]
    by (rule items_loop) (use rd js0 assms(1) in \<open>auto simp: slice_ok_def h0\<close>)
  then have inv: "\<And>i. i < sl_len s \<Longrightarrow> job_ok omok h' (js ! i) \<and>
        job_val omval h' (js ! i) = job_val omval h0 (slice_read (h_jobs h) s ! i) \<and>
        job_own omown h' (js ! i) \<inter> h_alloc xalloc h0 = {}"
    and len: "length js = sl_len s"
    and "h_agree xagree h0 h' (h_alloc xalloc h0 - {LJob (length (h_jobs h))})" "length (h_jobs h) < length (h_jobs h')"
    using assms(1) by (auto simp: items_inv_def slice_read_length js_def)
  then show "h_agree xagree h0 h' (h_alloc xalloc h0 - {LJob (length (h_jobs h))})"
    "length (h_jobs h) < length (h_jobs h')" "length js = sl_len s" by blast+
  show "map (job_val omval h') js = map (job_val omval h) (slice_read (h_jobs h) s)"
    using inv len js0 assms(1) by (auto intro!: nth_equalityI simp: slice_read_length)
  show "job_ok omok h' j \<and> job_own omown h' j \<inter> h_alloc xalloc h = {}" if "j \<in> set js"
    using that inv len agree_alloc[OF ag0] by (fastforce simp: in_set_conv_nth)
qed

lemma list_copy:
  fixes h h' :: "('m, 'l, 'x) heap"
  assumes ok: "list_ok omok lmok h l" and c: "FluxJobList_DeepCopyInto ops l h = (l', h')"
  shows "h_agree xagree h h' (h_alloc xalloc h) \<and> list_ok omok lmok h' l' \<and>
    list_val omval lmval h' l' = list_val omval lmval h l \<and> list_own omown lmown h' l' \<inter> h_alloc xalloc h = {}"
proof -
  obtain m x where o: "mo_ListMeta ops (ls_ListMeta l) (h_meta h) = (m, x)"
    by (cases "mo_ListMeta ops (ls_ListMeta l) (h_meta h)")
  let ?h1 = "h\<lparr>h_meta := x\<rparr>"
  have lok: "lmok (h_meta h) (ls_ListMeta l)" using ok by (simp add: list_ok_def)
  note oc = lm.copy_frame[OF lok o] lm.copy_val[OF lok o] lm.copy_fresh[OF lok o]
  have h1: "h_agree xagree h ?h1 (h_alloc xalloc h)" using oc(1) by (simp add: h_agree_def)
  show ?thesis
  proof (cases "ls_Items l")
    case None
    with c o have "l' = l\<lparr>ls_ListMeta := m\<rparr>" "h' = ?h1" by (auto simp: FluxJobList_DeepCopyInto_def)
    with None h1 oc show ?thesis by (auto simp: list_ok_def list_val_def list_own_def)
  next
    case (Some s)
    let ?d = "length (h_jobs h)"
    define dst where "dst = \<lparr>sl_array = ?d, sl_off = 0, sl_len = sl_len s\<rparr>"
    define h0 where "h0 = ?h1\<lparr>h_jobs := h_jobs h @ [replicate (sl_len s) (zero_FluxJob ops)]\<rparr>"
    have eqs: "l' = l\<lparr>ls_ListMeta := m, ls_Items := Some dst\<rparr>" "h' = fold (item_step ops s dst) [0..<sl_len s] h0"
      using c o Some by (auto simp: FluxJobList_DeepCopyInto_def go_make_def Let_def h0_def dst_def)
    have ag0: "h_agree xagree h h0 (h_alloc xalloc h)" using h1 by (simp add: h_agree_def h0_def)
    have items: "slice_ok (h_jobs h) s" "\<forall>j \<in> set (slice_read (h_jobs h) s). job_ok omok h j"
      "h_jobs h0 = h_jobs h @ [replicate (sl_len s) (zero_FluxJob ops)]"
      using ok Some by (simp_all add: list_ok_def h0_def)
    note copy = items_copy[OF items(1,2) ag0 items(3) eqs(2)[unfolded dst_def]]
    have frame: "h_agree xagree h h' (h_alloc xalloc h)"
      by (rule agree_trans[OF ag0 agree_mono[OF copy(1)]]) (use agree_alloc[OF ag0] in auto)
    have xs: "slice_read (h_jobs h') dst = h_jobs h' ! ?d" using copy(3) by (simp add: slice_read_def dst_def)
    have "xagree x (h_meta h') (lmown x m)"
      using copy(1) lm.own_alloc[of x m] oc(2) by (auto simp: h_agree_def h0_def elim!: om.agree_mono)
    then have m': "lmok (h_meta h') m" "lmval (h_meta h') m = lmval (h_meta h) (ls_ListMeta l)" "lmown (h_meta h') m = lmown x m"
      using lm.read_agree[of x m "h_meta h'"] oc(2) by auto
    have "list_ok omok lmok h' l'" "list_val omval lmval h' l' = list_val omval lmval h l"
      unfolding eqs(1) using m' copy Some xs by (auto simp: list_ok_def list_val_def slice_ok_def dst_def)
    moreover have "list_own omown lmown h' l' \<inter> h_alloc xalloc h = {}"
      unfolding eqs(1) using m'(3) oc(3) copy(5) xs by (auto simp: list_own_def dst_def)
    ultimately show ?thesis using frame by blast
  qed
qed

end

sublocale metas \<subseteq> list: cell_copier "h_alloc xalloc" "h_agree xagree" "FluxJobList_DeepCopyInto ops" "list_ok omok lmok"
  "list_val omval lmval" "list_own omown lmown" h_lists h_lists_update LList "zero_FluxJobList ops"
proof
  fix h h' :: "('m, 'l, 'x) heap" and l l' a
  show "list_own omown lmown h l \<subseteq> h_alloc xalloc h" if "list_ok omok lmok h l" using that by (rule list_own_alloc)
  show "list_ok omok lmok h' l \<and> list_val omval lmval h' l = list_val omval lmval h l \<and> list_own omown lmown h' l = list_own omown lmown h l"
    if "list_ok omok lmok h l" "h_agree xagree h h' (list_own omown lmown h l)" using that by (rule list_read)
  show "LList a \<notin> list_own omown lmown h l" using job_own_kinds by (fastforce simp: list_own_def split: option.splits)
  assume c: "list_ok omok lmok h l" "FluxJobList_DeepCopyInto ops l h = (l', h')"
  show "h_agree xagree h h' (h_alloc xalloc h)" "list_ok omok lmok h' l' \<and> list_val omval lmval h' l' = list_val omval lmval h l"
    "list_own omown lmown h' l' \<inter> h_alloc xalloc h = {}" using list_copy[OF c] by blast+
qed (auto simp: h_agree_def)

section \<open>Which stores a copy touches\<close>

lemma Resources_stores [effect_frame]:
  assumes "Resources_DeepCopyInto r h = (r', h')"
  shows "h_jobs h' = h_jobs h \<and> h_lists h' = h_lists h \<and> h_specs h' = h_specs h \<and> h_resources h' = h_resources h"
  using assms by (auto simp: Resources_DeepCopyInto_def split: option.splits prod.splits)

lemma Spec_stores [effect_frame]:
  assumes "FluxJobSpec_DeepCopyInto sp h = (sp', h')"
  shows "h_jobs h' = h_jobs h \<and> h_lists h' = h_lists h \<and> h_specs h' = h_specs h \<and> h_resources h' = h_resources h"
  using assms by (auto simp: FluxJobSpec_DeepCopyInto_def Let_def split: option.splits prod.splits dest!: Resources_stores)

lemma FluxJob_stores [effect_frame]:
  assumes "FluxJob_DeepCopyInto ops j h = (j', h')"
  shows "h_jobs h' = h_jobs h \<and> h_lists h' = h_lists h \<and> h_specs h' = h_specs h \<and> h_resources h' = h_resources h"
  using assms by (auto simp: FluxJob_DeepCopyInto_def Let_def split: prod.splits dest!: Spec_stores)

lemma assign_lengths: "map length (assign p v st) = map length st"
  by (cases "fst p < length st") (simp_all add: assign_def map_update list_update_same_conv list_update_beyond)

lemma item_stores:
  "map length (h_jobs (item_step ops s dst k h)) = map length (h_jobs h) \<and> h_lists (item_step ops s dst k h) = h_lists h \<and>
   h_specs (item_step ops s dst k h) = h_specs h \<and> h_resources (item_step ops s dst k h) = h_resources h"
  by (auto simp: item_step_def assign_lengths split: prod.splits dest!: FluxJob_stores)

lemma items_stores [effect_frame]:
  "map length (h_jobs (fold (item_step ops s dst) ks h)) = map length (h_jobs h) \<and>
   h_lists (fold (item_step ops s dst) ks h) = h_lists h \<and> h_specs (fold (item_step ops s dst) ks h) = h_specs h \<and>
   h_resources (fold (item_step ops s dst) ks h) = h_resources h"
  by (induction ks arbitrary: h) (simp_all add: item_stores)

lemma List_stores [effect_frame]:
  assumes "FluxJobList_DeepCopyInto ops l h = (l', h')"
  shows "h_lists h' = h_lists h \<and> h_specs h' = h_specs h \<and> h_resources h' = h_resources h \<and>
    map length (h_jobs h') = map length (h_jobs h) @ (case ls_Items l of None \<Rightarrow> [] | Some s \<Rightarrow> [sl_len s]) \<and>
    ls_Items l' = map_option (\<lambda>s. \<lparr>sl_array = length (h_jobs h), sl_off = 0, sl_len = sl_len s\<rparr>) (ls_Items l)"
  using assms
  by (auto simp: FluxJobList_DeepCopyInto_def Let_def go_make_def items_stores split: option.splits prod.splits)

section \<open>Well-formed heaps\<close>

text \<open>Every struct of the heap refers to memory that is there.\<close>

definition cells_ok :: "('h \<Rightarrow> 'a \<Rightarrow> bool) \<Rightarrow> 'h \<Rightarrow> 'a store \<Rightarrow> bool" where
  "cells_ok ok h st \<longleftrightarrow> (\<forall>arr \<in> set st. \<forall>v \<in> set arr. ok h v)"

definition heap_ok :: "('x \<Rightarrow> 'm \<Rightarrow> bool) \<Rightarrow> ('x \<Rightarrow> 'l \<Rightarrow> bool) \<Rightarrow> ('m, 'l, 'x) heap \<Rightarrow> bool" where
  "heap_ok omok lmok h \<longleftrightarrow> cells_ok (job_ok omok) h (h_jobs h) \<and> cells_ok (list_ok omok lmok) h (h_lists h) \<and>
     cells_ok spec_ok h (h_specs h) \<and> cells_ok res_ok h (h_resources h)"

lemma cells_ok_deref: "cells_ok ok h st \<Longrightarrow> ptr_ok st p \<Longrightarrow> ok h (deref st p)"
  unfolding cells_ok_def ptr_ok_def deref_def by (meson nth_mem)

lemma cells_ok_append [simp]:
  "cells_ok ok h (xs @ ys) \<longleftrightarrow> cells_ok ok h xs \<and> cells_ok ok h ys" "cells_ok ok h []"
  "cells_ok ok h [[v]] \<longleftrightarrow> ok h v"
  by (auto simp: cells_ok_def)

text \<open>The cell that \<open>DeepCopy\<close> allocates, and the heap in which the value is copied.\<close>

lemma deep_copy_ptr_steps:
  assumes "deep_copy_ptr get upd zero copy (Some p) h = (q, h')"
  obtains v h2 where "copy (deref (get (upd (\<lambda>_. get h @ [[zero]]) h)) p) (upd (\<lambda>_. get h @ [[zero]]) h) = (v, h2)"
    "q = Some (length (get h), 0)" "h' = upd (assign (length (get h), 0) v) h2"
  using assms by (auto simp: deep_copy_ptr_def new_def Let_def split: prod.splits)

lemma assign_new [simp]: "assign (length xs, 0) v (xs @ [[zero]]) = xs @ [[v]]"
  by (simp add: assign_def)

lemma FluxJob_DeepCopy_stores:
  assumes "FluxJob_DeepCopy ops (Some p) h = (q, h')"
  obtains v where "q = Some (length (h_jobs h), 0)" "h_jobs h' = h_jobs h @ [[v]]" "h_lists h' = h_lists h"
    "h_specs h' = h_specs h" "h_resources h' = h_resources h"
  using assms unfolding FluxJob_DeepCopy_def
  by (elim deep_copy_ptr_steps) (auto dest!: FluxJob_stores)

lemma FluxJobSpec_DeepCopy_stores:
  assumes "FluxJobSpec_DeepCopy (Some p) h = (q, h')"
  obtains v where "q = Some (length (h_specs h), 0)" "h_specs h' = h_specs h @ [[v]]" "h_lists h' = h_lists h"
    "h_jobs h' = h_jobs h" "h_resources h' = h_resources h"
  using assms unfolding FluxJobSpec_DeepCopy_def
  by (elim deep_copy_ptr_steps) (auto dest!: Spec_stores)

lemma Resources_DeepCopy_stores:
  assumes "Resources_DeepCopy (Some p) h = (q, h')"
  obtains v where "q = Some (length (h_resources h), 0)" "h_resources h' = h_resources h @ [[v]]" "h_lists h' = h_lists h"
    "h_jobs h' = h_jobs h" "h_specs h' = h_specs h"
  using assms unfolding Resources_DeepCopy_def
  by (elim deep_copy_ptr_steps) (auto dest!: Resources_stores)

lemma FluxJobStatus_DeepCopy_stores:
  assumes "FluxJobStatus_DeepCopy (Some p) h = (q, h')"
  shows "h_resources h' = h_resources h" "h_lists h' = h_lists h" "h_jobs h' = h_jobs h" "h_specs h' = h_specs h"
  using assms unfolding FluxJobStatus_DeepCopy_def
  by (auto elim!: deep_copy_ptr_steps simp: FluxJobStatus_DeepCopyInto_def)

lemma FluxJobList_DeepCopy_stores:
  assumes "FluxJobList_DeepCopy ops (Some p) h = (q, h')"
  obtains v where "q = Some (length (h_lists h), 0)" "h_lists h' = h_lists h @ [[v]]"
    "h_specs h' = h_specs h" "h_resources h' = h_resources h"
    "map length (h_jobs h') = map length (h_jobs h) @ (case ls_Items v of None \<Rightarrow> [] | Some s \<Rightarrow> [sl_len s])"
    "\<And>s. ls_Items v = Some s \<Longrightarrow> sl_array s = length (h_jobs h) \<and> sl_off s = 0"
  using assms unfolding FluxJobList_DeepCopy_def
  by (elim deep_copy_ptr_steps) (fastforce dest!: List_stores split: option.splits)

context deep_copier
begin

lemma cells_keep:
  assumes "cells_ok ok h st" "agree h h' (alloc h)"
  shows "cells_ok ok h' st"
proof -
  have "ok h' v" if "ok h v" for v using read_agree[OF that agree_mono[OF assms(2) own_alloc[OF that]]] by blast
  then show ?thesis using assms(1) by (auto simp: cells_ok_def)
qed

end

lemma new_array_ok:
  assumes "slice_ok st s" "\<forall>v \<in> set (slice_read st s). ok h v" "sl_off s = 0" "sl_array s = n" "length (st ! n) = sl_len s"
  shows "cells_ok ok h [st ! n]"
  using assms by (simp add: cells_ok_def slice_read_def)

text \<open>A longer store whose old arrays are the same is the old store with the new arrays.\<close>

lemma same_split:
  assumes "same xs ys {a. a < length xs}"
  shows "ys = xs @ drop (length xs) ys"
proof -
  have "length xs \<le> length ys" using assms by (rule same_length)
  then have "take (length xs) ys = xs" using assms by (auto simp: same_def intro!: nth_equalityI)
  then show ?thesis by (metis append_take_drop_id)
qed

context metas
begin

lemma heap_ok_keep:
  fixes h h' :: "('m, 'l, 'x) heap"
  assumes "heap_ok omok lmok h" "h_agree xagree h h' (h_alloc xalloc h)"
  shows "cells_ok (job_ok omok) h' (h_jobs h)" "cells_ok (list_ok omok lmok) h' (h_lists h)"
    "cells_ok spec_ok h' (h_specs h)" "cells_ok res_ok h' (h_resources h)"
  using assms job.cells_keep list.cells_keep spec.cells_keep res.cells_keep by (auto simp: heap_ok_def)

lemma list_heap_ok:
  fixes h h' :: "('m, 'l, 'x) heap"
  assumes "heap_ok omok lmok h" "ptr_ok (h_lists h) p" "FluxJobList_DeepCopy ops (Some p) h = (q, h')"
  shows "heap_ok omok lmok h'"
proof -
  have ok: "pok h_lists (list_ok omok lmok) h (Some p)"
    using assms(1,2) by (simp add: pok_def heap_ok_def cells_ok_deref)
  note c = assms(3)[unfolded FluxJobList_DeepCopy_def]
  note keep = heap_ok_keep[OF assms(1) list.ptr.copy_frame[OF ok c]]
  have ok': "pok h_lists (list_ok omok lmok) h' q" using list.ptr.copy_val[OF ok c] by blast
  obtain v where v: "q = Some (length (h_lists h), 0)" "h_lists h' = h_lists h @ [[v]]"
    "h_specs h' = h_specs h" "h_resources h' = h_resources h"
    "map length (h_jobs h') = map length (h_jobs h) @ (case ls_Items v of None \<Rightarrow> [] | Some s \<Rightarrow> [sl_len s])"
    "\<And>s. ls_Items v = Some s \<Longrightarrow> sl_array s = length (h_jobs h) \<and> sl_off s = 0"
    using FluxJobList_DeepCopy_stores[OF assms(3)] by blast
  have vok: "list_ok omok lmok h' v" using ok' v(1,2) by (simp add: pok_def deref_def)
  have "same (h_jobs h) (h_jobs h') {a. a < length (h_jobs h)}" using list.ptr.copy_frame[OF ok c] by (simp add: h_agree_def)
  note split = same_split[OF this]
  have len: "length (h_jobs h') = length (h_jobs h) + (case ls_Items v of None \<Rightarrow> 0 | Some s \<Rightarrow> 1)"
    using arg_cong[OF v(5), of length] by (simp split: option.splits)
  have "cells_ok (job_ok omok) h' (drop (length (h_jobs h)) (h_jobs h'))"
  proof (cases "ls_Items v")
    case None
    with len show ?thesis by simp
  next
    case (Some s)
    have n: "drop (length (h_jobs h)) (h_jobs h') = [h_jobs h' ! length (h_jobs h)]"
      using len Some by (simp add: Cons_nth_drop_Suc[symmetric])
    have "map length (h_jobs h') ! length (h_jobs h) = sl_len s" using v(5) Some by (simp add: nth_append)
    then have "length (h_jobs h' ! length (h_jobs h)) = sl_len s" using len Some by simp
    then show ?thesis unfolding n
      using new_array_ok[of "h_jobs h'" s "job_ok omok" h' "length (h_jobs h)"] vok v(6)[OF Some] Some by (simp add: list_ok_def)
  qed
  then have "cells_ok (job_ok omok) h' (h_jobs h')" using keep(1) by (subst split) simp
  then show ?thesis using keep vok v by (simp add: heap_ok_def)
qed

lemma job_heap_ok:
  fixes h h' :: "('m, 'l, 'x) heap"
  assumes "heap_ok omok lmok h" "ptr_ok (h_jobs h) p" "FluxJob_DeepCopy ops (Some p) h = (q, h')"
  shows "heap_ok omok lmok h'"
proof -
  have ok: "pok h_jobs (job_ok omok) h (Some p)" using assms(1,2) by (simp add: pok_def heap_ok_def cells_ok_deref)
  note c = assms(3)[unfolded FluxJob_DeepCopy_def]
  show ?thesis
    using heap_ok_keep[OF assms(1) job.ptr.copy_frame[OF ok c]] job.ptr.copy_val[OF ok c]
    by - (rule FluxJob_DeepCopy_stores[OF assms(3)], simp add: heap_ok_def pok_def deref_def)
qed

lemma spec_heap_ok:
  fixes h h' :: "('m, 'l, 'x) heap"
  assumes "heap_ok omok lmok h" "ptr_ok (h_specs h) p" "FluxJobSpec_DeepCopy (Some p) h = (q, h')"
  shows "heap_ok omok lmok h'"
proof -
  have ok: "pok h_specs spec_ok h (Some p)" using assms(1,2) by (simp add: pok_def heap_ok_def cells_ok_deref)
  note c = assms(3)[unfolded FluxJobSpec_DeepCopy_def]
  show ?thesis
    using heap_ok_keep[OF assms(1) spec.ptr.copy_frame[OF ok c]] spec.ptr.copy_val[OF ok c]
    by - (rule FluxJobSpec_DeepCopy_stores[OF assms(3)], simp add: heap_ok_def pok_def deref_def)
qed

lemma res_heap_ok:
  fixes h h' :: "('m, 'l, 'x) heap"
  assumes "heap_ok omok lmok h" "ptr_ok (h_resources h) p" "Resources_DeepCopy (Some p) h = (q, h')"
  shows "heap_ok omok lmok h'"
proof -
  have ok: "pok h_resources res_ok h (Some p)" using assms(1,2) by (simp add: pok_def heap_ok_def cells_ok_deref)
  note c = assms(3)[unfolded Resources_DeepCopy_def]
  show ?thesis
    using heap_ok_keep[OF assms(1) res.ptr.copy_frame[OF ok c]] res.ptr.copy_val[OF ok c]
    by - (rule Resources_DeepCopy_stores[OF assms(3)], simp add: heap_ok_def pok_def deref_def)
qed

lemma status_heap_ok:
  fixes h h' :: "('m, 'l, 'x) heap"
  assumes "heap_ok omok lmok h" "ptr_ok (h_statuses h) p" "FluxJobStatus_DeepCopy (Some p) h = (q, h')"
  shows "heap_ok omok lmok h'"
proof -
  have ok: "pok h_statuses (\<lambda>h s. True) h (Some p)" using assms(2) by (simp add: pok_def)
  note c = assms(3)[unfolded FluxJobStatus_DeepCopy_def]
  show ?thesis
    using heap_ok_keep[OF assms(1) status.ptr.copy_frame[OF ok c]] FluxJobStatus_DeepCopy_stores[OF assms(3)]
    by (simp add: heap_ok_def)
qed

lemma list_separate:
  "pok h_lists (list_ok omok lmok) h p \<Longrightarrow> FluxJobList_DeepCopy ops p h = (q, h') \<Longrightarrow>
    pval h_lists (list_val omval lmval) h' q = pval h_lists (list_val omval lmval) h p \<and>
    pown h_lists LList (list_own omown lmown) h' q \<inter> h_alloc xalloc h = {} \<and> h_agree xagree h h' (h_alloc xalloc h) \<and>
    (\<forall>h''. h_agree xagree h' h'' (- pown h_lists LList (list_own omown lmown) h' q) \<longrightarrow>
       pval h_lists (list_val omval lmval) h'' p = pval h_lists (list_val omval lmval) h p) \<and>
    (\<forall>h''. h_agree xagree h' h'' (- pown h_lists LList (list_own omown lmown) h p) \<longrightarrow>
       pval h_lists (list_val omval lmval) h'' q = pval h_lists (list_val omval lmval) h p)"
  unfolding FluxJobList_DeepCopy_def by (rule list.ptr.copy_separate)

lemma job_separate:
  "pok h_jobs (job_ok omok) h p \<Longrightarrow> FluxJob_DeepCopy ops p h = (q, h') \<Longrightarrow>
    pval h_jobs (job_val omval) h' q = pval h_jobs (job_val omval) h p \<and>
    pown h_jobs LJob (job_own omown) h' q \<inter> h_alloc xalloc h = {} \<and> h_agree xagree h h' (h_alloc xalloc h) \<and>
    (\<forall>h''. h_agree xagree h' h'' (- pown h_jobs LJob (job_own omown) h' q) \<longrightarrow>
       pval h_jobs (job_val omval) h'' p = pval h_jobs (job_val omval) h p) \<and>
    (\<forall>h''. h_agree xagree h' h'' (- pown h_jobs LJob (job_own omown) h p) \<longrightarrow>
       pval h_jobs (job_val omval) h'' q = pval h_jobs (job_val omval) h p)"
  unfolding FluxJob_DeepCopy_def by (rule job.ptr.copy_separate)

end

section \<open>Metadata with labels\<close>

text \<open>
  An instance of the contract: object metadata is a name and a reference to label pairs, list
  metadata a resource version.
\<close>

definition ex_ops :: "(string \<times> slice option, string, (string \<times> string) store) metaOps" where
  "ex_ops = \<lparr>mo_ObjectMeta = (\<lambda>(n, s) x. case s of None \<Rightarrow> ((n, None), x)
       | Some s \<Rightarrow> (let (s', x') = clone ([], []) s x in ((n, Some s'), x'))),
     mo_ListMeta = Pair, mo_zeroObjectMeta = ([], None), mo_zeroListMeta = []\<rparr>"

definition ex_omok :: "(string \<times> string) store \<Rightarrow> string \<times> slice option \<Rightarrow> bool" where
  "ex_omok x m = (case snd m of None \<Rightarrow> True | Some s \<Rightarrow> slice_ok x s)"

definition ex_omval :: "(string \<times> string) store \<Rightarrow> string \<times> slice option \<Rightarrow> string \<times> (string \<times> string) list option" where
  "ex_omval x m = (fst m, map_option (slice_read x) (snd m))"

definition ex_omown :: "(string \<times> string) store \<Rightarrow> string \<times> slice option \<Rightarrow> nat set" where
  "ex_omown x m = (case snd m of None \<Rightarrow> {} | Some s \<Rightarrow> {sl_array s})"

interpretation ex: metas "\<lambda>x. {a. a < length x}" same ex_ops ex_omok ex_omval ex_omown "\<lambda>x l. True" "\<lambda>x l. l" "\<lambda>x l. {}"
proof
  fix x x' :: "(string \<times> string) store" and m m' :: "string \<times> slice option"
  show "ex_omown x m \<subseteq> {a. a < length x}" if "ex_omok x m"
    using that by (auto simp: ex_omok_def ex_omown_def slice_ok_def split: option.splits)
  show "ex_omok x' m \<and> ex_omval x' m = ex_omval x m \<and> ex_omown x' m = ex_omown x m"
    if "ex_omok x m" "same x x' (ex_omown x m)"
    using that same_slice[of x x'] by (auto simp: ex_omok_def ex_omval_def ex_omown_def split: option.splits)
  assume c: "ex_omok x m" "mo_ObjectMeta ex_ops m x = (m', x')"
  have "same x x' {a. a < length x} \<and> (ex_omok x' m' \<and> ex_omval x' m' = ex_omval x m) \<and> ex_omown x' m' \<inter> {a. a < length x} = {}"
  proof (cases "snd m")
    case None
    with c show ?thesis by (cases m) (auto simp: ex_ops_def ex_omok_def ex_omval_def ex_omown_def)
  next
    case (Some s)
    obtain s' st where k: "clone ([], []) s x = (s', st)" by (cases "clone ([], []) s x")
    have "slice_ok x s" using c(1) Some by (simp add: ex_omok_def)
    note k' = clone_correct[OF this k]
    show ?thesis using c(2) Some k k' by (cases m) (auto simp: ex_ops_def ex_omok_def ex_omval_def ex_omown_def)
  qed
  then show "same x x' {a. a < length x}" "ex_omok x' m' \<and> ex_omval x' m' = ex_omval x m" "ex_omown x' m' \<inter> {a. a < length x} = {}"
    by blast+
qed (auto simp: ex_ops_def intro: same_mono same_trans dest: same_length)

text \<open>A list with one job that holds an object and a node.\<close>

definition ex_heap :: "(string \<times> slice option, string, (string \<times> string) store) heap" where
  "ex_heap = \<lparr>h_bytes = [''{}''], h_strings = [[''n1'', ''n2'']],
     h_jobs = [[\<lparr>js_TypeMeta = zero_TypeMeta, js_ObjectMeta = (''j'', Some \<lparr>sl_array = 0, sl_off = 0, sl_len = 1\<rparr>),
       js_Spec = zero_Spec\<lparr>ss_Object := Some \<lparr>sl_array = 0, sl_off = 0, sl_len = 2\<rparr>,
         ss_Resources := \<lparr>rs_Nodes = Some \<lparr>sl_array = 0, sl_off = 1, sl_len = 1\<rparr>\<rparr>\<rparr>, js_Status = zero_Status\<rparr>]],
     h_lists = [[\<lparr>ls_TypeMeta = zero_TypeMeta, ls_ListMeta = ''7'', ls_Items = Some \<lparr>sl_array = 0, sl_off = 0, sl_len = 1\<rparr>\<rparr>]],
     h_specs = [[zero_Spec]], h_statuses = [[zero_Status]], h_resources = [[zero_Resources]],
     h_meta = [[(''app'', ''a'')]]\<rparr>"

lemma ex_heap_ok: "heap_ok ex_omok (\<lambda>x l. True) ex_heap"
  by (simp add: heap_ok_def cells_ok_def job_ok_def list_ok_def spec_ok_def res_ok_def ex_omok_def ex_heap_def slice_ok_def
      slice_read_def zero_Spec_def zero_Resources_def)

lemma ex_pointers: "ptr_ok (h_lists ex_heap) (0, 0)" "ptr_ok (h_jobs ex_heap) (0, 0)"
  by (simp_all add: ptr_ok_def ex_heap_def)

lemma ex_pok: "pok h_lists (list_ok ex_omok (\<lambda>x l. True)) ex_heap (Some (0, 0))"
  using ex_heap_ok ex_pointers by (simp add: pok_def heap_ok_def cells_ok_deref)

lemma ex_pval:
  "pval h_lists (list_val ex_omval (\<lambda>x l. l)) ex_heap (Some (0, 0)) =
     Some (zero_TypeMeta, ''7'', Some [(zero_TypeMeta, (''j'', Some [(''app'', ''a'')]), (zero_Spec, Some ''{}'', Some [''n2'']), zero_Status)])"
  by (simp add: pval_def deref_def ex_heap_def list_val_def job_val_def spec_val_def res_val_def ex_omval_def slice_read_def
      zero_Spec_def zero_Resources_def)

section \<open>Properties\<close>

text \<open>C18: a deep copy of a list of jobs stands for the same list and shares no memory with it: its
  locations are new, nothing that was allocated has changed, and after any later writes confined to
  the one, the other still stands for the list that was copied.\<close>
theorem FluxJobList_DeepCopy_independent:
  assumes "metas xalloc xagree ops omok omval omown lmok lmval lmown"
    and "pok h_lists (list_ok omok lmok) h p" "FluxJobList_DeepCopy ops p h = (q, h')"
  shows "pval h_lists (list_val omval lmval) h' q = pval h_lists (list_val omval lmval) h p \<and>
    pown h_lists LList (list_own omown lmown) h' q \<inter> h_alloc xalloc h = {} \<and> h_agree xagree h h' (h_alloc xalloc h) \<and>
    (\<forall>h''. h_agree xagree h' h'' (- pown h_lists LList (list_own omown lmown) h' q) \<longrightarrow>
       pval h_lists (list_val omval lmval) h'' p = pval h_lists (list_val omval lmval) h p) \<and>
    (\<forall>h''. h_agree xagree h' h'' (- pown h_lists LList (list_own omown lmown) h p) \<longrightarrow>
       pval h_lists (list_val omval lmval) h'' q = pval h_lists (list_val omval lmval) h p)"
  using assms by (rule metas.list_separate)

theorem FluxJobList_DeepCopy_independent_witness:
  "pval h_lists (list_val ex_omval (\<lambda>x l. l)) (snd (FluxJobList_DeepCopy ex_ops (Some (0, 0)) ex_heap))
       (fst (FluxJobList_DeepCopy ex_ops (Some (0, 0)) ex_heap)) =
     Some (zero_TypeMeta, ''7'', Some [(zero_TypeMeta, (''j'', Some [(''app'', ''a'')]), (zero_Spec, Some ''{}'', Some [''n2'']), zero_Status)])"
  using FluxJobList_DeepCopy_independent[OF ex.metas_axioms ex_pok surjective_pairing] by (simp only: ex_pval)

text \<open>The same for a single job, which the client's cache copies before it hands it out.\<close>

lemma FluxJob_DeepCopy_independent:
  assumes "metas xalloc xagree ops omok omval omown lmok lmval lmown"
    and "pok h_jobs (job_ok omok) h p" "FluxJob_DeepCopy ops p h = (q, h')"
  shows "pval h_jobs (job_val omval) h' q = pval h_jobs (job_val omval) h p \<and>
    pown h_jobs LJob (job_own omown) h' q \<inter> h_alloc xalloc h = {} \<and> h_agree xagree h h' (h_alloc xalloc h) \<and>
    (\<forall>h''. h_agree xagree h' h'' (- pown h_jobs LJob (job_own omown) h' q) \<longrightarrow>
       pval h_jobs (job_val omval) h'' p = pval h_jobs (job_val omval) h p) \<and>
    (\<forall>h''. h_agree xagree h' h'' (- pown h_jobs LJob (job_own omown) h p) \<longrightarrow>
       pval h_jobs (job_val omval) h'' q = pval h_jobs (job_val omval) h p)"
  using assms by (rule metas.job_separate)

text \<open>Every generated \<open>DeepCopy\<close> of a valid pointer keeps the heap well typed: each job,
  list, specification and resource in it, the copy included, refers only to memory that is there.
  \<open>DeepCopyObject\<close> of nil is a nil interface.\<close>

lemma DeepCopy_keeps_heap_ok:
  assumes "metas xalloc xagree ops omok omval omown lmok lmval lmown" "heap_ok omok lmok h"
  shows "(ptr_ok (h_jobs h) p \<longrightarrow> heap_ok omok lmok (snd (FluxJob_DeepCopy ops (Some p) h))) \<and>
    (ptr_ok (h_lists h) p \<longrightarrow> heap_ok omok lmok (snd (FluxJobList_DeepCopy ops (Some p) h))) \<and>
    (ptr_ok (h_specs h) p \<longrightarrow> heap_ok omok lmok (snd (FluxJobSpec_DeepCopy (Some p) h))) \<and>
    (ptr_ok (h_statuses h) p \<longrightarrow> heap_ok omok lmok (snd (FluxJobStatus_DeepCopy (Some p) h))) \<and>
    (ptr_ok (h_resources h) p \<longrightarrow> heap_ok omok lmok (snd (Resources_DeepCopy (Some p) h))) \<and>
    FluxJob_DeepCopyObject ops None h = (None, h) \<and> FluxJobList_DeepCopyObject ops None h = (None, h)"
  using metas.job_heap_ok[OF assms(1,2)] metas.list_heap_ok[OF assms(1,2)] metas.spec_heap_ok[OF assms(1,2)]
    metas.status_heap_ok[OF assms(1,2)] metas.res_heap_ok[OF assms(1,2)]
  by (intro conjI impI; (simp add: FluxJob_DeepCopyObject_def FluxJobList_DeepCopyObject_def FluxJob_DeepCopy_def
      FluxJobList_DeepCopy_def deep_copy_ptr_def; fail)?; metis prod.collapse)

end
