(* ===== verification/Go_Flag.thy ===== *)
theory Go_Flag
  imports Go_Json
begin

text \<open>
  The command line as Go's \<open>flag\<close> package reads it: string, bool and int flags,
  \<open>-f\<close> and \<open>--f\<close>, values after \<open>=\<close> or in the next argument, \<open>--\<close> and the
  first argument that is no flag as the end, help and errors. Integers are read as
  \<open>strconv.ParseInt(s, 0, 64)\<close> does, with the base prefixes and underscores of Go literals.
  Nothing here models a file under \<open>src/\<close>; the flags of the manager are in
  \<open>Manager.thy\<close>.
\<close>

section \<open>Integers in any base\<close>

abbreviation ord_of :: "char \<Rightarrow> nat" where "ord_of c \<equiv> of_char c"

definition lower_byte :: "char \<Rightarrow> nat" where
  "lower_byte c = (if 65 \<le> ord_of c \<and> ord_of c \<le> 90 then ord_of c + 32 else ord_of c)"

definition digit_value :: "char \<Rightarrow> nat option" where
  "digit_value c =
     (if 48 \<le> ord_of c \<and> ord_of c \<le> 57 then Some (ord_of c - 48)
      else if 97 \<le> lower_byte c \<and> lower_byte c \<le> 122 then Some (lower_byte c - 97 + 10) else None)"

text \<open>The loop: underscores are skipped and checked afterwards.\<close>

fun read_base :: "nat \<Rightarrow> nat \<Rightarrow> nat \<Rightarrow> string \<Rightarrow> nat \<times> num_error option" where
  "read_base base mx n [] = (n, None)"
| "read_base base mx n (c # cs) =
     (if c = CHR ''_'' then read_base base mx n cs
      else case digit_value c of
             None \<Rightarrow> (0, Some ErrSyntax)
           | Some d \<Rightarrow> (if d \<ge> base then (0, Some ErrSyntax)
                       else if n * base + d > mx then (mx, Some ErrRange)
                       else read_base base mx (n * base + d) cs))"

definition base_prefix :: "string \<Rightarrow> nat \<times> string" where
  "base_prefix s =
     (if s = [] \<or> hd s \<noteq> CHR ''0'' then (10, s)
      else if length s \<ge> 3 \<and> lower_byte (s ! 1) = 98 then (2, drop 2 s)
      else if length s \<ge> 3 \<and> lower_byte (s ! 1) = 111 then (8, drop 2 s)
      else if length s \<ge> 3 \<and> lower_byte (s ! 1) = 120 then (16, drop 2 s)
      else (8, drop 1 s))"

text \<open>Underscores stand between digits, a base prefix counting as a digit. The state is what came last.\<close>

datatype last_seen = Start | Digit | Underscore | Other

fun underscores :: "bool \<Rightarrow> last_seen \<Rightarrow> string \<Rightarrow> bool" where
  "underscores hex i [] \<longleftrightarrow> i \<noteq> Underscore"
| "underscores hex i (c # cs) \<longleftrightarrow>
     (if 48 \<le> ord_of c \<and> ord_of c \<le> 57 \<or> hex \<and> 97 \<le> lower_byte c \<and> lower_byte c \<le> 102 then underscores hex Digit cs
      else if c = CHR ''_'' then i = Digit \<and> underscores hex Underscore cs
      else i \<noteq> Underscore \<and> underscores hex Other cs)"

definition underscoreOK :: "string \<Rightarrow> bool" where
  "underscoreOK s =
     (if length s \<ge> 2 \<and> hd s = CHR ''0'' \<and> lower_byte (s ! 1) \<in> {98, 111, 120}
      then underscores (lower_byte (s ! 1) = 120) Digit (drop 2 s) else underscores False Start s)"

definition parseUint0 :: "string \<Rightarrow> nat \<times> num_error option" where
  "parseUint0 s =
     (if s = [] then (0, Some ErrSyntax)
      else let (base, body) = base_prefix s; (n, err) = read_base base (2 ^ 64 - 1) 0 body
           in if err = None \<and> CHR ''_'' \<in> set body \<and> \<not> underscoreOK s then (0, Some ErrSyntax) else (n, err))"

definition parseInt0 :: "string \<Rightarrow> int \<times> num_error option" where
  "parseInt0 s =
     (if s = [] then (0, Some ErrSyntax)
      else
        let neg = (hd s = CHR ''-'');
            body = (if hd s = CHR ''+'' \<or> hd s = CHR ''-'' then tl s else s);
            (un, err) = parseUint0 body
        in if err = Some ErrSyntax then (0, Some ErrSyntax)
           else if \<not> neg \<and> un \<ge> 2 ^ 63 then (2 ^ 63 - 1, Some ErrRange)
           else if neg \<and> un > 2 ^ 63 then (- (2 ^ 63), Some ErrRange)
           else (if neg then - int un else int un, None))"

definition parseBool :: "string \<Rightarrow> bool option" where
  "parseBool s =
     (if s \<in> {''1'', ''t'', ''T'', ''TRUE'', ''true'', ''True''} then Some True
      else if s \<in> {''0'', ''f'', ''F'', ''FALSE'', ''false'', ''False''} then Some False else None)"

section \<open>Flags\<close>

datatype flagVal = FString string | FBool bool | FInt int

type_synonym flagSet = "string \<rightharpoonup> flagVal"

text \<open>\<open>Set\<close> on a declared flag, by the type of the variable it is bound to.\<close>

fun set_flag :: "string \<Rightarrow> flagVal \<Rightarrow> flagVal option" where
  "set_flag v (FString _) = Some (FString v)"
| "set_flag v (FBool _) = map_option FBool (parseBool v)"
| "set_flag v (FInt _) = (case parseInt0 v of (i, None) \<Rightarrow> Some (FInt i) | _ \<Rightarrow> None)"

definition is_bool :: "flagVal \<Rightarrow> bool" where
  "is_bool v = (case v of FBool _ \<Rightarrow> True | _ \<Rightarrow> False)"

text \<open>
  Flags that another package binds, by name: whether the flag is boolean and which values its
  \<open>Set\<close> accepts.
\<close>

type_synonym otherFlags = "string \<rightharpoonup> bool \<times> (string \<Rightarrow> bool)"

datatype parsed = Parsed flagSet | HelpRequested | UsageError string

text \<open>An argument as \<open>parseOne\<close> splits it.\<close>

datatype arg = EndOfFlags | Terminator | BadSyntax string | FlagArg string "string option"

definition split_value :: "string \<Rightarrow> string \<times> string option" where
  "split_value name =
     (let k = length (takeWhile (\<lambda>c. c \<noteq> CHR ''='') (tl name))
      in if k < length (tl name) then (take (Suc k) name, Some (drop (k + 2) name)) else (name, None))"

definition classify :: "string \<Rightarrow> arg" where
  "classify s =
     (if length s < 2 \<or> hd s \<noteq> CHR ''-'' then EndOfFlags
      else if s = ''--'' then Terminator
      else
        let name = (if s ! 1 = CHR ''-'' then drop 2 s else drop 1 s)
        in if hd name = CHR ''-'' \<or> hd name = CHR ''='' then BadSyntax s
           else case split_value name of (n, v) \<Rightarrow> FlagArg n v)"

text \<open>The value of a flag: after \<open>=\<close>, else \<open>true\<close> for a boolean, else the next argument.\<close>

definition take_value :: "bool \<Rightarrow> string option \<Rightarrow> string list \<Rightarrow> (string \<times> string list) option" where
  "take_value bool v rest =
     (case v of
        Some x \<Rightarrow> Some (x, rest)
      | None \<Rightarrow> (if bool then Some (''true'', rest) else case rest of [] \<Rightarrow> None | x # xs \<Rightarrow> Some (x, xs)))"

lemma take_value_length: "take_value b v rest = Some (x, xs) \<Longrightarrow> length xs \<le> length rest"
  by (auto simp: take_value_def split: option.splits if_splits list.splits)

function parse_flags :: "otherFlags \<Rightarrow> flagSet \<Rightarrow> string list \<Rightarrow> parsed" where
  "parse_flags other fl [] = Parsed fl"
| "parse_flags other fl (s # rest) =
     (case classify s of
        EndOfFlags \<Rightarrow> Parsed fl
      | Terminator \<Rightarrow> Parsed fl
      | BadSyntax t \<Rightarrow> UsageError (''bad flag syntax: '' @ t)
      | FlagArg name v \<Rightarrow>
         (case fl name of
            Some cur \<Rightarrow>
              (case take_value (is_bool cur) v rest of
                 None \<Rightarrow> UsageError (''flag needs an argument: -'' @ name)
               | Some (x, rest') \<Rightarrow>
                  (case set_flag x cur of
                     None \<Rightarrow> UsageError (''invalid value for flag -'' @ name)
                   | Some new \<Rightarrow> parse_flags other (fl(name \<mapsto> new)) rest'))
          | None \<Rightarrow>
              (case other name of
                 Some (bool, accepts) \<Rightarrow>
                   (case take_value bool v rest of
                      None \<Rightarrow> UsageError (''flag needs an argument: -'' @ name)
                    | Some (x, rest') \<Rightarrow>
                       (if accepts x then parse_flags other fl rest' else UsageError (''invalid value for flag -'' @ name)))
               | None \<Rightarrow>
                   (if name = ''help'' \<or> name = ''h'' then HelpRequested
                    else UsageError (''flag provided but not defined: -'' @ name)))))"
  by pat_completeness auto

termination
  by (relation "measure (\<lambda>(_, _, args). length args)") (auto dest: take_value_length)

section \<open>Printed values are read back\<close>

lemma ord_digit_char [simp]: "d < 10 \<Longrightarrow> ord_of (digit_char d) = d + 48"
  by (simp add: digit_char_def)

lemma read_base_digits:
  "(\<And>c. c \<in> set s \<Longrightarrow> \<exists>d<10. c = digit_char d) \<Longrightarrow> read_base 10 mx n s = parse_digits mx n s"
proof (induction s arbitrary: n)
  case (Cons c s)
  then obtain d where d: "d < 10" "c = digit_char d" by auto
  with Cons show ?case by (simp add: digit_value_def)
qed simp

lemma parseUint0_nat_dec:
  assumes "n < 2 ^ 64"
  shows "parseUint0 (nat_dec n) = (n, None)"
proof (cases "n = 0")
  case True
  have "digit_char 0 = CHR ''0''" using char_of_char[of "CHR ''0''"] by (simp add: digit_char_def)
  with True show ?thesis by (simp add: parseUint0_def base_prefix_def nat_dec.simps[of 0])
next
  case False
  then have "base_prefix (nat_dec n) = (10, nat_dec n)" using nat_dec_head[of n] by (simp add: base_prefix_def)
  moreover have "read_base 10 (2 ^ 64 - 1) 0 (nat_dec n) = (n, None)"
    using assms parse_digits_nat_dec[of n "2 ^ 64 - 1"] read_base_digits[OF nat_dec_digits] by simp
  ultimately show ?thesis by (simp add: parseUint0_def)
qed

lemma parseInt0_itoa:
  assumes "- (2 ^ 63) \<le> i" "i < 2 ^ 63"
  shows "parseInt0 (itoa i) = (i, None)"
proof -
  have "parseUint0 (nat_dec (nat \<bar>i\<bar>)) = (nat \<bar>i\<bar>, None)" using assms by (intro parseUint0_nat_dec) simp
  then show ?thesis
    using assms by (cases "i < 0") (auto simp: parseInt0_def itoa_def Let_def)
qed

end
