(* ===== verification/Manager.thy ===== *)
theory Manager
  imports Controller Service Go_Flag
begin

text \<open>
  The program \<open>cmd/manager/main.go\<close> and the wiring of the controller it does:
  \<open>NewFluxJobReconciler\<close>, \<open>SetDuration\<close>, \<open>SetupWithManager\<close>
  (\<open>fluxjob_controller.go\<close>) and \<open>SetupEvents\<close> (\<open>events.go\<close>). The results of the
  library calls are fields of an environment; the flags are read from the arguments. \<open>main\<close>
  gives how the process ends, if it does, and what it did: errors logged, servers and informers
  started, deferred calls run. \<open>os.Exit\<close> runs no deferred call, a panic runs those deferred so
  far, and a receive from a nil channel blocks for ever.
\<close>

section \<open>Flags\<close>

record mainFlags =
  mf_metricsAddr :: string
  mf_probeAddr :: string
  mf_policy :: string
  mf_leaderElect :: bool
  mf_duration :: int
  mf_secureMetrics :: bool
  mf_enableHTTP2 :: bool

definition default_flags :: mainFlags where
  "default_flags = \<lparr>mf_metricsAddr = ''0'', mf_probeAddr = '':8081'', mf_policy = [], mf_leaderElect = False,
     mf_duration = 0, mf_secureMetrics = True, mf_enableHTTP2 = False\<rparr>"

definition flag_set :: "mainFlags \<Rightarrow> flagSet" where
  "flag_set m = [''metrics-bind-address'' \<mapsto> FString (mf_metricsAddr m), ''health-probe-bind-address'' \<mapsto> FString (mf_probeAddr m),
     ''policy'' \<mapsto> FString (mf_policy m), ''leader-elect'' \<mapsto> FBool (mf_leaderElect m), ''duration'' \<mapsto> FInt (mf_duration m),
     ''metrics-secure'' \<mapsto> FBool (mf_secureMetrics m), ''enable-http2'' \<mapsto> FBool (mf_enableHTTP2 m)]"

definition string_flag :: "flagSet \<Rightarrow> string \<Rightarrow> string" where
  "string_flag fl n = (case fl n of Some (FString s) \<Rightarrow> s | _ \<Rightarrow> [])"

definition bool_flag :: "flagSet \<Rightarrow> string \<Rightarrow> bool" where
  "bool_flag fl n = (case fl n of Some (FBool b) \<Rightarrow> b | _ \<Rightarrow> False)"

definition int_flag :: "flagSet \<Rightarrow> string \<Rightarrow> int" where
  "int_flag fl n = (case fl n of Some (FInt i) \<Rightarrow> i | _ \<Rightarrow> 0)"

definition main_flags :: "flagSet \<Rightarrow> mainFlags" where
  "main_flags fl = \<lparr>mf_metricsAddr = string_flag fl ''metrics-bind-address'', mf_probeAddr = string_flag fl ''health-probe-bind-address'',
     mf_policy = string_flag fl ''policy'', mf_leaderElect = bool_flag fl ''leader-elect'', mf_duration = int_flag fl ''duration'',
     mf_secureMetrics = bool_flag fl ''metrics-secure'', mf_enableHTTP2 = bool_flag fl ''enable-http2''\<rparr>"

section \<open>Options of the manager\<close>

datatype tlsOpt = DisableHTTP2

text \<open>\<open>disableHTTP2\<close> on the protocols of a TLS configuration.\<close>

fun apply_tls :: "tlsOpt \<Rightarrow> string list \<Rightarrow> string list" where
  "apply_tls DisableHTTP2 nextProtos = [''http/1.1'']"

record managerOptions =
  op_BindAddress :: string
  op_SecureServing :: bool
  op_MetricsTLS :: "tlsOpt list"
  op_AuthFilter :: bool
  op_WebhookTLS :: "tlsOpt list"
  op_ProbeAddress :: string
  op_LeaderElection :: bool
  op_LeaderElectionID :: string

definition manager_options :: "mainFlags \<Rightarrow> managerOptions" where
  "manager_options m =
     (let tlsOpts = (if \<not> mf_enableHTTP2 m then [DisableHTTP2] else [])
      in \<lparr>op_BindAddress = mf_metricsAddr m, op_SecureServing = mf_secureMetrics m, op_MetricsTLS = tlsOpts,
          op_AuthFilter = mf_secureMetrics m, op_WebhookTLS = tlsOpts, op_ProbeAddress = mf_probeAddr m,
          op_LeaderElection = mf_leaderElect m, op_LeaderElectionID = ''b321c34b.converged-computing.org''\<rparr>)"

section \<open>The reconciler\<close>

text \<open>A nil queue or client is \<open>None\<close>; the client is Fluxion's \<open>Init\<close>.\<close>

record fluxJobReconciler =
  fr_Queue :: "queue option"
  fr_Fluxion :: "(string \<Rightarrow> string \<Rightarrow> go_error option) option"
  fr_Duration :: int

definition NewFluxJobReconciler ::
  "queue option \<Rightarrow> (string \<Rightarrow> string \<Rightarrow> go_error option) option \<Rightarrow> fluxJobReconciler" where
  "NewFluxJobReconciler queue fluxCli = \<lparr>fr_Queue = queue, fr_Fluxion = fluxCli, fr_Duration = 0\<rparr>"

definition SetDuration :: "int \<Rightarrow> fluxJobReconciler \<Rightarrow> fluxJobReconciler" where
  "SetDuration duration r = r\<lparr>fr_Duration := duration\<rparr>"

datatype mainEvent =
    LogError string go_error
  | LogInfo string
  | ControllerAdded fluxJobReconciler
  | WebhookRegistered string
  | InformerStarted fluxJobReconciler
  | QueueStopped
  | FluxionClosed
  | PoolClosed

text \<open>\<open>builder\<close> is the result of the controller builder's \<open>Complete\<close>.\<close>

definition SetupWithManager :: "go_error option \<Rightarrow> fluxJobReconciler \<Rightarrow> go_error option \<times> mainEvent list" where
  "SetupWithManager builder r = (case builder of Some e \<Rightarrow> (Some e, []) | None \<Rightarrow> (None, [ControllerAdded r]))"

definition SetupEvents :: "go_error option \<Rightarrow> fluxJobReconciler \<Rightarrow> go_error option \<times> mainEvent list" where
  "SetupEvents newForConfig r =
     (case newForConfig of Some e \<Rightarrow> (Some e, []) | None \<Rightarrow> (None, [InformerStarted r]))"

text \<open>The handler that the informer runs: \<open>DeleteFunc\<close> on the reconciler's queue, which may be nil.\<close>

definition informer_DeleteFunc :: "fluxJobReconciler \<Rightarrow> faults \<Rightarrow> 'q deletedObj \<Rightarrow> sys \<Rightarrow> sys go" where
  "informer_DeleteFunc r f obj s =
     (case fr_Queue r of
        Some q \<Rightarrow> DeleteFunc f q obj s
      | None \<Rightarrow>
         (case obj of
            DeletedFinalStateUnknown \<Rightarrow> Panic ''interface conversion''
          | DeletedPod p \<Rightarrow>
             (case label_get (pod_Labels p) FluxJobIdLabel of
                None \<Rightarrow> Ret s | Some _ \<Rightarrow> Panic ''nil pointer dereference'')))"

section \<open>The program\<close>

record 'q mainEnv =
  en_otherFlags :: otherFlags
  en_restConfig :: bool
  en_NewManager :: "managerOptions \<Rightarrow> go_error option"
  en_HTTPClientFor :: "go_error option"
  en_RESTClientForGVK :: "go_error option"
  en_pool :: "go_error option"
  en_riverClient :: "riverConfig \<Rightarrow> go_error option"
  en_riverStart :: "go_error option"
  en_NewClient :: "string \<Rightarrow> (string \<Rightarrow> string \<Rightarrow> go_error option) option \<times> go_error option"
  en_cluster :: "'q clusterOps"
  en_quantity :: "'q quantityOps"
  en_create :: "go_error option"
  en_write :: "go_error option"
  en_read :: "go_error option"
  en_builder :: "go_error option"
  en_webhooks :: string
  en_NewForConfig :: "go_error option"
  en_healthz :: "go_error option"
  en_readyz :: "go_error option"
  en_Start :: "go_error option option"
  en_riverStop :: "go_error option"

datatype outcome = Exit int | Panicked string | Running | Blocked | Returned

text \<open>
  A channel of a context, nil for \<open>context.Background()\<close>; a receive ends when the channel is
  closed.
\<close>

datatype go_context = Background | WithCancel bool

fun ctx_Done :: "go_context \<Rightarrow> bool option" where
  "ctx_Done Background = None"
| "ctx_Done (WithCancel cancelled) = Some cancelled"

definition receives :: "bool option \<Rightarrow> bool" where
  "receives ch \<longleftrightarrow> ch = Some True"

definition log_error :: "string \<Rightarrow> go_error option \<Rightarrow> mainEvent list" where
  "log_error msg err = (case err of None \<Rightarrow> [] | Some e \<Rightarrow> [LogError msg e])"

text \<open>From \<open>mgr.Start\<close> on: \<open>None\<close> is a manager that still runs.\<close>

definition main_run :: "'q mainEnv \<Rightarrow> go_context \<Rightarrow> mainEvent list \<Rightarrow> outcome \<times> mainEvent list" where
  "main_run env ctx done =
     (case en_Start env of
        None \<Rightarrow> (Running, [LogInfo ''starting manager''])
      | Some (Some e) \<Rightarrow> (Exit 1, [LogInfo ''starting manager'', LogError ''problem running manager'' e])
      | Some None \<Rightarrow>
         (let log = LogInfo ''starting manager'' # QueueStopped #
                log_error ''Failed to stop FluxQueue'' (queue_Stop (Some (en_riverStop env)))
          in if receives (ctx_Done ctx) then (Returned, log @ done) else (Blocked, log)))"

text \<open>From the health checks on. \<open>defer queue.Pool.Close()\<close> reads the pool of the queue at once.\<close>

definition main_checks :: "'q mainEnv \<Rightarrow> go_context \<Rightarrow> fluxJobReconciler \<Rightarrow> outcome \<times> mainEvent list" where
  "main_checks env ctx r =
     (case en_healthz env of
        Some e \<Rightarrow> (Exit 1, [LogError ''unable to set up health check'' e])
      | None \<Rightarrow>
         (case en_readyz env of
            Some e \<Rightarrow> (Exit 1, [LogError ''unable to set up ready check'' e])
          | None \<Rightarrow>
             (case fr_Queue r of
                None \<Rightarrow> (Panicked ''nil pointer dereference'', [FluxionClosed])
              | Some q \<Rightarrow> main_run env ctx [PoolClosed, FluxionClosed])))"

definition main_setup :: "'q mainEnv \<Rightarrow> go_context \<Rightarrow> fluxJobReconciler \<Rightarrow> outcome \<times> mainEvent list" where
  "main_setup env ctx r =
     (case SetupWithManager (en_builder env) r of
        (Some e, ev) \<Rightarrow> (Exit 1, ev @ [LogError ''unable to create controller'' e])
      | (None, ev) \<Rightarrow>
         (let hook = (if en_webhooks env \<noteq> ''false'' then [WebhookRegistered ''/mutate-v1-sidecar''] else []);
              (err, informer) = SetupEvents (en_NewForConfig env) r;
              (out, log) = main_checks env ctx r
          in (out, ev @ hook @ informer @ log_error ''Failed to setup events'' err @ log)))"

text \<open>
  \<open>fluxCli.Close\<close> in the deferred call panics on a nil client. The error that is tested after
  \<open>SetDuration\<close> is still the one of \<open>fluxion.NewClient\<close>.
\<close>

definition main_fluxion ::
  "'q mainEnv \<Rightarrow> go_context \<Rightarrow> mainFlags \<Rightarrow> queue option \<Rightarrow> (string \<rightharpoonup> string) \<Rightarrow> (outcome \<times> mainEvent list) \<times> (string \<rightharpoonup> string)" where
  "main_fluxion env ctx m queue files =
     (let (fluxCli, err) = en_NewClient env ''127.0.0.1:4242'';
          r = SetDuration (mf_duration m) (NewFluxJobReconciler queue fluxCli);
          log = log_error ''creating Fluxion client'' err @ log_error ''creating FluxJob reconciler'' err
      in case InitFluxion (en_cluster env) (en_quantity env) (en_create env) (en_write env) (en_read env) (fr_Fluxion r)
                (mf_policy m) files of
           Panic msg \<Rightarrow> ((Panicked msg, log), files)
         | Ret (err, files) \<Rightarrow>
            (let log = log @ log_error ''initializing Fluxion'' err
             in case fluxCli of
                  None \<Rightarrow> ((Panicked ''nil pointer dereference'', log), files)
                | Some _ \<Rightarrow> (case main_setup env ctx r of (out, ev) \<Rightarrow> ((out, log @ ev), files))))"

definition queue_of :: "queue result \<Rightarrow> queue option" where
  "queue_of q = (case q of Inl e \<Rightarrow> None | Inr q \<Rightarrow> Some q)"

definition error_of :: "'a result \<Rightarrow> go_error option" where
  "error_of q = (case q of Inl e \<Rightarrow> Some e | Inr q \<Rightarrow> None)"

definition main_manager ::
  "'q mainEnv \<Rightarrow> mainFlags \<Rightarrow> (string \<rightharpoonup> string) \<Rightarrow> (outcome \<times> mainEvent list) \<times> (string \<rightharpoonup> string)" where
  "main_manager env m files =
     (if \<not> en_restConfig env then ((Exit 1, []), files)
      else case en_NewManager env (manager_options m) of
             Some e \<Rightarrow> ((Exit 1, [LogError ''unable to start manager'' e]), files)
           | None \<Rightarrow>
              (let ctx = Background;
                   queue = NewQueue (en_pool env) (en_riverClient env) (en_riverStart env);
                   log = log_error ''unable to create REST HTTP client'' (en_HTTPClientFor env) @
                     log_error ''unable to create REST client'' (en_RESTClientForGVK env) @
                     log_error ''Issue with Flux queue'' (error_of queue)
               in case main_fluxion env ctx m (queue_of queue) files of
                    ((out, ev), files) \<Rightarrow> ((out, log @ ev), files)))"

definition main :: "'q mainEnv \<Rightarrow> string list \<Rightarrow> (string \<rightharpoonup> string) \<Rightarrow> (outcome \<times> mainEvent list) \<times> (string \<rightharpoonup> string)" where
  "main env args files =
     (case parse_flags (en_otherFlags env) (flag_set default_flags) args of
        HelpRequested \<Rightarrow> ((Exit 0, []), files)
      | UsageError msg \<Rightarrow> ((Exit 2, []), files)
      | Parsed fl \<Rightarrow> main_manager env (main_flags fl) files)"

section \<open>Flags are read back\<close>

text \<open>The arguments that spell a configuration: text in an argument of its own, the rest after \<open>=\<close>.\<close>

definition show_bool :: "bool \<Rightarrow> string" where
  "show_bool b = (if b then ''true'' else ''false'')"

definition args_of :: "mainFlags \<Rightarrow> string list" where
  "args_of m = [''--metrics-bind-address'', mf_metricsAddr m, ''--health-probe-bind-address'', mf_probeAddr m,
     ''-policy'', mf_policy m, ''--leader-elect='' @ show_bool (mf_leaderElect m), ''--duration='' @ itoa (mf_duration m),
     ''--metrics-secure='' @ show_bool (mf_secureMetrics m), ''--enable-http2='' @ show_bool (mf_enableHTTP2 m)]"

lemma classify_args:
  "classify ''--metrics-bind-address'' = FlagArg ''metrics-bind-address'' None"
  "classify ''--health-probe-bind-address'' = FlagArg ''health-probe-bind-address'' None"
  "classify ''-policy'' = FlagArg ''policy'' None"
  "classify (''--leader-elect='' @ v) = FlagArg ''leader-elect'' (Some v)"
  "classify (''--duration='' @ v) = FlagArg ''duration'' (Some v)"
  "classify (''--metrics-secure='' @ v) = FlagArg ''metrics-secure'' (Some v)"
  "classify (''--enable-http2='' @ v) = FlagArg ''enable-http2'' (Some v)"
  by (simp_all add: classify_def split_value_def Let_def)

lemmas classify_simps [simp] = classify_args[unfolded append_Cons append_Nil]

lemma parseBool_show [simp]: "parseBool (show_bool b) = Some b"
  by (simp add: parseBool_def show_bool_def)

section \<open>How the program ends\<close>

lemma log_error_set [simp]: "ev \<in> set (log_error msg err) \<longleftrightarrow> (\<exists>e. err = Some e \<and> ev = LogError msg e)"
  by (auto simp: log_error_def split: option.splits)

lemma NewQueue_easy: "NewQueue a b c = Inr q \<Longrightarrow> q = easy_queue 1"
  by (auto simp: NewQueue_def EasyBackfill_def easy_GetReservationDepth_def Let_def split: option.splits sum.splits if_splits)

text \<open>
  What each stage of \<open>main\<close> adds to the log: \<open>ended\<close> is what holds of the outcome and the log
  of every run in the background context.
\<close>

definition ended :: "outcome \<Rightarrow> mainEvent list \<Rightarrow> bool" where
  "ended out log \<longleftrightarrow> out \<noteq> Returned \<and> PoolClosed \<notin> set log \<and> (QueueStopped \<in> set log \<longleftrightarrow> out = Blocked) \<and>
     (LogInfo ''starting manager'' \<in> set log \<longrightarrow> out \<in> {Running, Blocked, Exit 1}) \<and>
     (out \<in> {Running, Blocked} \<longrightarrow> LogInfo ''starting manager'' \<in> set log)"

lemma main_run_ended: "main_run env Background ds = (out, log) \<Longrightarrow> ended out log"
  by (auto simp: main_run_def ended_def receives_def Let_def split: option.splits)

lemma main_checks_ended: "main_checks env Background r = (out, log) \<Longrightarrow> ended out log"
  by (auto simp: main_checks_def split: option.splits dest: main_run_ended) (auto simp: ended_def)

lemma ended_prefix:
  "ended out log \<Longrightarrow> (\<And>e. e \<in> set pre \<Longrightarrow> e \<notin> {PoolClosed, QueueStopped, LogInfo ''starting manager''}) \<Longrightarrow> ended out (pre @ log)"
  by (auto simp: ended_def)

lemma main_setup_ended:
  assumes "main_setup env Background r = (out, log)"
  shows "ended out log"
proof (cases "en_builder env")
  case None
  obtain o' l' where c: "main_checks env Background r = (o', l')" by (cases "main_checks env Background r")
  let ?hook = "if en_webhooks env \<noteq> ''false'' then [WebhookRegistered ''/mutate-v1-sidecar''] else []"
  have "out = o'" "log = ([ControllerAdded r] @ ?hook @ snd (SetupEvents (en_NewForConfig env) r) @
      log_error ''Failed to setup events'' (fst (SetupEvents (en_NewForConfig env) r))) @ l'"
    using assms None c by (auto simp: main_setup_def SetupWithManager_def Let_def split: prod.splits)
  then show ?thesis
    using main_checks_ended[OF c] by (auto simp only: intro!: ended_prefix) (auto simp: SetupEvents_def split: option.splits if_splits)
next
  case (Some e)
  with assms show ?thesis by (auto simp: main_setup_def SetupWithManager_def ended_def)
qed

lemma main_fluxion_ended:
  assumes "main_fluxion env Background m queue files = ((out, log), files')"
  shows "ended out log"
  using assms
  by (auto simp: main_fluxion_def Let_def split: prod.splits go.splits option.splits intro!: ended_prefix dest!: main_setup_ended)
    (auto simp: ended_def)

lemma main_ended:
  assumes "main env args files = ((out, log), files')"
  shows "ended out log"
  using assms
  by (auto simp: main_def main_manager_def Let_def split: prod.splits parsed.splits option.splits if_splits intro!: ended_prefix
      dest!: main_fluxion_ended)
    (auto simp: ended_def)

lemma main_checks_started:
  "main_checks env ctx r = (out, log) \<Longrightarrow> LogInfo ''starting manager'' \<in> set log \<Longrightarrow> \<exists>q. fr_Queue r = Some q"
  by (auto simp: main_checks_def split: option.splits)

lemma main_setup_started:
  assumes "main_setup env ctx r = (out, log)" "LogInfo ''starting manager'' \<in> set log"
  shows "(\<exists>q. fr_Queue r = Some q) \<and> ControllerAdded r \<in> set log \<and>
    (WebhookRegistered ''/mutate-v1-sidecar'' \<in> set log \<or> en_webhooks env = ''false'') \<and>
    (InformerStarted r \<in> set log \<or> (\<exists>e. en_NewForConfig env = Some e \<and> LogError ''Failed to setup events'' e \<in> set log))"
  using assms
  by (auto simp: main_setup_def SetupWithManager_def SetupEvents_def Let_def split: option.splits prod.splits if_splits
      dest: main_checks_started)

lemma main_fluxion_started:
  assumes "main_fluxion env ctx m queue files = ((out, log), files')" "LogInfo ''starting manager'' \<in> set log"
  shows "\<exists>init err q. fst (en_NewClient env ''127.0.0.1:4242'') = Some init \<and> queue = Some q \<and>
    InitFluxion (en_cluster env) (en_quantity env) (en_create env) (en_write env) (en_read env) (Some init)
       (mf_policy m) files = Ret (err, files') \<and> set (log_error ''initializing Fluxion'' err) \<subseteq> set log \<and>
    ControllerAdded \<lparr>fr_Queue = Some q, fr_Fluxion = Some init, fr_Duration = mf_duration m\<rparr> \<in> set log"
  using assms
  by (auto simp: main_fluxion_def Let_def NewFluxJobReconciler_def SetDuration_def split: prod.splits go.splits option.splits
      dest!: main_setup_started)

text \<open>A run that starts the manager went through every stage.\<close>

lemma main_started:
  assumes "main env args files = ((out, log), files')" "LogInfo ''starting manager'' \<in> set log"
  shows "\<exists>fl init err. parse_flags (en_otherFlags env) (flag_set default_flags) args = Parsed fl \<and>
    NewQueue (en_pool env) (en_riverClient env) (en_riverStart env) = Inr (easy_queue 1) \<and>
    fst (en_NewClient env ''127.0.0.1:4242'') = Some init \<and>
    InitFluxion (en_cluster env) (en_quantity env) (en_create env) (en_write env) (en_read env) (Some init)
       (mf_policy (main_flags fl)) files = Ret (err, files') \<and>
    set (log_error ''initializing Fluxion'' err) \<subseteq> set log \<and>
    ControllerAdded \<lparr>fr_Queue = Some (easy_queue 1), fr_Fluxion = Some init, fr_Duration = mf_duration (main_flags fl)\<rparr> \<in> set log"
proof -
  from assms obtain fl where fl: "parse_flags (en_otherFlags env) (flag_set default_flags) args = Parsed fl"
    and m: "main_manager env (main_flags fl) files = ((out, log), files')"
    by (auto simp: main_def split: parsed.splits)
  let ?q = "NewQueue (en_pool env) (en_riverClient env) (en_riverStart env)"
  from m assms(2) have "\<exists>log'. main_fluxion env Background (main_flags fl) (queue_of ?q) files = ((out, log'), files') \<and>
      LogInfo ''starting manager'' \<in> set log' \<and> set log' \<subseteq> set log"
    by (auto simp: main_manager_def Let_def split: if_splits option.splits prod.splits)
  then obtain log' where l: "main_fluxion env Background (main_flags fl) (queue_of ?q) files = ((out, log'), files')"
    "LogInfo ''starting manager'' \<in> set log'" "set log' \<subseteq> set log" by blast
  from main_fluxion_started[OF l(1,2)] obtain init err q where i:
    "fst (en_NewClient env ''127.0.0.1:4242'') = Some init" "queue_of ?q = Some q"
    "InitFluxion (en_cluster env) (en_quantity env) (en_create env) (en_write env) (en_read env) (Some init)
       (mf_policy (main_flags fl)) files = Ret (err, files')" "set (log_error ''initializing Fluxion'' err) \<subseteq> set log'"
    "ControllerAdded \<lparr>fr_Queue = Some q, fr_Fluxion = Some init, fr_Duration = mf_duration (main_flags fl)\<rparr> \<in> set log'" by blast
  have "?q = Inr q" using i(2) by (auto simp: queue_of_def split: sum.splits)
  with NewQueue_easy[OF this] fl i l(3) show ?thesis by blast
qed

text \<open>Without a queue, a controller that was added and passed the checks ends in the deferred call.\<close>

lemma main_setup_no_queue:
  "main_setup env ctx r = (out, log) \<Longrightarrow> fr_Queue r = None \<Longrightarrow> ControllerAdded r' \<in> set log \<Longrightarrow>
    en_healthz env = None \<Longrightarrow> en_readyz env = None \<Longrightarrow> out = Panicked ''nil pointer dereference''"
  by (auto simp: main_setup_def SetupWithManager_def main_checks_def Let_def split: option.splits prod.splits)

lemma main_fluxion_no_queue:
  "main_fluxion env ctx m None files = ((out, log), files') \<Longrightarrow> ControllerAdded r' \<in> set log \<Longrightarrow>
    en_healthz env = None \<Longrightarrow> en_readyz env = None \<Longrightarrow> out = Panicked ''nil pointer dereference''"
  by (auto simp: main_fluxion_def NewFluxJobReconciler_def SetDuration_def Let_def split: prod.splits go.splits option.splits
      dest: main_setup_no_queue)

section \<open>A working environment\<close>

definition ex_main :: "int mainEnv" where
  "ex_main = \<lparr>en_otherFlags = Map.empty, en_restConfig = True, en_NewManager = (\<lambda>_. None), en_HTTPClientFor = None,
     en_RESTClientForGVK = None, en_pool = None, en_riverClient = (\<lambda>_. None), en_riverStart = None,
     en_NewClient = (\<lambda>_. (Some (\<lambda>_ _. None), None)), en_cluster = ex_api, en_quantity = nano_ops, en_create = None, en_write = None,
     en_read = None, en_builder = None, en_webhooks = [], en_NewForConfig = None, en_healthz = None, en_readyz = None,
     en_Start = Some None, en_riverStop = None\<rparr>"

lemma ex_NewQueue: "NewQueue None (\<lambda>_. None) None = Inr (easy_queue 1)"
  by (simp add: NewQueue_def EasyBackfill_def easy_AddWorkers_eq easy_GetReservationDepth_def Let_def)

lemma ex_main_fluxion:
  "\<exists>files. InitFluxion ex_api nano_ops None None None (Some (\<lambda>_ _. None)) policy Map.empty = Ret (None, files)"
proof -
  obtain g where "cluster_graph ex_api nano_ops [] = Inr g" using ex_cluster_graph by blast
  then show ?thesis by (simp add: InitFluxion_def createInClusterJGF_def WriteJGF_def ToBytes_def MarshalIndent_def)
qed

lemmas main_stages = main_def main_manager_def main_fluxion_def main_setup_def main_checks_def main_run_def
  SetupWithManager_def SetupEvents_def log_error_def NewFluxJobReconciler_def SetDuration_def queue_of_def error_of_def

lemma ex_main_runs:
  "\<exists>log files. main ex_main [] Map.empty = ((Blocked, log), files) \<and> LogInfo ''starting manager'' \<in> set log \<and>
    QueueStopped \<in> set log \<and> (\<forall>e. LogError ''initializing Fluxion'' e \<notin> set log)"
proof -
  obtain files where f: "InitFluxion ex_api nano_ops None None None (Some (\<lambda>_ _. None)) [] Map.empty = Ret (None, files)"
    using ex_main_fluxion by blast
  have "mf_policy (main_flags (flag_set default_flags)) = []" by (simp add: main_flags_def string_flag_def flag_set_def default_flags_def)
  with f show ?thesis
    by (simp add: main_stages ex_main_def ex_NewQueue queue_Stop_def receives_def Let_def)
qed

section \<open>Properties\<close>

text \<open>The flags of the manager are read back from the command line: for every configuration there are
  arguments, with string values that may themselves start with a dash, from which \<open>flag.Parse\<close>
  fills the variables of \<open>main\<close> with exactly that configuration.\<close>

lemma main_flags_roundtrip:
  assumes "- (2 ^ 63) \<le> mf_duration m" "mf_duration m < 2 ^ 63"
  shows "\<exists>fl. parse_flags other (flag_set default_flags) (args_of m) = Parsed fl \<and> main_flags fl = m"
  using parseInt0_itoa[OF assms]
  by (simp add: args_of_def flag_set_def default_flags_def take_value_def is_bool_def main_flags_def string_flag_def bool_flag_def
      int_flag_def)

text \<open>C27: the process never ends by returning from \<open>main\<close>: whatever the libraries answer, a stopped
  manager leaves it blocked on the background context with the queue's workers stopped, and the
  deferred call that should close the database pool never runs.\<close>
theorem main_never_returns:
  assumes "main env args files = ((out, log), files')"
  shows "out \<noteq> Returned \<and> PoolClosed \<notin> set log \<and> (QueueStopped \<in> set log \<longleftrightarrow> out = Blocked)"
  using main_ended[OF assms] by (simp add: ended_def)

theorem main_never_returns_witness:
  "\<exists>log files. main ex_main [] Map.empty = ((Blocked, log), files) \<and> PoolClosed \<notin> set log"
  using ex_main_runs main_never_returns[of ex_main "[]" Map.empty] by blast

text \<open>C17: when the manager starts and the initialisation of Fluxion was not logged as failed, the
  controller runs with the easy backfill queue and a Fluxion that accepted the graph of the cluster
  under the policy of the command line, and the service hands out that graph.\<close>
theorem main_starts_with_fluxion:
  assumes "main env args files = ((out, log), files')" "LogInfo ''starting manager'' \<in> set log"
    and "\<forall>e. LogError ''initializing Fluxion'' e \<notin> set log"
  shows "\<exists>fl init g b. parse_flags (en_otherFlags env) (flag_set default_flags) args = Parsed fl \<and>
    ControllerAdded \<lparr>fr_Queue = Some (easy_queue 1), fr_Fluxion = Some init, fr_Duration = mf_duration (main_flags fl)\<rparr> \<in> set log \<and>
    cluster_graph (en_cluster env) (en_quantity env) [] = Inr g \<and> ToBytes g = Ret b \<and>
    init (mf_policy (main_flags fl)) b = None \<and> GetResources None files' = (\<lparr>rp_Graph = b\<rparr>, None)"
proof -
  from main_started[OF assms(1,2)] obtain fl init err where st:
    "parse_flags (en_otherFlags env) (flag_set default_flags) args = Parsed fl"
    "InitFluxion (en_cluster env) (en_quantity env) (en_create env) (en_write env) (en_read env) (Some init)
       (mf_policy (main_flags fl)) files = Ret (err, files')"
    "set (log_error ''initializing Fluxion'' err) \<subseteq> set log"
    "ControllerAdded \<lparr>fr_Queue = Some (easy_queue 1), fr_Fluxion = Some init, fr_Duration = mf_duration (main_flags fl)\<rparr> \<in> set log"
    by blast
  have "err = None" using st(3) assms(3) by (cases err) (auto simp: log_error_def)
  then show ?thesis using InitFluxion_serves[of "en_cluster env"] st by fastforce
qed

theorem main_starts_with_fluxion_witness:
  "\<exists>log files b. main ex_main [] Map.empty = ((Blocked, log), files) \<and> GetResources None files = (\<lparr>rp_Graph = b\<rparr>, None)"
  using ex_main_runs main_starts_with_fluxion[of ex_main "[]" Map.empty] by blast

text \<open>Without a queue the manager never starts: an error of \<open>NewQueue\<close> is logged and the setup goes
  on, until \<open>defer queue.Pool.Close()\<close> dereferences the nil queue, unless an earlier step ended
  the process.\<close>

lemma main_without_queue:
  assumes "NewQueue (en_pool env) (en_riverClient env) (en_riverStart env) = Inl e" "main env args files = ((out, log), files')"
  shows "LogInfo ''starting manager'' \<notin> set log \<and> out \<notin> {Running, Blocked} \<and>
    (ControllerAdded r \<in> set log \<and> en_healthz env = None \<and> en_readyz env = None \<longrightarrow> out = Panicked ''nil pointer dereference'')"
proof -
  have "LogInfo ''starting manager'' \<notin> set log" using main_started[OF assms(2)] assms(1) by auto
  moreover from this have "out \<notin> {Running, Blocked}" using main_ended[OF assms(2)] by (auto simp: ended_def)
  moreover have "out = Panicked ''nil pointer dereference''"
    if "ControllerAdded r \<in> set log" "en_healthz env = None" "en_readyz env = None"
    using assms that by (auto simp: main_def main_manager_def queue_of_def Let_def dest: main_fluxion_no_queue
        split: parsed.splits if_splits option.splits prod.splits)
  ultimately show ?thesis by blast
qed

end
