(* ===== verification/Scheme.thy ===== *)
theory Scheme
  imports Flux_Types
begin

text \<open>
  The registration of the FluxJob kinds: \<open>api/v1alpha1/groupversion_info.go\<close>, the
  \<open>init\<close> of \<open>fluxjob_types.go\<close> and the \<open>init\<close> of \<open>cmd/manager/main.go\<close>. The
  scheme and its builder are types of the Kubernetes libraries: their operations are the fields of
  \<open>schemeOps\<close>, and \<open>scheme_lib\<close> states what registering promises. An object is named by
  its Go type, as the library derives the kind from it.
\<close>

section \<open>Definitions\<close>

record groupVersion =
  gv_Group :: string
  gv_Version :: string

record ('b, 's) schemeOps =
  so_Builder :: "groupVersion \<Rightarrow> 'b"
  so_Register :: "string list \<Rightarrow> 'b \<Rightarrow> 'b"
  so_AddToScheme :: "'b \<Rightarrow> 's \<Rightarrow> go_error option \<times> 's"
  so_NewScheme :: 's
  so_clientgo :: "'s \<Rightarrow> go_error option \<times> 's"

definition GroupVersion :: groupVersion where
  "GroupVersion = \<lparr>gv_Group = ''jobs.converged-computing.org'', gv_Version = ''v1alpha1''\<rparr>"

definition SchemeBuilder :: "('b, 's) schemeOps \<Rightarrow> 'b" where
  "SchemeBuilder S = so_Builder S GroupVersion"

text \<open>The package's \<open>init\<close> updates the builder; \<open>AddToScheme\<close> is a method value of it.\<close>

definition types_init :: "('b, 's) schemeOps \<Rightarrow> 'b \<Rightarrow> 'b" where
  "types_init S = so_Register S [''FluxJob'', ''FluxJobList'']"

definition AddToScheme :: "('b, 's) schemeOps \<Rightarrow> 's \<Rightarrow> go_error option \<times> 's" where
  "AddToScheme S = so_AddToScheme S (types_init S (SchemeBuilder S))"

text \<open>\<open>utilruntime.Must\<close> panics on an error.\<close>

definition Must :: "go_error option \<times> 's \<Rightarrow> 's go" where
  "Must r = (case r of (Some e, s) \<Rightarrow> Panic (error_text e) | (None, s) \<Rightarrow> Ret s)"

definition main_init :: "('b, 's) schemeOps \<Rightarrow> 's go" where
  "main_init S =
     (case Must (so_clientgo S (so_NewScheme S)) of
        Panic m \<Rightarrow> Panic m
      | Ret s \<Rightarrow> Must (AddToScheme S s))"

section \<open>What is registered\<close>

locale scheme_lib =
  fixes S :: "('b, 's) schemeOps" and known :: "'s \<Rightarrow> (groupVersion \<times> string) set"
    and objects :: "'b \<Rightarrow> groupVersion \<times> string set"
  assumes new_builder: "objects (so_Builder S gv) = (gv, {})"
    and register: "objects (so_Register S ks b) = apsnd (\<lambda>A. A \<union> set ks) (objects b)"
    and add_ok: "so_AddToScheme S b s = (None, s') \<Longrightarrow> known s' \<supseteq> known s \<union> {fst (objects b)} \<times> snd (objects b)"
begin

lemma main_init_known:
  assumes "main_init S = Ret s"
  shows "(GroupVersion, ''FluxJob'') \<in> known s \<and> (GroupVersion, ''FluxJobList'') \<in> known s"
proof -
  from assms obtain s0 where "AddToScheme S s0 = (None, s)"
    by (auto simp: main_init_def Must_def split: prod.splits option.splits)
  from add_ok[OF this[unfolded AddToScheme_def]] show ?thesis
    by (auto simp: types_init_def SchemeBuilder_def new_builder register)
qed

end

text \<open>A library that keeps the kinds in lists, as the builder does.\<close>

definition list_scheme ::
  "(groupVersion \<times> string list, (groupVersion \<times> string) list) schemeOps" where
  "list_scheme = \<lparr>so_Builder = (\<lambda>gv. (gv, [])), so_Register = (\<lambda>ks (gv, os). (gv, os @ ks)),
     so_AddToScheme = (\<lambda>(gv, os) s. (None, s @ map (Pair gv) os)), so_NewScheme = [], so_clientgo = Pair None\<rparr>"

interpretation list_lib: scheme_lib list_scheme set "apsnd set"
  by unfold_locales (auto simp: list_scheme_def split: prod.splits)

lemma main_init_registers:
  "\<exists>s. main_init list_scheme = Ret s \<and> (GroupVersion, ''FluxJob'') \<in> set s"
proof -
  have "\<exists>s. main_init list_scheme = Ret s"
    by (simp add: main_init_def Must_def AddToScheme_def types_init_def SchemeBuilder_def list_scheme_def)
  then show ?thesis using list_lib.main_init_known by blast
qed

text \<open>A failed registration stops the program before \<open>main\<close> runs.\<close>

lemma main_init_panics:
  "so_clientgo S (so_NewScheme S) = (None, s) \<Longrightarrow> fst (AddToScheme S s) = Some e \<Longrightarrow> main_init S = Panic (error_text e)"
  by (auto simp: main_init_def Must_def split: prod.splits)

end
