(* ===== verification/Grpc_Stubs.thy ===== *)
theory Grpc_Stubs
  imports Service
begin

text \<open>
  The generated stubs of the external service, \<open>pkg/service-grpc/service_grpc.pb.go\<close>: the client
  methods, the handlers and their table, the server that implements nothing, and the messages with
  their getters of \<open>service.pb.go\<close>. A value of Go type \<open>interface{}\<close> is a \<open>message\<close>, and
  a message pointer an option. The connection of a client is the parameter \<open>invoke\<close>; the locale
  \<open>grpc_conn\<close> states what gRPC promises of it: a call fails with a status of the transport, or the request
  is encoded, the handler that the server registered under the method's full name decodes it into a new
  message, and the reply is decoded into the client's message, or the error is returned as a status.
  Encoding and decoding may fail as well, for a string that is no UTF-8 or a message above the size limit.
\<close>

section \<open>Messages\<close>

record groupRequest =
  gq_Group :: string

datatype message =
    MGroupRequest groupRequest
  | MGroupResponse groupResponse
  | MResourceRequest
  | MResourceResponse resourceResponse

definition GetGroup_field :: "groupRequest option \<Rightarrow> string" where
  "GetGroup_field x = (case x of Some m \<Rightarrow> gq_Group m | None \<Rightarrow> [])"

definition GetName_field :: "groupResponse option \<Rightarrow> string" where
  "GetName_field x = (case x of Some m \<Rightarrow> gp_Name m | None \<Rightarrow> [])"

definition GetSize_field :: "groupResponse option \<Rightarrow> int64" where
  "GetSize_field x = (case x of Some m \<Rightarrow> gp_Size m | None \<Rightarrow> 0)"

definition GetGraph_field :: "resourceResponse option \<Rightarrow> string" where
  "GetGraph_field x = (case x of Some m \<Rightarrow> rp_Graph m | None \<Rightarrow> [])"

text \<open>\<open>new(T)\<close> for the message types.\<close>

definition new_GroupResponse :: groupResponse where "new_GroupResponse = \<lparr>gp_Name = [], gp_Size = 0\<rparr>"
definition new_ResourceResponse :: resourceResponse where "new_ResourceResponse = \<lparr>rp_Graph = []\<rparr>"
definition new_GroupRequest :: groupRequest where "new_GroupRequest = \<lparr>gq_Group = []\<rparr>"

section \<open>The client\<close>

text \<open>\<open>Invoke\<close> takes the method's name, the request and the message to fill.\<close>

type_synonym invoke = "string \<Rightarrow> message \<Rightarrow> message \<Rightarrow> message result"

definition client_GetResources :: "invoke \<Rightarrow> resourceResponse option \<times> go_error option" where
  "client_GetResources cc =
     (case cc ''/service.ExternalPluginService/GetResources'' MResourceRequest (MResourceResponse new_ResourceResponse) of
        Inl e \<Rightarrow> (None, Some e)
      | Inr (MResourceResponse out) \<Rightarrow> (Some out, None)
      | Inr _ \<Rightarrow> (Some new_ResourceResponse, None))"

definition client_ListGroups :: "invoke \<Rightarrow> groupRequest \<Rightarrow> groupResponse option \<times> go_error option" where
  "client_ListGroups cc i =
     (case cc ''/service.ExternalPluginService/ListGroups'' (MGroupRequest i) (MGroupResponse new_GroupResponse) of
        Inl e \<Rightarrow> (None, Some e)
      | Inr (MGroupResponse out) \<Rightarrow> (Some out, None)
      | Inr _ \<Rightarrow> (Some new_GroupResponse, None))"

definition client_GetGroup :: "invoke \<Rightarrow> groupRequest \<Rightarrow> groupResponse option \<times> go_error option" where
  "client_GetGroup cc i =
     (case cc ''/service.ExternalPluginService/GetGroup'' (MGroupRequest i) (MGroupResponse new_GroupResponse) of
        Inl e \<Rightarrow> (None, Some e)
      | Inr (MGroupResponse out) \<Rightarrow> (Some out, None)
      | Inr _ \<Rightarrow> (Some new_GroupResponse, None))"

section \<open>The server\<close>

record serviceServer =
  sv_GetResources :: "resourceResponse option \<times> go_error option"
  sv_ListGroups :: "groupRequest \<Rightarrow> groupResponse option \<times> go_error option"
  sv_GetGroup :: "groupRequest \<Rightarrow> groupResponse option \<times> go_error option"

definition UnimplementedServer :: serviceServer where
  "UnimplementedServer =
     \<lparr>sv_GetResources = (None, Some (Errorf ''method GetResources not implemented'')),
      sv_ListGroups = (\<lambda>_. (None, Some (Errorf ''method ListGroups not implemented''))),
      sv_GetGroup = (\<lambda>_. (None, Some (Errorf ''method GetGroup not implemented'')))\<rparr>"

text \<open>The service of \<open>service.go\<close>, over the files of the process; it embeds the one above.\<close>

definition ExternalService :: "go_error option \<Rightarrow> (string \<rightharpoonup> string) \<Rightarrow> serviceServer" where
  "ExternalService readErr files = UnimplementedServer
     \<lparr>sv_GetResources := apfst Some (GetResources readErr files),
      sv_ListGroups := (\<lambda>i. apfst Some (ListGroups (gq_Group i))),
      sv_GetGroup := (\<lambda>i. apfst Some (GetGroup (gq_Group i)))\<rparr>"

type_synonym unaryHandler = "message \<Rightarrow> (message option \<times> go_error option) go"

record serverInfo =
  si_Server :: serviceServer
  si_FullMethod :: string

type_synonym interceptor = "message \<Rightarrow> serverInfo \<Rightarrow> unaryHandler \<Rightarrow> (message option \<times> go_error option) go"
type_synonym methodHandler =
  "serviceServer \<Rightarrow> (message \<Rightarrow> message result) \<Rightarrow> interceptor option \<Rightarrow> (message option \<times> go_error option) go"

text \<open>The assertion on the request's type panics when an interceptor passes another message.\<close>

definition GetResources_Handler :: methodHandler where
  "GetResources_Handler srv dec interceptor =
     (case dec MResourceRequest of
        Inl e \<Rightarrow> Ret (None, Some e)
      | Inr i \<Rightarrow>
         (let handler = (\<lambda>req. case req of
                MResourceRequest \<Rightarrow> Ret (apfst (map_option MResourceResponse) (sv_GetResources srv))
              | _ \<Rightarrow> Panic ''interface conversion'')
          in case interceptor of
               None \<Rightarrow> handler i
             | Some f \<Rightarrow> f i \<lparr>si_Server = srv, si_FullMethod = ''/service.ExternalPluginService/GetResources''\<rparr> handler))"

definition ListGroups_Handler :: methodHandler where
  "ListGroups_Handler srv dec interceptor =
     (case dec (MGroupRequest new_GroupRequest) of
        Inl e \<Rightarrow> Ret (None, Some e)
      | Inr i \<Rightarrow>
         (let handler = (\<lambda>req. case req of
                MGroupRequest r \<Rightarrow> Ret (apfst (map_option MGroupResponse) (sv_ListGroups srv r))
              | _ \<Rightarrow> Panic ''interface conversion'')
          in case interceptor of
               None \<Rightarrow> handler i
             | Some f \<Rightarrow> f i \<lparr>si_Server = srv, si_FullMethod = ''/service.ExternalPluginService/ListGroups''\<rparr> handler))"

definition GetGroup_Handler :: methodHandler where
  "GetGroup_Handler srv dec interceptor =
     (case dec (MGroupRequest new_GroupRequest) of
        Inl e \<Rightarrow> Ret (None, Some e)
      | Inr i \<Rightarrow>
         (let handler = (\<lambda>req. case req of
                MGroupRequest r \<Rightarrow> Ret (apfst (map_option MGroupResponse) (sv_GetGroup srv r))
              | _ \<Rightarrow> Panic ''interface conversion'')
          in case interceptor of
               None \<Rightarrow> handler i
             | Some f \<Rightarrow> f i \<lparr>si_Server = srv, si_FullMethod = ''/service.ExternalPluginService/GetGroup''\<rparr> handler))"

record serviceDesc =
  sd_ServiceName :: string
  sd_Methods :: "(string \<times> methodHandler) list"
  sd_Metadata :: string

definition ServiceDesc :: serviceDesc where
  "ServiceDesc = \<lparr>sd_ServiceName = ''service.ExternalPluginService'',
     sd_Methods = [(''GetResources'', GetResources_Handler), (''ListGroups'', ListGroups_Handler), (''GetGroup'', GetGroup_Handler)],
     sd_Metadata = ''pkg/service-grpc/service.proto''\<rparr>"

definition RegisterExternalPluginServiceServer :: "(serviceDesc \<Rightarrow> serviceServer \<Rightarrow> 'g \<Rightarrow> 'g) \<Rightarrow> serviceServer \<Rightarrow> 'g \<Rightarrow> 'g" where
  "RegisterExternalPluginServiceServer registerService srv = registerService ServiceDesc srv"

section \<open>Through the connection\<close>

definition message_kind :: "message \<Rightarrow> nat" where
  "message_kind m = (case m of MGroupRequest _ \<Rightarrow> 0 | MGroupResponse _ \<Rightarrow> 1 | MResourceRequest \<Rightarrow> 2 | MResourceResponse _ \<Rightarrow> 3)"

definition full_method :: "string \<Rightarrow> string \<Rightarrow> string" where
  "full_method svc m = ''/'' @ svc @ ''/'' @ m"

lemma method_names:
  "''/service.ExternalPluginService/GetResources'' = full_method (sd_ServiceName ServiceDesc) ''GetResources''"
  "''/service.ExternalPluginService/ListGroups'' = full_method (sd_ServiceName ServiceDesc) ''ListGroups''"
  "''/service.ExternalPluginService/GetGroup'' = full_method (sd_ServiceName ServiceDesc) ''GetGroup''"
  by (simp_all add: full_method_def ServiceDesc_def)

lemma method_lookup:
  "map_of (sd_Methods ServiceDesc) ''GetResources'' = Some GetResources_Handler"
  "map_of (sd_Methods ServiceDesc) ''ListGroups'' = Some ListGroups_Handler"
  "map_of (sd_Methods ServiceDesc) ''GetGroup'' = Some GetGroup_Handler"
  by (simp_all add: ServiceDesc_def)

text \<open>
  \<open>enc\<close> and \<open>dec\<close> are the wire format, which reads what it wrote into a message of that
  type or refuses it. \<open>status\<close> is how an error of the service arrives at the client, and
  \<open>transport\<close> tells the statuses of the library: a lost connection, an expired deadline, a message it
  cannot encode or is not willing to read.
\<close>

locale grpc_conn =
  fixes enc :: "message \<Rightarrow> 'w result" and dec :: "'w \<Rightarrow> message \<Rightarrow> message result" and status :: "go_error \<Rightarrow> go_error"
    and transport :: "go_error \<Rightarrow> bool"
    and register :: "serviceDesc \<Rightarrow> serviceServer \<Rightarrow> 'g \<Rightarrow> 'g" and invoke :: "'g \<Rightarrow> invoke"
  assumes encoding: "enc x = Inl e \<Longrightarrow> transport e"
    and wire: "enc x = Inr w \<Longrightarrow> message_kind x = message_kind x' \<Longrightarrow> dec w x' = Inr x \<or> (\<exists>e. dec w x' = Inl e \<and> transport e)"
    and transport_status: "transport e \<Longrightarrow> transport (status e)"
    and called: "map_of (sd_Methods d) m = Some h \<Longrightarrow>
      invoke (register d srv g) (full_method (sd_ServiceName d) m) i out = r \<Longrightarrow>
      (\<exists>e. r = Inl e \<and> transport e) \<or>
      (\<exists>w. enc i = Inr w \<and> (\<forall>reply e. h srv (dec w) None = Ret (reply, e) \<longrightarrow>
         r = (case (e, reply) of
                (Some x, _) \<Rightarrow> Inl (status x)
              | (None, None) \<Rightarrow> Inl (status (Errorf ''nil reply''))
              | (None, Some m) \<Rightarrow> (case enc m of Inl x \<Rightarrow> Inl x | Inr w \<Rightarrow> dec w out))))"
begin

text \<open>What comes back over the wire, in a message of the same type.\<close>

definition delivers :: "message \<Rightarrow> message result \<Rightarrow> bool" where
  "delivers x r \<longleftrightarrow> r = Inr x \<or> (\<exists>e. r = Inl e \<and> transport e)"

lemma delivers_back:
  "message_kind x = message_kind x' \<Longrightarrow> delivers x (case enc x of Inl e \<Rightarrow> Inl e | Inr w \<Rightarrow> dec w x')"
  using encoding wire by (fastforce simp: delivers_def split: sum.splits)

text \<open>A call of a method that answers a request it can read with this reply or this error.\<close>

lemma method_called:
  assumes "map_of (sd_Methods ServiceDesc) m = Some h" "message_kind i = message_kind i'" "message_kind rep = message_kind out"
    and "\<And>w. dec w i' = Inr i \<Longrightarrow> h srv (dec w) None = Ret (Some rep, e)"
    and "\<And>w x. dec w i' = Inl x \<Longrightarrow> h srv (dec w) None = Ret (None, Some x)"
    and r: "r = invoke (register ServiceDesc srv g) (full_method (sd_ServiceName ServiceDesc) m) i out"
  shows "(\<exists>x. r = Inl x \<and> transport x) \<or> (case e of None \<Rightarrow> r = Inr rep | Some x \<Rightarrow> r = Inl (status x))"
proof -
  consider (lost) x where "r = Inl x" "transport x"
    | (run) w where "enc i = Inr w" "\<And>reply e. h srv (dec w) None = Ret (reply, e) \<Longrightarrow>
        r = (case (e, reply) of (Some x, _) \<Rightarrow> Inl (status x) | (None, None) \<Rightarrow> Inl (status (Errorf ''nil reply''))
              | (None, Some m) \<Rightarrow> (case enc m of Inl x \<Rightarrow> Inl x | Inr w \<Rightarrow> dec w out))"
    using called[OF assms(1) r[symmetric]] by blast
  then show ?thesis
  proof cases
    case run
    from wire[OF run(1) assms(2)] consider (read) "dec w i' = Inr i" | (refused) x where "dec w i' = Inl x" "transport x" by blast
    then show ?thesis
    proof cases
      case read
      from run(2)[OF assms(4)[OF read]] delivers_back[OF assms(3)] show ?thesis
        by (cases e) (auto simp: delivers_def split: sum.splits)
    next
      case refused
      from run(2)[OF assms(5)[OF refused(1)]] refused(2) transport_status show ?thesis by simp
    qed
  qed blast
qed

text \<open>Each client method calls the server's method of that name and returns its reply or its error.\<close>

lemma GetResources_called:
  assumes "sv_GetResources srv = (Some r, e)"
    and y: "y = client_GetResources (invoke (RegisterExternalPluginServiceServer register srv g))"
  shows "(\<exists>x. y = (None, Some x) \<and> transport x) \<or> y = (case e of None \<Rightarrow> (Some r, None) | Some x \<Rightarrow> (None, Some (status x)))"
  using method_called[OF method_lookup(1), of MResourceRequest MResourceRequest "MResourceResponse r"
      "MResourceResponse new_ResourceResponse" srv e _ g] assms(1)
  unfolding y client_GetResources_def method_names(1) RegisterExternalPluginServiceServer_def
  by (auto simp: GetResources_Handler_def message_kind_def split: option.splits)

lemma ListGroups_called:
  assumes "sv_ListGroups srv i = (Some r, e)"
    and y: "y = client_ListGroups (invoke (RegisterExternalPluginServiceServer register srv g)) i"
  shows "(\<exists>x. y = (None, Some x) \<and> transport x) \<or> y = (case e of None \<Rightarrow> (Some r, None) | Some x \<Rightarrow> (None, Some (status x)))"
  using method_called[OF method_lookup(2), of "MGroupRequest i" "MGroupRequest new_GroupRequest" "MGroupResponse r"
      "MGroupResponse new_GroupResponse" srv e _ g] assms(1)
  unfolding y client_ListGroups_def method_names(2) RegisterExternalPluginServiceServer_def
  by (auto simp: ListGroups_Handler_def message_kind_def split: option.splits)

lemma GetGroup_called:
  assumes "sv_GetGroup srv i = (Some r, e)"
    and y: "y = client_GetGroup (invoke (RegisterExternalPluginServiceServer register srv g)) i"
  shows "(\<exists>x. y = (None, Some x) \<and> transport x) \<or> y = (case e of None \<Rightarrow> (Some r, None) | Some x \<Rightarrow> (None, Some (status x)))"
  using method_called[OF method_lookup(3), of "MGroupRequest i" "MGroupRequest new_GroupRequest" "MGroupResponse r"
      "MGroupResponse new_GroupResponse" srv e _ g] assms(1)
  unfolding y client_GetGroup_def method_names(3) RegisterExternalPluginServiceServer_def
  by (auto simp: GetGroup_Handler_def message_kind_def split: option.splits)

end

section \<open>An in-process connection\<close>

text \<open>Messages are passed as they are, up to a size; a server is the list of its registrations, the last one
  first. Calls of the methods in \<open>lost\<close> do not arrive.\<close>

fun message_size :: "message \<Rightarrow> nat" where
  "message_size (MGroupRequest m) = length (gq_Group m)"
| "message_size (MGroupResponse m) = length (gp_Name m)"
| "message_size MResourceRequest = 0"
| "message_size (MResourceResponse m) = length (rp_Graph m)"

definition mem_transport :: "go_error \<Rightarrow> bool" where
  "mem_transport e \<longleftrightarrow> e = Errorf ''Unavailable'' \<or> e = Errorf ''ResourceExhausted''"

definition mem_enc :: "nat \<Rightarrow> message \<Rightarrow> message result" where
  "mem_enc limit m = (if message_size m \<le> limit then Inr m else Inl (Errorf ''ResourceExhausted''))"

definition mem_dec :: "message \<Rightarrow> message \<Rightarrow> message result" where
  "mem_dec w out = (if message_kind w = message_kind out then Inr w else Inl (Errorf ''wrong message''))"

fun mem_invoke :: "nat \<Rightarrow> string set \<Rightarrow> (serviceDesc \<times> serviceServer) list \<Rightarrow> invoke" where
  "mem_invoke limit lost [] name i out = Inl (Errorf ''Unimplemented'')"
| "mem_invoke limit lost ((d, srv) # g) name i out =
     (if name \<in> lost then Inl (Errorf ''Unavailable'')
      else case find (\<lambda>(m, h). full_method (sd_ServiceName d) m = name) (sd_Methods d) of
        None \<Rightarrow> mem_invoke limit lost g name i out
      | Some (m, h) \<Rightarrow>
         (case mem_enc limit i of
            Inl e \<Rightarrow> Inl e
          | Inr w \<Rightarrow>
             (case h srv (mem_dec w) None of
                Panic t \<Rightarrow> Inl (Errorf t)
              | Ret (_, Some e) \<Rightarrow> Inl e
              | Ret (None, None) \<Rightarrow> Inl (Errorf ''nil reply'')
              | Ret (Some r, None) \<Rightarrow> (case mem_enc limit r of Inl e \<Rightarrow> Inl e | Inr w \<Rightarrow> mem_dec w out))))"

lemma find_method:
  "map_of ms m = Some h \<Longrightarrow> find (\<lambda>(m', h). full_method svc m' = full_method svc m) ms = Some (m, h)"
  by (induction ms) (auto simp: full_method_def split: if_splits)

interpretation mem_conn: grpc_conn "mem_enc limit" mem_dec id mem_transport "\<lambda>d srv g. (d, srv) # g" "mem_invoke limit lost" for limit lost
proof (unfold_locales, goal_cases)
  case (4 d m h srv g i out r)
  then show ?case by (auto simp: find_method mem_transport_def mem_enc_def split: option.splits if_splits)
qed (auto simp: mem_enc_def mem_dec_def mem_transport_def split: if_splits)

section \<open>Properties\<close>

text \<open>C38: a client of the external service gets what the service computes, or a status of the transport. Over any
  connection that keeps gRPC's contract, in which calls may be lost and messages refused, the client stub of
  \<open>GetResources\<close> returns the graph in the file the service reads, or the status of the error when it cannot
  be read, and the stubs of the group methods return the empty group: each stub names the method under which the
  service registered the matching handler, and no call ends in the handler of another method or in none.\<close>
theorem client_gets_resources:
  assumes "grpc_conn enc dec status transport register invoke"
    and conn: "conn = invoke (RegisterExternalPluginServiceServer register (ExternalService readErr files) g)"
  shows "(client_GetResources conn =
        (case GetResources readErr files of (r, None) \<Rightarrow> (Some r, None) | (_, Some e) \<Rightarrow> (None, Some (status e))) \<or>
      (\<exists>e. client_GetResources conn = (None, Some e) \<and> transport e)) \<and>
    (client_ListGroups conn i = (Some \<lparr>gp_Name = [], gp_Size = 0\<rparr>, None) \<or>
      (\<exists>e. client_ListGroups conn i = (None, Some e) \<and> transport e)) \<and>
    (client_GetGroup conn i = (Some \<lparr>gp_Name = [], gp_Size = 0\<rparr>, None) \<or>
      (\<exists>e. client_GetGroup conn i = (None, Some e) \<and> transport e))"
proof -
  let ?srv = "ExternalService readErr files" and ?empty = "\<lparr>gp_Name = [], gp_Size = 0\<rparr> :: groupResponse"
  obtain r e where "GetResources readErr files = (r, e)" by (cases "GetResources readErr files")
  then show ?thesis
    using grpc_conn.GetResources_called[OF assms(1), of ?srv r e _ g] grpc_conn.ListGroups_called[OF assms(1), of ?srv i ?empty None _ g]
      grpc_conn.GetGroup_called[OF assms(1), of ?srv i ?empty None _ g]
    by (auto simp: conn ExternalService_def ListGroups_def GetGroup_def split: option.splits)
qed

theorem client_gets_resources_witness:
  "client_GetResources (mem_invoke 4 {''/service.ExternalPluginService/GetGroup''} (RegisterExternalPluginServiceServer (\<lambda>d srv g. (d, srv) # g)
     (ExternalService None [KubernetesJsonGraphFormat \<mapsto> ''{}'']) [])) = (Some \<lparr>rp_Graph = ''{}''\<rparr>, None)"
proof -
  let ?conn = "mem_invoke 4 {''/service.ExternalPluginService/GetGroup''} (RegisterExternalPluginServiceServer (\<lambda>d srv g. (d, srv) # g)
     (ExternalService None [KubernetesJsonGraphFormat \<mapsto> ''{}'']) [])"
  have "\<exists>m. ?conn ''/service.ExternalPluginService/GetResources'' MResourceRequest (MResourceResponse new_ResourceResponse) = Inr m"
    by (simp add: RegisterExternalPluginServiceServer_def ServiceDesc_def full_method_def mem_enc_def mem_dec_def message_kind_def
        GetResources_Handler_def ExternalService_def GetResources_def)
  then have "client_GetResources ?conn \<noteq> (None, Some e)" for e by (auto simp: client_GetResources_def split: message.splits)
  then show ?thesis
    using client_gets_resources[OF mem_conn.grpc_conn_axioms refl, of 4 "{''/service.ExternalPluginService/GetGroup''}" None
        "[KubernetesJsonGraphFormat \<mapsto> ''{}'']" "[]"]
    by (simp add: GetResources_def)
qed

text \<open>The group a client asks for never reaches an answer, and a nil message reads as an empty one.\<close>

lemma getters_of_nil: "GetGroup_field None = []" "GetName_field None = []" "GetSize_field None = 0" "GetGraph_field None = []"
  by (simp_all add: GetGroup_field_def GetName_field_def GetSize_field_def GetGraph_field_def)

text \<open>A failed read of the file loses the empty response of \<open>GetResources\<close>: the client sees the
  error only.\<close>

lemma client_read_failure:
  assumes "grpc_conn enc dec status transport register invoke"
    and "y = client_GetResources (invoke (RegisterExternalPluginServiceServer register (ExternalService (Some e) files) g))"
  shows "\<exists>x. y = (None, Some x) \<and> (x = status e \<or> transport x)"
proof -
  have "sv_GetResources (ExternalService (Some e) files) = (Some \<lparr>rp_Graph = []\<rparr>, Some e)"
    by (simp add: ExternalService_def GetResources_def)
  from grpc_conn.GetResources_called[OF assms(1) this assms(2)] show ?thesis by auto
qed

text \<open>An interceptor that forwards the request to the handler changes nothing.\<close>

lemma forwarding_interceptor:
  "h \<in> {GetResources_Handler, ListGroups_Handler, GetGroup_Handler} \<Longrightarrow>
   h srv d (Some (\<lambda>i info handler. handler i)) = h srv d None"
  by (auto simp: GetResources_Handler_def ListGroups_Handler_def GetGroup_Handler_def split: sum.splits)

end
