(* ===== verification/Grpc_Descriptor.thy ===== *)
theory Grpc_Descriptor
  imports Grpc_Stubs
begin

text \<open>
  The rest of \<open>pkg/service-grpc/service.pb.go\<close>: the raw descriptor of \<open>service.proto\<close>, the
  tables of Go types and dependencies, the initialisation of the file, and the methods that every
  generated message has. The protobuf library is a parameter (\<open>build\<close>, \<open>compress\<close>,
  \<open>stringOf\<close>). To say what the bytes of the descriptor mean, they are read by the wire format of
  protobuf with the field numbers of \<open>descriptor.proto\<close>.
\<close>

section \<open>The tables\<close>

definition rawDesc :: "int list" where
  "rawDesc = [
     0x0a, 0x1e, 0x70, 0x6b, 0x67, 0x2f, 0x73, 0x65, 0x72, 0x76, 0x69, 0x63, 0x65, 0x2d, 0x67, 0x72,
     0x70, 0x63, 0x2f, 0x73, 0x65, 0x72, 0x76, 0x69, 0x63, 0x65, 0x2e, 0x70, 0x72, 0x6f, 0x74, 0x6f,
     0x12, 0x07, 0x73, 0x65, 0x72, 0x76, 0x69, 0x63, 0x65, 0x22, 0x24, 0x0a, 0x0c, 0x47, 0x72, 0x6f,
     0x75, 0x70, 0x52, 0x65, 0x71, 0x75, 0x65, 0x73, 0x74, 0x12, 0x14, 0x0a, 0x05, 0x67, 0x72, 0x6f,
     0x75, 0x70, 0x18, 0x01, 0x20, 0x01, 0x28, 0x09, 0x52, 0x05, 0x67, 0x72, 0x6f, 0x75, 0x70, 0x22,
     0x37, 0x0a, 0x0d, 0x47, 0x72, 0x6f, 0x75, 0x70, 0x52, 0x65, 0x73, 0x70, 0x6f, 0x6e, 0x73, 0x65,
     0x12, 0x12, 0x0a, 0x04, 0x6e, 0x61, 0x6d, 0x65, 0x18, 0x01, 0x20, 0x01, 0x28, 0x09, 0x52, 0x04,
     0x6e, 0x61, 0x6d, 0x65, 0x12, 0x12, 0x0a, 0x04, 0x73, 0x69, 0x7a, 0x65, 0x18, 0x02, 0x20, 0x01,
     0x28, 0x03, 0x52, 0x04, 0x73, 0x69, 0x7a, 0x65, 0x22, 0x11, 0x0a, 0x0f, 0x52, 0x65, 0x73, 0x6f,
     0x75, 0x72, 0x63, 0x65, 0x52, 0x65, 0x71, 0x75, 0x65, 0x73, 0x74, 0x22, 0x28, 0x0a, 0x10, 0x52,
     0x65, 0x73, 0x6f, 0x75, 0x72, 0x63, 0x65, 0x52, 0x65, 0x73, 0x70, 0x6f, 0x6e, 0x73, 0x65, 0x12,
     0x14, 0x0a, 0x05, 0x67, 0x72, 0x61, 0x70, 0x68, 0x18, 0x01, 0x20, 0x01, 0x28, 0x09, 0x52, 0x05,
     0x67, 0x72, 0x61, 0x70, 0x68, 0x32, 0xda, 0x01, 0x0a, 0x15, 0x45, 0x78, 0x74, 0x65, 0x72, 0x6e,
     0x61, 0x6c, 0x50, 0x6c, 0x75, 0x67, 0x69, 0x6e, 0x53, 0x65, 0x72, 0x76, 0x69, 0x63, 0x65, 0x12,
     0x45, 0x0a, 0x0c, 0x47, 0x65, 0x74, 0x52, 0x65, 0x73, 0x6f, 0x75, 0x72, 0x63, 0x65, 0x73, 0x12,
     0x18, 0x2e, 0x73, 0x65, 0x72, 0x76, 0x69, 0x63, 0x65, 0x2e, 0x52, 0x65, 0x73, 0x6f, 0x75, 0x72,
     0x63, 0x65, 0x52, 0x65, 0x71, 0x75, 0x65, 0x73, 0x74, 0x1a, 0x19, 0x2e, 0x73, 0x65, 0x72, 0x76,
     0x69, 0x63, 0x65, 0x2e, 0x52, 0x65, 0x73, 0x6f, 0x75, 0x72, 0x63, 0x65, 0x52, 0x65, 0x73, 0x70,
     0x6f, 0x6e, 0x73, 0x65, 0x22, 0x00, 0x12, 0x3d, 0x0a, 0x0a, 0x4c, 0x69, 0x73, 0x74, 0x47, 0x72,
     0x6f, 0x75, 0x70, 0x73, 0x12, 0x15, 0x2e, 0x73, 0x65, 0x72, 0x76, 0x69, 0x63, 0x65, 0x2e, 0x47,
     0x72, 0x6f, 0x75, 0x70, 0x52, 0x65, 0x71, 0x75, 0x65, 0x73, 0x74, 0x1a, 0x16, 0x2e, 0x73, 0x65,
     0x72, 0x76, 0x69, 0x63, 0x65, 0x2e, 0x47, 0x72, 0x6f, 0x75, 0x70, 0x52, 0x65, 0x73, 0x70, 0x6f,
     0x6e, 0x73, 0x65, 0x22, 0x00, 0x12, 0x3b, 0x0a, 0x08, 0x47, 0x65, 0x74, 0x47, 0x72, 0x6f, 0x75,
     0x70, 0x12, 0x15, 0x2e, 0x73, 0x65, 0x72, 0x76, 0x69, 0x63, 0x65, 0x2e, 0x47, 0x72, 0x6f, 0x75,
     0x70, 0x52, 0x65, 0x71, 0x75, 0x65, 0x73, 0x74, 0x1a, 0x16, 0x2e, 0x73, 0x65, 0x72, 0x76, 0x69,
     0x63, 0x65, 0x2e, 0x47, 0x72, 0x6f, 0x75, 0x70, 0x52, 0x65, 0x73, 0x70, 0x6f, 0x6e, 0x73, 0x65,
     0x22, 0x00, 0x42, 0x3b, 0x5a, 0x39, 0x67, 0x69, 0x74, 0x68, 0x75, 0x62, 0x2e, 0x63, 0x6f, 0x6d,
     0x2f, 0x63, 0x6f, 0x6e, 0x76, 0x65, 0x72, 0x67, 0x65, 0x64, 0x2d, 0x63, 0x6f, 0x6d, 0x70, 0x75,
     0x74, 0x69, 0x6e, 0x67, 0x2f, 0x66, 0x6c, 0x75, 0x78, 0x6e, 0x65, 0x74, 0x65, 0x73, 0x2f, 0x70,
     0x6b, 0x67, 0x2f, 0x73, 0x65, 0x72, 0x76, 0x69, 0x63, 0x65, 0x2d, 0x67, 0x72, 0x70, 0x63, 0x62,
     0x06, 0x70, 0x72, 0x6f, 0x74, 0x6f, 0x33]"

definition goTypes :: "string list" where
  "goTypes = [''GroupRequest'', ''GroupResponse'', ''ResourceRequest'', ''ResourceResponse'']"

text \<open>The types of the inputs of the three methods, then of their outputs, then the starts of the lists.\<close>

definition depIdxs :: "int list" where
  "depIdxs = [2, 0, 0, 3, 1, 1, 3, 0, 0, 0, 0]"

text \<open>The struct tags of the messages: Go type, then kind, number and name of each field.\<close>

definition structTags :: "(string \<times> (string \<times> int \<times> string) list) list" where
  "structTags = [(''GroupRequest'', [(''bytes'', 1, ''group'')]),
     (''GroupResponse'', [(''bytes'', 1, ''name''), (''varint'', 2, ''size'')]),
     (''ResourceRequest'', []), (''ResourceResponse'', [(''bytes'', 1, ''graph'')])]"

section \<open>Initialisation\<close>

datatype hidden = HState | HSizeCache | HUnknownFields

text \<open>The access to the unexported fields of a message, for a library without unsafe pointers.\<close>

definition exporter :: "int \<Rightarrow> hidden option" where
  "exporter i = (if i = 0 then Some HState else if i = 1 then Some HSizeCache
     else if i = 2 then Some HUnknownFields else None)"

record typeBuilder =
  tb_RawDescriptor :: "int list"
  tb_NumEnums :: int
  tb_NumMessages :: int
  tb_NumExtensions :: int
  tb_NumServices :: int
  tb_GoTypes :: "string list"
  tb_DependencyIndexes :: "int list"
  tb_MessageInfos :: "(int \<Rightarrow> hidden option) option list"

record 'f protoFile =
  pf_File :: "'f option"
  pf_rawDesc :: "int list"
  pf_rawDescData :: "int list"
  pf_rawDescOnce :: bool
  pf_goTypes :: "string list"
  pf_depIdxs :: "int list"
  pf_msgTypes :: "(int \<Rightarrow> hidden option) option list"

definition file_vars :: "'f protoFile" where
  "file_vars = \<lparr>pf_File = None, pf_rawDesc = rawDesc, pf_rawDescData = rawDesc, pf_rawDescOnce = False,
     pf_goTypes = goTypes, pf_depIdxs = depIdxs, pf_msgTypes = replicate 4 None\<rparr>"

definition file_init :: "bool \<Rightarrow> (typeBuilder \<Rightarrow> 'f) \<Rightarrow> 'f protoFile \<Rightarrow> 'f protoFile" where
  "file_init unsafeEnabled build v =
     (if pf_File v \<noteq> None then v
      else
        (let v = (if \<not> unsafeEnabled then v\<lparr>pf_msgTypes := replicate 4 (Some exporter)\<rparr> else v);
             out = build \<lparr>tb_RawDescriptor = pf_rawDesc v, tb_NumEnums = 0, tb_NumMessages = 4, tb_NumExtensions = 0,
                     tb_NumServices = 1, tb_GoTypes = pf_goTypes v, tb_DependencyIndexes = pf_depIdxs v,
                     tb_MessageInfos = pf_msgTypes v\<rparr>
         in v\<lparr>pf_File := Some out, pf_rawDesc := [], pf_goTypes := [], pf_depIdxs := []\<rparr>))"

text \<open>\<open>sync.Once\<close>: the data is compressed by the first call.\<close>

definition rawDescGZIP :: "(int list \<Rightarrow> int list) \<Rightarrow> 'f protoFile \<Rightarrow> int list \<times> 'f protoFile" where
  "rawDescGZIP compress v =
     (let v = (if pf_rawDescOnce v then v
               else v\<lparr>pf_rawDescOnce := True, pf_rawDescData := compress (pf_rawDescData v)\<rparr>)
      in (pf_rawDescData v, v))"

section \<open>Methods of the messages\<close>

text \<open>A message with the fields that the library keeps in it; the message info is an index of
  \<open>msgTypes\<close>.\<close>

record 'm pmsg =
  pm_info :: "nat option"
  pm_sizeCache :: int32
  pm_unknownFields :: "int list"
  pm_body :: 'm

datatype 'm reflected = StateOf "'m pmsg" | MessageOf nat "'m pmsg option"

definition zero_msg :: "'m \<Rightarrow> 'm pmsg" where
  "zero_msg zero = \<lparr>pm_info = None, pm_sizeCache = 0, pm_unknownFields = [], pm_body = zero\<rparr>"

definition msg_Reset :: "nat \<Rightarrow> 'm \<Rightarrow> bool \<Rightarrow> 'm pmsg" where
  "msg_Reset mi zero unsafeEnabled = (if unsafeEnabled then (zero_msg zero)\<lparr>pm_info := Some mi\<rparr> else zero_msg zero)"

definition msg_ProtoReflect :: "nat \<Rightarrow> bool \<Rightarrow> 'm pmsg option \<Rightarrow> 'm reflected \<times> 'm pmsg option" where
  "msg_ProtoReflect mi unsafeEnabled x =
     (case x of
        Some m \<Rightarrow>
          (if unsafeEnabled then
             (let m = (if pm_info m = None then m\<lparr>pm_info := Some mi\<rparr> else m) in (StateOf m, Some m))
           else (MessageOf mi x, x))
      | None \<Rightarrow> (MessageOf mi None, None))"

definition msg_Descriptor :: "nat \<Rightarrow> (int list \<Rightarrow> int list) \<Rightarrow> 'f protoFile \<Rightarrow> (int list \<times> nat list) \<times> 'f protoFile" where
  "msg_Descriptor mi compress v = (case rawDescGZIP compress v of (d, v) \<Rightarrow> ((d, [mi]), v))"

definition GroupRequest_Reset :: "bool \<Rightarrow> groupRequest pmsg" where "GroupRequest_Reset = msg_Reset 0 new_GroupRequest"
definition GroupRequest_String :: "(groupRequest pmsg \<Rightarrow> string) \<Rightarrow> groupRequest pmsg \<Rightarrow> string" where "GroupRequest_String stringOf x = stringOf x"
definition GroupRequest_ProtoReflect :: "bool \<Rightarrow> groupRequest pmsg option \<Rightarrow> groupRequest reflected \<times> groupRequest pmsg option" where
  "GroupRequest_ProtoReflect = msg_ProtoReflect 0"
definition GroupRequest_Descriptor :: "(int list \<Rightarrow> int list) \<Rightarrow> 'f protoFile \<Rightarrow> (int list \<times> nat list) \<times> 'f protoFile" where
  "GroupRequest_Descriptor = msg_Descriptor 0"

definition GroupResponse_Reset :: "bool \<Rightarrow> groupResponse pmsg" where "GroupResponse_Reset = msg_Reset 1 new_GroupResponse"
definition GroupResponse_String :: "(groupResponse pmsg \<Rightarrow> string) \<Rightarrow> groupResponse pmsg \<Rightarrow> string" where "GroupResponse_String stringOf x = stringOf x"
definition GroupResponse_ProtoReflect :: "bool \<Rightarrow> groupResponse pmsg option \<Rightarrow> groupResponse reflected \<times> groupResponse pmsg option" where
  "GroupResponse_ProtoReflect = msg_ProtoReflect 1"
definition GroupResponse_Descriptor :: "(int list \<Rightarrow> int list) \<Rightarrow> 'f protoFile \<Rightarrow> (int list \<times> nat list) \<times> 'f protoFile" where
  "GroupResponse_Descriptor = msg_Descriptor 1"

definition ResourceRequest_Reset :: "bool \<Rightarrow> unit pmsg" where "ResourceRequest_Reset = msg_Reset 2 ()"
definition ResourceRequest_String :: "(unit pmsg \<Rightarrow> string) \<Rightarrow> unit pmsg \<Rightarrow> string" where "ResourceRequest_String stringOf x = stringOf x"
definition ResourceRequest_ProtoReflect :: "bool \<Rightarrow> unit pmsg option \<Rightarrow> unit reflected \<times> unit pmsg option" where
  "ResourceRequest_ProtoReflect = msg_ProtoReflect 2"
definition ResourceRequest_Descriptor :: "(int list \<Rightarrow> int list) \<Rightarrow> 'f protoFile \<Rightarrow> (int list \<times> nat list) \<times> 'f protoFile" where
  "ResourceRequest_Descriptor = msg_Descriptor 2"

definition ResourceResponse_Reset :: "bool \<Rightarrow> resourceResponse pmsg" where "ResourceResponse_Reset = msg_Reset 3 new_ResourceResponse"
definition ResourceResponse_String :: "(resourceResponse pmsg \<Rightarrow> string) \<Rightarrow> resourceResponse pmsg \<Rightarrow> string" where "ResourceResponse_String stringOf x = stringOf x"
definition ResourceResponse_ProtoReflect :: "bool \<Rightarrow> resourceResponse pmsg option \<Rightarrow> resourceResponse reflected \<times> resourceResponse pmsg option" where
  "ResourceResponse_ProtoReflect = msg_ProtoReflect 3"
definition ResourceResponse_Descriptor :: "(int list \<Rightarrow> int list) \<Rightarrow> 'f protoFile \<Rightarrow> (int list \<times> nat list) \<times> 'f protoFile" where
  "ResourceResponse_Descriptor = msg_Descriptor 3"

section \<open>Reading a descriptor\<close>

fun varint :: "int list \<Rightarrow> (int \<times> int list) option" where
  "varint [] = None"
| "varint (b # bs) =
     (if b < 128 then Some (b, bs)
      else case varint bs of None \<Rightarrow> None | Some (n, rest) \<Rightarrow> Some (b - 128 + 128 * n, rest))"

fun cut :: "int \<Rightarrow> int list \<Rightarrow> (int list \<times> int list) option" where
  "cut n [] = (if n \<le> 0 then Some ([], []) else None)"
| "cut n (b # bs) =
     (if n \<le> 0 then Some ([], b # bs)
      else case cut (n - 1) bs of None \<Rightarrow> None | Some (xs, rest) \<Rightarrow> Some (b # xs, rest))"

datatype wire = Varint int | Bytes "int list"

definition read_field :: "int list \<Rightarrow> ((int \<times> wire) \<times> int list) option" where
  "read_field bs =
     (case varint bs of None \<Rightarrow> None
      | Some (tag, bs) \<Rightarrow>
         (case varint bs of None \<Rightarrow> None
          | Some (n, bs) \<Rightarrow>
             (if tag mod 8 = 0 then Some ((tag div 8, Varint n), bs)
              else if tag mod 8 = 2 then
                (case cut n bs of None \<Rightarrow> None | Some (xs, rest) \<Rightarrow> Some ((tag div 8, Bytes xs), rest))
              else None)))"

lemma varint_shorter: "varint bs = Some (n, rest) \<Longrightarrow> length rest < length bs"
  by (induction bs arbitrary: n) (fastforce split: if_splits option.splits prod.splits)+

lemma cut_shorter: "cut n bs = Some (xs, rest) \<Longrightarrow> length rest \<le> length bs"
  by (induction n bs arbitrary: xs rule: cut.induct) (fastforce split: if_splits option.splits prod.splits)+

lemma read_field_shorter: "read_field bs = Some (f, rest) \<Longrightarrow> length rest < length bs"
  by (fastforce simp: read_field_def dest: varint_shorter cut_shorter split: option.splits prod.splits if_splits)

function read_fields :: "int list \<Rightarrow> (int \<times> wire) list option" where
  "read_fields bs =
     (if bs = [] then Some []
      else case read_field bs of None \<Rightarrow> None
           | Some (f, rest) \<Rightarrow> (case read_fields rest of None \<Rightarrow> None | Some fs \<Rightarrow> Some (f # fs)))"
  by pat_completeness auto
termination
  by (relation "measure length") (auto dest: read_field_shorter)

declare read_fields.simps [simp del]

record fieldDesc =
  fd_name :: string
  fd_number :: int
  fd_type :: int

record messageDesc =
  md_name :: string
  md_fields :: "fieldDesc list"

record methodDesc =
  mt_name :: string
  mt_input :: string
  mt_output :: string

record serviceDescriptor =
  svd_name :: string
  svd_methods :: "methodDesc list"

record fileDesc =
  fl_name :: string
  fl_package :: string
  fl_messages :: "messageDesc list"
  fl_services :: "serviceDescriptor list"
  fl_syntax :: string

definition text_of :: "int list \<Rightarrow> string" where
  "text_of bs = map char_of bs"

text \<open>The values of a field, in order; a scalar is its last value.\<close>

fun bytes_at :: "int \<Rightarrow> (int \<times> wire) list \<Rightarrow> int list list" where
  "bytes_at k [] = []"
| "bytes_at k ((i, Bytes b) # fs) = (if i = k then b # bytes_at k fs else bytes_at k fs)"
| "bytes_at k ((i, Varint n) # fs) = bytes_at k fs"

fun int_at :: "int \<Rightarrow> (int \<times> wire) list \<Rightarrow> int \<Rightarrow> int" where
  "int_at k [] d = d"
| "int_at k ((i, Varint n) # fs) d = int_at k fs (if i = k then n else d)"
| "int_at k ((i, Bytes b) # fs) d = int_at k fs d"

definition text_at :: "int \<Rightarrow> (int \<times> wire) list \<Rightarrow> string" where
  "text_at k fs = (case rev (bytes_at k fs) of [] \<Rightarrow> [] | b # _ \<Rightarrow> text_of b)"

fun all_some :: "'a option list \<Rightarrow> 'a list option" where
  "all_some [] = Some []"
| "all_some (None # xs) = None"
| "all_some (Some x # xs) = map_option ((#) x) (all_some xs)"

definition read_fieldDesc :: "int list \<Rightarrow> fieldDesc option" where
  "read_fieldDesc bs = map_option (\<lambda>fs. \<lparr>fd_name = text_at 1 fs, fd_number = int_at 3 fs 0, fd_type = int_at 5 fs 0\<rparr>) (read_fields bs)"

definition read_messageDesc :: "int list \<Rightarrow> messageDesc option" where
  "read_messageDesc bs =
     (case read_fields bs of None \<Rightarrow> None
      | Some fs \<Rightarrow> map_option (\<lambda>ds. \<lparr>md_name = text_at 1 fs, md_fields = ds\<rparr>) (all_some (map read_fieldDesc (bytes_at 2 fs))))"

definition read_methodDesc :: "int list \<Rightarrow> methodDesc option" where
  "read_methodDesc bs = map_option (\<lambda>fs. \<lparr>mt_name = text_at 1 fs, mt_input = text_at 2 fs, mt_output = text_at 3 fs\<rparr>) (read_fields bs)"

definition read_serviceDescriptor :: "int list \<Rightarrow> serviceDescriptor option" where
  "read_serviceDescriptor bs =
     (case read_fields bs of None \<Rightarrow> None
      | Some fs \<Rightarrow> map_option (\<lambda>ms. \<lparr>svd_name = text_at 1 fs, svd_methods = ms\<rparr>) (all_some (map read_methodDesc (bytes_at 2 fs))))"

definition read_fileDesc :: "int list \<Rightarrow> fileDesc option" where
  "read_fileDesc bs =
     (case read_fields bs of None \<Rightarrow> None
      | Some fs \<Rightarrow>
         (case (all_some (map read_messageDesc (bytes_at 4 fs)), all_some (map read_serviceDescriptor (bytes_at 6 fs))) of
            (Some ms, Some ss) \<Rightarrow> Some \<lparr>fl_name = text_at 1 fs, fl_package = text_at 2 fs, fl_messages = ms,
               fl_services = ss, fl_syntax = text_at 12 fs\<rparr>
          | _ \<Rightarrow> None))"

text \<open>What the bytes say.\<close>

definition service_proto :: fileDesc where
  "service_proto = \<lparr>fl_name = ''pkg/service-grpc/service.proto'', fl_package = ''service'',
     fl_messages =
       [\<lparr>md_name = ''GroupRequest'', md_fields = [\<lparr>fd_name = ''group'', fd_number = 1, fd_type = 9\<rparr>]\<rparr>,
        \<lparr>md_name = ''GroupResponse'', md_fields =
          [\<lparr>fd_name = ''name'', fd_number = 1, fd_type = 9\<rparr>, \<lparr>fd_name = ''size'', fd_number = 2, fd_type = 3\<rparr>]\<rparr>,
        \<lparr>md_name = ''ResourceRequest'', md_fields = []\<rparr>,
        \<lparr>md_name = ''ResourceResponse'', md_fields = [\<lparr>fd_name = ''graph'', fd_number = 1, fd_type = 9\<rparr>]\<rparr>],
     fl_services =
       [\<lparr>svd_name = ''ExternalPluginService'', svd_methods =
          [\<lparr>mt_name = ''GetResources'', mt_input = ''.service.ResourceRequest'', mt_output = ''.service.ResourceResponse''\<rparr>,
           \<lparr>mt_name = ''ListGroups'', mt_input = ''.service.GroupRequest'', mt_output = ''.service.GroupResponse''\<rparr>,
           \<lparr>mt_name = ''GetGroup'', mt_input = ''.service.GroupRequest'', mt_output = ''.service.GroupResponse''\<rparr>]\<rparr>],
     fl_syntax = ''proto3''\<rparr>"

lemma rawDesc_read: "read_fileDesc rawDesc = Some service_proto"
  by code_simp

section \<open>Facts\<close>

text \<open>The kind of a field in a struct tag, by the type number of the descriptor.\<close>

definition tag_kind :: "int \<Rightarrow> string" where
  "tag_kind t = (if t = 9 then ''bytes'' else ''varint'')"

definition dotted :: "string \<Rightarrow> int \<Rightarrow> string" where
  "dotted pkg i = ''.'' @ pkg @ ''.'' @ goTypes ! nat i"

text \<open>The descriptor describes the stubs: its file and service are those of the service table, which has a
  handler for each of its methods, in order; its messages are the Go types, in order, with the fields of
  the struct tags; the dependencies give each method its input and output type; and the builder is told
  how many messages and services there are.\<close>

lemma descriptor_describes_stubs:
  "\<exists>d svc. read_fileDesc rawDesc = Some d \<and> fl_services d = [svc] \<and>
    fl_name d = sd_Metadata ServiceDesc \<and> fl_package d @ ''.'' @ svd_name svc = sd_ServiceName ServiceDesc \<and>
    map mt_name (svd_methods svc) = map fst (sd_Methods ServiceDesc) \<and>
    map (\<lambda>m. (md_name m, map (\<lambda>f. (tag_kind (fd_type f), fd_number f, fd_name f)) (md_fields m))) (fl_messages d) = structTags \<and>
    map md_name (fl_messages d) = goTypes \<and>
    map mt_input (svd_methods svc) = map (dotted (fl_package d)) (take 3 depIdxs) \<and>
    map mt_output (svd_methods svc) = map (dotted (fl_package d)) (take 3 (drop 3 depIdxs)) \<and>
    pf_File (file_init unsafe (\<lambda>b. (tb_NumMessages b, tb_NumServices b, tb_RawDescriptor b)) file_vars) =
      Some (int (length (fl_messages d)), int (length (fl_services d)), rawDesc)"
  unfolding rawDesc_read
  by (simp add: service_proto_def ServiceDesc_def structTags_def goTypes_def depIdxs_def tag_kind_def dotted_def
      file_init_def file_vars_def Let_def)

text \<open>Initialising again changes nothing, and the compressed descriptor stays the same whether it is asked
  for before or after the initialisation has dropped the raw bytes, and however often.\<close>

lemma file_init_twice: "file_init u build (file_init u' build' v) = file_init u' build' v"
  by (simp add: file_init_def Let_def)

lemma rawDescGZIP_stable:
  "fst (rawDescGZIP compress (file_init u build file_vars)) = compress rawDesc"
  "fst (rawDescGZIP compress (file_init u build (snd (rawDescGZIP compress file_vars)))) = compress rawDesc"
  "fst (rawDescGZIP compress' (snd (rawDescGZIP compress v))) = fst (rawDescGZIP compress v)"
  by (auto simp: rawDescGZIP_def file_init_def file_vars_def Let_def)

text \<open>Reflection keeps the contents of a message and, once set, its message info; a message that was reset
  has the info of its own type.\<close>

lemma ProtoReflect_keeps:
  "snd (msg_ProtoReflect mi u x) = map_option (\<lambda>m. m\<lparr>pm_info := (if u \<and> pm_info m = None then Some mi else pm_info m)\<rparr>) x"
  by (auto simp: msg_ProtoReflect_def Let_def split: option.split)

lemma Reset_then_reflect:
  "msg_ProtoReflect mi True (Some (msg_Reset mi zero True)) =
     (StateOf ((zero_msg zero)\<lparr>pm_info := Some mi\<rparr>), Some ((zero_msg zero)\<lparr>pm_info := Some mi\<rparr>))"
  by (simp add: msg_ProtoReflect_def msg_Reset_def Let_def)

text \<open>The index that each type passes is its place among the Go types.\<close>

lemma message_indices:
  "pm_info (GroupRequest_Reset True) = Some 0 \<and> goTypes ! 0 = ''GroupRequest''"
  "pm_info (GroupResponse_Reset True) = Some 1 \<and> goTypes ! 1 = ''GroupResponse''"
  "pm_info (ResourceRequest_Reset True) = Some 2 \<and> goTypes ! 2 = ''ResourceRequest''"
  "pm_info (ResourceResponse_Reset True) = Some 3 \<and> goTypes ! 3 = ''ResourceResponse''"
  by (simp_all add: goTypes_def msg_Reset_def GroupRequest_Reset_def GroupResponse_Reset_def ResourceRequest_Reset_def ResourceResponse_Reset_def)

end
