(* ===== verification/Group.thy ===== *)
theory Group
  imports Kube_Types
begin

text \<open>
  Pod groups: \<open>pkg/fluxqueue/group/group.go\<close> and the label names of
  \<open>pkg/fluxqueue/labels/labels.go\<close>. The current time, the in-cluster configuration, the
  client and its patch call are parameters.
\<close>

section \<open>Definitions\<close>

record podGroup =
  pg_Name :: string
  pg_Size :: int32
  pg_Timestamp :: int
  pg_Duration :: int64

definition PodGroupLabel :: string where "PodGroupLabel = ''fluxnetes.group-name''"
definition PodGroupSizeLabel :: string where "PodGroupSizeLabel = ''fluxnetes.group-size''"

text \<open>Reading a missing key gives the empty string.\<close>

definition GetPodGroupLabel :: "'q pod \<Rightarrow> string" where
  "GetPodGroupLabel p = (case label_get (pod_Labels p) PodGroupLabel of None \<Rightarrow> [] | Some v \<Rightarrow> v)"

definition GetPodGroupName :: "'q pod \<Rightarrow> string" where
  "GetPodGroupName p =
     (let groupName = GetPodGroupLabel p
      in if groupName = [] then ''fluxnetes-group-'' @ pod_Namespace p @ ''-'' @ pod_Name p else groupName)"

definition GetPodGroupFullName :: "'q pod \<Rightarrow> string" where
  "GetPodGroupFullName p = pod_Namespace p @ ''/'' @ GetPodGroupName p"

text \<open>
  A missing size is written into the pod's labels, which panics when the map is nil. The result is
  the size and the pod.
\<close>

definition GetPodGroupSize :: "'q pod \<Rightarrow> ((int32 \<times> num_error option) \<times> 'q pod) go" where
  "GetPodGroupSize p =
     (case (case label_get (pod_Labels p) PodGroupSizeLabel of
              Some groupSize \<Rightarrow> Ret (groupSize, p)
            | None \<Rightarrow>
               (case pod_Labels p of
                  None \<Rightarrow> Panic ''assignment to entry in nil map''
                | Some l \<Rightarrow> Ret (''1'', p\<lparr>pod_Meta := (pod_Meta p)\<lparr>om_Labels := Some (l(PodGroupSizeLabel \<mapsto> ''1''))\<rparr>\<rparr>))) of
        Panic m \<Rightarrow> Panic m
      | Ret (groupSize, p) \<Rightarrow>
         (case parseInt groupSize 32 of
            (sz, Some e) \<Rightarrow> Ret ((0, Some e), p)
          | (sz, None) \<Rightarrow> Ret ((word_of_int sz, None), p)))"

definition deadline_payload :: string where
  "deadline_payload = ''{'' @ [CHR 0x22] @ ''spec'' @ [CHR 0x22] @ '': {'' @ [CHR 0x22] @ ''activeDeadlineSeconds'' @
     [CHR 0x22] @ '': 3600}''"

definition AddDeadline ::
  "go_error option \<Rightarrow> go_error option \<Rightarrow> (string \<Rightarrow> string \<Rightarrow> string \<Rightarrow> 'k \<Rightarrow> go_error option \<times> 'k) \<Rightarrow>
   'q pod \<Rightarrow> 'k \<Rightarrow> go_error option \<times> 'k" where
  "AddDeadline config clientset patch p k =
     (case ps_ActiveDeadlineSeconds (pod_Spec p) of
        None \<Rightarrow> (None, k)
      | Some d \<Rightarrow>
         (if d > 0 then (None, k)
          else
            (case config of Some e \<Rightarrow> (Some e, k) | None \<Rightarrow>
             (case clientset of Some e \<Rightarrow> (Some e, k) | None \<Rightarrow>
               patch (pod_Namespace p) (pod_Name p) deadline_payload k))))"

definition GetPodGroupDuration :: "'q pod \<Rightarrow> int" where
  "GetPodGroupDuration p =
     (case ps_ActiveDeadlineSeconds (pod_Spec p) of
        Some d \<Rightarrow> (if d > 0 then d else 0)
      | None \<Rightarrow> 0)"

definition GetPodCreationTimestamp :: "int \<Rightarrow> 'q pod \<Rightarrow> int" where
  "GetPodCreationTimestamp now p =
     (case om_CreationTimestamp (pod_Meta p) of Some t \<Rightarrow> t | None \<Rightarrow> now)"

section \<open>Facts\<close>

lemma parse_one: "parseInt ''1'' 32 = (1, None)"
  by (simp add: parseInt_def parseUint_def char_digit_def Let_def)

text \<open>
  The default group is unique to the pod when neither name holds the separator; a group name given
  by label is shared by the pods that carry it.
\<close>

lemma default_group_inject:
  assumes "GetPodGroupLabel p = []" "GetPodGroupLabel q = []"
    and "CHR ''-'' \<notin> set (pod_Namespace p)" "CHR ''-'' \<notin> set (pod_Namespace q)"
    and "GetPodGroupName p = GetPodGroupName q"
  shows "pod_Namespace p = pod_Namespace q \<and> pod_Name p = pod_Name q"
  using assms by (simp add: GetPodGroupName_def append_sep_inject)

text \<open>Every duration is a bound that the pod set, or 0 for none.\<close>

lemma GetPodGroupDuration_nonneg: "0 \<le> GetPodGroupDuration p"
  by (simp add: GetPodGroupDuration_def split: option.splits)

text \<open>A patch is sent only for a deadline that is set and not positive.\<close>

lemma AddDeadline_patches_iff:
  "AddDeadline None None (\<lambda>ns n pl l. (None, l @ [pl])) p [] =
     (None, if (\<exists>d \<le> 0. ps_ActiveDeadlineSeconds (pod_Spec p) = Some d) then [deadline_payload] else [])"
  by (auto simp: AddDeadline_def split: option.splits)

text \<open>The payload opens two objects and closes one.\<close>

lemma deadline_payload_unbalanced:
  "count_list deadline_payload (CHR ''{'') = 2" "count_list deadline_payload (CHR ''}'') = 1"
  by (simp_all add: deadline_payload_def)

definition ex_sized_pod :: "string \<Rightarrow> int pod" where
  "ex_sized_pod v = \<lparr>pod_Meta = \<lparr>om_Name = ''p'', om_Namespace = ''ns'', om_Labels = Some [PodGroupSizeLabel \<mapsto> v],
       om_CreationTimestamp = None\<rparr>,
     pod_Spec = \<lparr>ps_SchedulingGates = [], ps_SchedulerName = [], ps_ActiveDeadlineSeconds = None, ps_Containers = [],
       ps_InitContainers = [], ps_Overhead = None\<rparr>, pod_ContainerStatuses = [], pod_Resize = []\<rparr>"

section \<open>Properties\<close>

text \<open>The size of a group is the number of its label, read as a signed 32-bit integer, and 1 without
  a label, which is then stored; a pod whose label map is nil makes the function panic.\<close>

lemma GetPodGroupSize_functional:
  "(\<forall>i. label_get (pod_Labels p) PodGroupSizeLabel = Some (itoa i) \<and> - (2 ^ 31) \<le> i \<and> i < 2 ^ 31 \<longrightarrow>
      GetPodGroupSize p = Ret ((word_of_int i, None), p)) \<and>
   (\<forall>l. pod_Labels p = Some l \<and> l PodGroupSizeLabel = None \<longrightarrow>
      (\<exists>p'. GetPodGroupSize p = Ret ((1, None), p') \<and> label_get (pod_Labels p') PodGroupSizeLabel = Some ''1'' \<and>
            GetPodGroupSize p' = Ret ((1, None), p'))) \<and>
   (pod_Labels p = None \<longrightarrow> (\<exists>m. GetPodGroupSize p = Panic m))"
  using parseInt_itoa[of 32] by (auto simp: GetPodGroupSize_def parse_one)

end
