(* ===== verification/Test_Utils.thy ===== *)
theory Test_Utils
  imports Go_Prelude
begin

text \<open>
  The helpers of the end-to-end tests, \<open>test/utils/utils.go\<close>. The operating system is a parameter:
  its working directory, environment, commands and the writer for messages act on a state \<open>'w\<close>. The
  locale \<open>recording_os\<close> states what the helpers rely on: a command that is run is recorded with its
  result, and nothing else records commands.
\<close>

section \<open>Commands\<close>

record execCmd =
  ec_Args :: "string list"
  ec_Dir :: string
  ec_Env :: "string list"

definition Command :: "string \<Rightarrow> string list \<Rightarrow> execCmd" where
  "Command name args = \<lparr>ec_Args = name # args, ec_Dir = [], ec_Env = []\<rparr>"

record 'w osOps =
  os_Getwd :: "'w \<Rightarrow> string \<times> go_error option"
  os_Chdir :: "string \<Rightarrow> 'w \<Rightarrow> go_error option \<times> 'w"
  os_Environ :: "'w \<Rightarrow> string list"
  os_LookupEnv :: "string \<Rightarrow> 'w \<Rightarrow> string option"
  os_CombinedOutput :: "execCmd \<Rightarrow> 'w \<Rightarrow> (string \<times> go_error option) \<times> 'w"
  os_Fprint :: "string \<Rightarrow> 'w \<Rightarrow> 'w"

definition lineBreak :: char where "lineBreak = CHR 0x0A"

definition prometheusOperatorVersion :: string where "prometheusOperatorVersion = ''v0.72.0''"
definition certmanagerVersion :: string where "certmanagerVersion = ''v1.14.4''"

text \<open>The two URLs with \<open>%s\<close> filled in.\<close>

definition prometheusOperatorURL :: "string \<Rightarrow> string" where
  "prometheusOperatorURL version = ''https://github.com/prometheus-operator/prometheus-operator/releases/download/'' @ version @ ''/bundle.yaml''"

definition certmanagerURLTmpl :: "string \<Rightarrow> string" where
  "certmanagerURLTmpl version = ''https://github.com/jetstack/cert-manager/releases/download/'' @ version @ ''/cert-manager.yaml''"

definition warnError :: "'w osOps \<Rightarrow> go_error \<Rightarrow> 'w \<Rightarrow> 'w" where
  "warnError os err w = os_Fprint os (''warning: '' @ error_text err @ [lineBreak]) w"

text \<open>\<open>strings.Replace\<close> with \<open>-1\<close> replaces every occurrence that \<open>strings.Split\<close> cuts at.\<close>

definition replace_all :: "string \<Rightarrow> string \<Rightarrow> string \<Rightarrow> string" where
  "replace_all s old new = join (split s old) new"

definition GetProjectDir :: "'w osOps \<Rightarrow> 'w \<Rightarrow> string \<times> go_error option" where
  "GetProjectDir os w =
     (case os_Getwd os w of
        (wd, Some err) \<Rightarrow> (wd, Some err)
      | (wd, None) \<Rightarrow> (replace_all wd ''/test/e2e'' [], None))"

definition Run :: "'w osOps \<Rightarrow> execCmd \<Rightarrow> 'w \<Rightarrow> (string \<times> go_error option) \<times> 'w" where
  "Run os cmd w =
     (let cmd = cmd\<lparr>ec_Dir := fst (GetProjectDir os w)\<rparr>;
          w = (case os_Chdir os (ec_Dir cmd) w of
                 (Some err, w) \<Rightarrow> os_Fprint os (''chdir dir: '' @ error_text err @ [lineBreak]) w
               | (None, w) \<Rightarrow> w);
          cmd = cmd\<lparr>ec_Env := os_Environ os w @ [''GO111MODULE=on'']\<rparr>;
          command = join (ec_Args cmd) '' '';
          w = os_Fprint os (''running: '' @ command @ [lineBreak]) w
      in case os_CombinedOutput os cmd w of
           ((out, Some err), w) \<Rightarrow>
             ((out, Some (Errorf (command @ '' failed with error: ('' @ error_text err @ '') '' @ out))), w)
         | ((out, None), w) \<Rightarrow> ((out, None), w))"

section \<open>The helpers\<close>

definition InstallPrometheusOperator :: "'w osOps \<Rightarrow> 'w \<Rightarrow> go_error option \<times> 'w" where
  "InstallPrometheusOperator os w =
     apfst snd (Run os (Command ''kubectl'' [''create'', ''-f'', prometheusOperatorURL prometheusOperatorVersion]) w)"

definition warned :: "'w osOps \<Rightarrow> (string \<times> go_error option) \<times> 'w \<Rightarrow> 'w" where
  "warned os r = (case r of ((_, Some err), w) \<Rightarrow> warnError os err w | ((_, None), w) \<Rightarrow> w)"

definition UninstallPrometheusOperator :: "'w osOps \<Rightarrow> 'w \<Rightarrow> 'w" where
  "UninstallPrometheusOperator os w =
     warned os (Run os (Command ''kubectl'' [''delete'', ''-f'', prometheusOperatorURL prometheusOperatorVersion]) w)"

definition UninstallCertManager :: "'w osOps \<Rightarrow> 'w \<Rightarrow> 'w" where
  "UninstallCertManager os w =
     warned os (Run os (Command ''kubectl'' [''delete'', ''-f'', certmanagerURLTmpl certmanagerVersion]) w)"

definition InstallCertManager :: "'w osOps \<Rightarrow> 'w \<Rightarrow> go_error option \<times> 'w" where
  "InstallCertManager os w =
     (case Run os (Command ''kubectl'' [''apply'', ''-f'', certmanagerURLTmpl certmanagerVersion]) w of
        ((_, Some err), w) \<Rightarrow> (Some err, w)
      | ((_, None), w) \<Rightarrow>
          apfst snd (Run os (Command ''kubectl'' [''wait'', ''deployment.apps/cert-manager-webhook'', ''--for'',
            ''condition=Available'', ''--namespace'', ''cert-manager'', ''--timeout'', ''5m'']) w))"

definition LoadImageToKindClusterWithName :: "'w osOps \<Rightarrow> string \<Rightarrow> 'w \<Rightarrow> go_error option \<times> 'w" where
  "LoadImageToKindClusterWithName os name w =
     (let cluster = (case os_LookupEnv os ''KIND_CLUSTER'' w of Some v \<Rightarrow> v | None \<Rightarrow> ''kind'')
      in apfst snd (Run os (Command ''kind'' [''load'', ''docker-image'', name, ''--name'', cluster]) w))"

fun nonEmpty_loop :: "string list \<Rightarrow> string list \<Rightarrow> string list" where
  "nonEmpty_loop [] res = res"
| "nonEmpty_loop (element # elements) res = nonEmpty_loop elements (if element \<noteq> [] then res @ [element] else res)"

definition GetNonEmptyLines :: "string \<Rightarrow> string list" where
  "GetNonEmptyLines output = nonEmpty_loop (split output [lineBreak]) []"

section \<open>Lines\<close>

lemma nonEmpty_loop_eq: "nonEmpty_loop xs res = res @ filter (\<lambda>x. x \<noteq> []) xs"
  by (induction xs arbitrary: res) auto

lemma split_acc_char:
  "concat (split_acc [c] acc s) = rev acc @ filter (\<lambda>x. x \<noteq> c) s"
  "c \<notin> set acc \<Longrightarrow> l \<in> set (split_acc [c] acc s) \<Longrightarrow> c \<notin> set l"
  by (induction "[c]" acc s rule: split_acc.induct) (auto split: if_splits)

lemma concat_filter_nonempty: "concat (filter (\<lambda>x. x \<noteq> []) xs) = concat xs"
  by (induction xs) auto

text \<open>The lines hold the output without its line breaks, in order; none is empty or has a line break.\<close>

lemma GetNonEmptyLines_spec:
  "concat (GetNonEmptyLines output) = filter (\<lambda>c. c \<noteq> lineBreak) output"
  "l \<in> set (GetNonEmptyLines output) \<Longrightarrow> l \<noteq> [] \<and> lineBreak \<notin> set l"
  using split_acc_char(2)[where c = lineBreak and acc = "[]"]
  by (auto simp: GetNonEmptyLines_def nonEmpty_loop_eq split_def concat_filter_nonempty split_acc_char(1))

section \<open>The project directory\<close>

lemma split_acc_suffix:
  assumes "sep \<noteq> []" "\<forall>i < length root. \<not> prefix sep (drop i (root @ sep))"
  shows "split_acc sep acc (root @ sep) = [rev acc @ root, []]"
  using assms(2)
proof (induction root arbitrary: acc)
  case Nil
  then show ?case using assms(1) split_acc_sep[of sep "[]" acc "[]"] by simp
next
  case (Cons c root)
  have "\<forall>i < length root. \<not> prefix sep (drop i (root @ sep))" using Cons.prems by (metis Suc_less_eq append_Cons drop_Suc_Cons length_Cons)
  moreover have "\<not> prefix sep (c # root @ sep)" using Cons.prems by (metis append_Cons drop0 length_greater_0_conv list.distinct(1))
  ultimately show ?case using Cons.IH by simp
qed

text \<open>From the directory of the tests it is the root of the repository, if no part of the path on the way
  is another \<open>test/e2e\<close>.\<close>

lemma GetProjectDir_from_tests:
  assumes "os_Getwd os w = (root @ ''/test/e2e'', None)"
    and "\<forall>i < length root. \<not> prefix ''/test/e2e'' (drop i (root @ ''/test/e2e''))"
  shows "GetProjectDir os w = (root, None)"
  using assms(1) split_acc_suffix[OF _ assms(2), of "[]"] by (simp add: GetProjectDir_def replace_all_def split_def)

text \<open>Every occurrence is removed, and the removal of one can make another, which stays.\<close>

lemma GetProjectDir_nested:
  assumes "os_Getwd os w = (''/go/test/test/e2e/e2e'', None)"
  shows "GetProjectDir os w = (''/go/test/e2e'', None)"
  using assms by (simp add: GetProjectDir_def replace_all_def split_def)

section \<open>What is run\<close>

locale recording_os =
  fixes os :: "'w osOps" and ran_cmds :: "'w \<Rightarrow> (string list \<times> go_error option) list"
  assumes run_recorded: "os_CombinedOutput os cmd w = ((out, err), w') \<Longrightarrow> ran_cmds w' = ran_cmds w @ [(ec_Args cmd, err)]"
    and chdir_runs_nothing: "ran_cmds (snd (os_Chdir os dir w)) = ran_cmds w"
    and print_runs_nothing: "ran_cmds (os_Fprint os m w) = ran_cmds w"
begin

text \<open>\<open>Run\<close> runs its command, once, whatever happens to the directory, and wraps its error.\<close>

lemma Run_recorded:
  assumes "Run os cmd w = ((out, err), w')"
  obtains e where "ran_cmds w' = ran_cmds w @ [(ec_Args cmd, e)]" "err = None \<longleftrightarrow> e = None"
proof -
  obtain e1 w1 where dir: "os_Chdir os (fst (GetProjectDir os w)) w = (e1, w1)" by fastforce
  have w1: "ran_cmds w1 = ran_cmds w" using chdir_runs_nothing[of "fst (GetProjectDir os w)" w] dir by simp
  define w2 where "w2 = (case e1 of Some err \<Rightarrow> os_Fprint os (''chdir dir: '' @ error_text err @ [lineBreak]) w1 | None \<Rightarrow> w1)"
  define w3 where "w3 = os_Fprint os (''running: '' @ join (ec_Args cmd) '' '' @ [lineBreak]) w2"
  define cmd' where "cmd' = cmd\<lparr>ec_Dir := fst (GetProjectDir os w), ec_Env := os_Environ os w2 @ [''GO111MODULE=on'']\<rparr>"
  have w3: "ran_cmds w3 = ran_cmds w" using w1 by (simp add: w3_def w2_def print_runs_nothing split: option.split)
  obtain o2 e2 w4 where run: "os_CombinedOutput os cmd' w3 = ((o2, e2), w4)" by (cases "os_CombinedOutput os cmd' w3") fastforce
  have "ran_cmds w4 = ran_cmds w @ [(ec_Args cmd, e2)]" using run_recorded[OF run] w3 by (simp add: cmd'_def)
  moreover have "w' = w4 \<and> (err = None \<longleftrightarrow> e2 = None)"
    using assms run dir unfolding Run_def Let_def by (cases e1; cases e2) (auto simp: w3_def w2_def cmd'_def)
  ultimately show thesis using that by blast
qed

text \<open>The webhook of the certificate manager is waited for only after its objects were applied.\<close>

lemma InstallCertManager_order:
  assumes "InstallCertManager os w = (err, w')"
  shows "\<exists>e. ran_cmds w' = ran_cmds w @ [([''kubectl'', ''apply'', ''-f'', certmanagerURLTmpl certmanagerVersion], Some e)] \<and> err \<noteq> None \<or>
    (\<exists>x. ran_cmds w' = ran_cmds w @ [([''kubectl'', ''apply'', ''-f'', certmanagerURLTmpl certmanagerVersion], None),
      ([''kubectl'', ''wait'', ''deployment.apps/cert-manager-webhook'', ''--for'', ''condition=Available'', ''--namespace'',
        ''cert-manager'', ''--timeout'', ''5m''], x)] \<and> (err = None \<longleftrightarrow> x = None))"
proof -
  let ?apply = "Command ''kubectl'' [''apply'', ''-f'', certmanagerURLTmpl certmanagerVersion]"
  obtain out1 err1 w1 where r1: "Run os ?apply w = ((out1, err1), w1)" by (metis prod.exhaust)
  from Run_recorded[OF r1] obtain e1 where
    e1: "ran_cmds w1 = ran_cmds w @ [(ec_Args ?apply, e1)]" "err1 = None \<longleftrightarrow> e1 = None" by blast
  show ?thesis
  proof (cases err1)
    case (Some x)
    with assms r1 e1 show ?thesis by (auto simp: InstallCertManager_def Command_def)
  next
    case None
    let ?wait = "Command ''kubectl'' [''wait'', ''deployment.apps/cert-manager-webhook'', ''--for'',
            ''condition=Available'', ''--namespace'', ''cert-manager'', ''--timeout'', ''5m'']"
    obtain out2 err2 w2 where r2: "Run os ?wait w1 = ((out2, err2), w2)" by (metis prod.exhaust)
    from Run_recorded[OF r2] obtain e2 where
      "ran_cmds w2 = ran_cmds w1 @ [(ec_Args ?wait, e2)]" "err2 = None \<longleftrightarrow> e2 = None" by blast
    with assms r1 r2 e1 None show ?thesis by (auto simp: InstallCertManager_def Command_def)
  qed
qed

text \<open>Uninstalling runs its command and keeps its error to a warning.\<close>

lemma uninstall_runs:
  "\<exists>e. ran_cmds (warned os (Run os cmd w)) = ran_cmds w @ [(ec_Args cmd, e)]"
proof -
  obtain out err w1 where r: "Run os cmd w = ((out, err), w1)" by (metis prod.exhaust)
  from Run_recorded[OF r] obtain e where "ran_cmds w1 = ran_cmds w @ [(ec_Args cmd, e)]" by blast
  with r show ?thesis by (cases err) (auto simp: warned_def warnError_def print_runs_nothing)
qed

end

text \<open>A system in memory, on which commands fail as given.\<close>

record memOs =
  mo_dir :: string
  mo_ran :: "(string list \<times> go_error option) list"
  mo_text :: string

definition mem_os :: "(string list \<Rightarrow> go_error option) \<Rightarrow> (string \<rightharpoonup> string) \<Rightarrow> memOs osOps" where
  "mem_os result env = \<lparr>os_Getwd = (\<lambda>w. (mo_dir w, None)), os_Chdir = (\<lambda>d w. (None, w\<lparr>mo_dir := d\<rparr>)),
     os_Environ = (\<lambda>_. []), os_LookupEnv = (\<lambda>v _. env v),
     os_CombinedOutput = (\<lambda>cmd w. (([], result (ec_Args cmd)), w\<lparr>mo_ran := mo_ran w @ [(ec_Args cmd, result (ec_Args cmd))]\<rparr>)),
     os_Fprint = (\<lambda>m w. w\<lparr>mo_text := mo_text w @ m\<rparr>)\<rparr>"

interpretation mem_os: recording_os "mem_os result env" mo_ran for result env
  by unfold_locales (auto simp: mem_os_def)

text \<open>The cluster of \<open>kind\<close> is the one of the environment, or the default one.\<close>

lemma LoadImage_cluster:
  "\<exists>e. mo_ran (snd (LoadImageToKindClusterWithName (mem_os result env) name w)) = mo_ran w @
     [([''kind'', ''load'', ''docker-image'', name, ''--name'', case env ''KIND_CLUSTER'' of Some v \<Rightarrow> v | None \<Rightarrow> ''kind''], e)]"
  by (cases "env ''KIND_CLUSTER''")
     (auto simp: LoadImageToKindClusterWithName_def Run_def mem_os_def Command_def Let_def split: option.splits)

end
