(* ===== verification/Spec2Isabelle.thy ===== *)
theory Spec2Isabelle
  imports Queue_Steps System_Cancels Graph_Text Resource_Value Deep_Copy Manager Scheme Grpc_Descriptor Group Test_Utils
begin

text \<open>
  A verification library for \<open>fluxqueue\<close>, a Kubernetes operator that schedules work with the
  Fluxion graph scheduler. File names below are relative to \<open>src/\<close>.

  \<^bold>\<open>The program.\<close> A mutating webhook (\<open>api/v1alpha1\<close>) receives pods, jobs, deployments,
  replica sets and stateful sets, gates or suspends them and creates a FluxJob resource for each. The
  controller (\<open>internal/controller\<close>) reconciles FluxJobs: it puts them into a pending table
  in Postgres and runs a schedule loop of the queue (\<open>pkg/fluxqueue\<close>), which turns all
  pending rows into river jobs. River runs workers (\<open>pkg/fluxqueue/strategy/workers\<close>): the
  job worker asks Fluxion for nodes and unsuspends the job or queues an ungate job, the ungate worker
  labels pods with their nodes and removes their gate, the cleanup worker cancels jobs in Fluxion, and
  the reservation worker clears reservations. A scheduler plugin (\<open>build/scheduler\<close>) binds a
  pod to the node in its label. When a pod is deleted, the controller queues a cleanup. At start the
  controller sends Fluxion a resource graph (\<open>pkg/jgf\<close>, \<open>cluster.go\<close>), which a
  gRPC service (\<open>pkg/service\<close>) also returns. The manager program (\<open>cmd/manager\<close>) reads
  the flags and puts these parts together.

  \<^bold>\<open>Theories and what they model.\<close>
  \<^item> \<open>Go_Prelude\<close>: Go errors, panics (\<open>Ret\<close>, \<open>Panic\<close>), sized integers, and
    the functions of \<open>strconv\<close>, \<open>strings\<close> and \<open>path\<close> in use, with their
    round trips (printing and parsing integers, joining and splitting, cleaning paths).
  \<^item> \<open>Go_Json\<close>, \<open>Go_Float\<close>, \<open>Go_Flag\<close>: \<open>encoding/json\<close> (reading and indented
    writing, with the round trip), the \<open>float64\<close> operations in use (rounding to 53 bits is
    exact on the quotients that the program takes), and the command line parser of \<open>flag\<close>.
  \<^item> \<open>Kube_Types\<close>, \<open>Quantity\<close>, \<open>Kube_Api\<close>: Kubernetes objects with the fields
    the sources use, \<open>resource.Quantity\<close> and the API server as parameters with contracts
    (locales \<open>quantity\<close>, \<open>kube_api\<close> for pods, \<open>kube_server\<close> for pods and jobs), each
    interpreted on a concrete instance.
  \<^item> \<open>Flux_Types\<close>, \<open>Scheme\<close>: \<open>fluxjob_types.go\<close>, and the registration of its kinds in
    \<open>groupversion_info.go\<close> and the manager; the locale \<open>scheme_lib\<close> is the scheme library.
  \<^item> \<open>Database\<close>: the tables and SQL statements (\<open>queries.go\<close>, \<open>create-tables.sql\<close>);
    the locale \<open>pending_table\<close> is what the queue relies on.
  \<^item> \<open>Strategy\<close>: the river arguments, \<open>strategy.go\<close> as a record of operations and
    \<open>easy.go\<close>; the locale \<open>queue_strategy\<close> is the contract of a strategy.
  \<^item> \<open>Queue\<close>: \<open>fluxqueue.go\<close> and \<open>events.go\<close>; scheduling is proved for every
    strategy that keeps the contract, and the properties follow for the easy strategy.
  \<^item> \<open>Allocation\<close>: \<open>pkg/types/types.go\<close>, the structs of an allocation with their JSON
    decoding.
  \<^item> \<open>Worker_Env\<close>, \<open>Worker_Job\<close>, \<open>Worker_Ungate\<close>, \<open>Worker_Cleanup\<close>:
    the four workers.
  \<^item> \<open>Submit\<close>, \<open>Webhook\<close>: \<open>submit.go\<close>, \<open>jobspec.go\<close>,
    \<open>fluxjob_enqueue.go\<close>, \<open>fluxjob_webhook.go\<close>; the locale \<open>crd_client\<close> is the
    client for FluxJobs.
  \<^item> \<open>Controller\<close>: \<open>Reconcile\<close>, \<open>submitJob\<close>, \<open>updateStatus\<close> and the
    handler of pod deletions.
  \<^item> \<open>Manager\<close>: \<open>cmd/manager/main.go\<close> with its flags, and the constructor and the setup
    functions of the controller; the results of library calls are an environment, and the model gives
    how the process ends and what it did.
  \<^item> \<open>Deep_Memory\<close>, \<open>Deep_Copy\<close>: \<open>zz_generated.deepcopy.go\<close> over a heap with
    slices and pointers; the locales \<open>memory\<close>, \<open>deep_copier\<close> and \<open>cell_copier\<close>
    are the contract of a deep copy, which every function of the file is shown to keep.
  \<^item> \<open>Resources\<close>, \<open>Resource_Value\<close>, \<open>JGF\<close>, \<open>Cluster\<close>, \<open>Service\<close>: \<open>resources.go\<close>,
    \<open>pkg/jgf\<close>, \<open>cluster.go\<close>, \<open>service.go\<close>; the locale \<open>leaf_maker\<close> is
    what the loops of the cluster graph rely on.
  \<^item> \<open>Grpc_Stubs\<close>, \<open>Grpc_Descriptor\<close>: the stubs of \<open>pkg/service-grpc\<close>, and its messages and
    descriptor tables; the locale \<open>grpc_conn\<close> is what gRPC promises of a connection between the client
    and the registered service.
  \<^item> \<open>Test_Utils\<close>: \<open>test/utils/utils.go\<close> over an operating system that is a parameter (locale
    \<open>recording_os\<close>).
  \<^item> \<open>Graph_Text\<close>: the text of the graph through both codecs, from the writer in \<open>JGF\<close> to
    the reader in \<open>Allocation\<close>.
  \<^item> \<open>Scheduler_Plugin\<close>: \<open>scheduler.go\<close> and the scheduler program; the locale \<open>queue_sort\<close> is what the
    scheduling framework asks of \<open>Less\<close>.
  \<^item> \<open>Group\<close>: \<open>pkg/fluxqueue/group\<close> and \<open>labels\<close>.
  \<^item> \<open>Queue_Steps\<close>: concurrent callers of \<open>Enqueue\<close> and \<open>Schedule\<close> as a step relation
    whose steps are single statements: each query, each river insert, the check, the acquisition and the
    release of the mutex. The locale \<open>row_strategy\<close> extends the contract of a strategy.
  \<^item> \<open>System\<close>: the operator as a step relation whose steps are the whole handlers above: admission
    requests, reconciles, pod deletions and worker runs, in any order and with any faults.
  \<^item> \<open>System_River\<close>: the queues and kinds of all jobs that these handlers insert in river, against
    the configuration of the river client.
  \<^item> \<open>System_Grants\<close>, \<open>System_Runs\<close>: the same steps together with those of the rest of
    Kubernetes, which creates, changes and deletes pods and jobs and leaves the program's labels and its
    gate alone (\<open>kube_change\<close>); the origin of every node label, over all runs, and one run from
    admission to the plugin. The locale \<open>busy_server\<close> lets the rest of Kubernetes act before and
    after every API call of a handler, \<open>kube_server\<close> only between handlers; the chain of handlers is
    proved once for both, in \<open>grant_keeper\<close>. The locales \<open>live_server\<close> and \<open>live_client\<close> add
    to the contracts of the services that they answer.
  \<^item> \<open>System_Cancels\<close>: these runs with the pods that the informer saw, and the origin of every
    cleanup job.

  \<^bold>\<open>State, errors and faults.\<close> Each operation takes its state and returns it updated. An operation
  that returns an error has it as a value; one that can panic returns a \<open>go\<close> value. Failures of
  Postgres, river and the Kubernetes client are arguments (\<open>faults\<close>, \<open>workerFaults\<close>,
  \<open>go_error option\<close>), so a theorem without a hypothesis on them holds for every failure. All
  functions are total: loops over slices are structural recursions, and a loop up to an integer bound
  recurses on that bound. Only the JSON reader, which follows the nesting of its input, has fuel:
  twice the length of the text and one more, which is shown to be enough for every text and to give the
  same result as any greater fuel. Sizes and counters are words of the width of the source;
  bounds like \<open>2 ^ 63\<close> in hypotheses are the ranges of these words.

  \<^bold>\<open>What the theorems show.\<close> For the queue: a loop without faults drains the pending table, no fault
  loses a job, a failed loop changes nothing; and with concurrent callers every accepted job is
  submitted exactly once, up to one more copy for each row whose delete did not happen, no caller
  waits for the lock for good, and a call that nobody disturbs is the sequential one. For the workers: which nodes each pod gets, which patches
  and jobs each outcome causes. For the webhook: what an admitted object looks like, that it is
  submitted once, and that a rejected request left no FluxJob. For the controller: the life of a
  FluxJob, and what a deleted pod causes. For the graph: it is a containment tree with the vertices
  that the cluster's free resources call for, and its text is read back as the same vertices. For the
  manager: how it ends for every answer of the libraries, and that a manager which starts serves the
  graph that Fluxion accepted. For the generated copies: a copy stands for the same object and shares
  no memory with it. For the operator as a whole: in every reachable state a
  FluxJob with the status submit is pending or was handed to river; every river job has a queue and a worker; every node that the plugin assigns was
  granted by Fluxion, earlier in the run, to a job of the pod's namespace, even when pods change within
  a handler, and when they do not, a gated pod stays gated until it was assigned nodes or marked
  unschedulable; only allocations that Fluxion granted are cancelled; and a pod that is submitted while the services
  answer does reach the plugin with the nodes of its allocation. For the external service: its client
  gets what the service computes, and its descriptor describes the stubs. Below, the properties that span components: nodes chosen
  by Fluxion reach the pods, flux job ids make the round trip, and selectors match. Where the
  code does not do what it means to, the theorem states what it does: the dropped errors, the
  reservation flag set on a copy, the query that reservations cannot be read with, the swapped
  arguments, the index guard.

  \<^bold>\<open>Not modelled.\<close> Every operation of the sources is modelled, but not: logging of information and
  timeouts; two handlers of the operator interleaved within each other, apart from the callers of the
  queue; river's own choice of which job to run and when to retry it, which \<open>System\<close> leaves open; and
  types and variables that no code uses. Of \<open>float64\<close>, overflow, subnormal numbers and the sign of
  zero, which quotients of 64-bit integers do not reach or show.
\<close>

section \<open>Facts that span components\<close>

lemma node_labels_lookup [simp]:
  "map_of (node_labels nodes i) NodesLabel = Some (join nodes ''__'')"
  "map_of (node_labels nodes i) FluxJobIdLabel = Some (itoa i)"
  "x \<noteq> NodesLabel \<Longrightarrow> x \<noteq> FluxJobIdLabel \<Longrightarrow> map_of (node_labels nodes i) x = None"
  by (simp_all add: node_labels_def)

text \<open>A pod of a job whose template got the labels of an allocation.\<close>

definition job_pod :: "string list \<Rightarrow> int \<Rightarrow> nat \<Rightarrow> labels \<Rightarrow> 'q pod \<Rightarrow> bool" where
  "job_pod nodes fluxID i l p \<longleftrightarrow>
     pod_Labels p = Some (l ++ map_of (node_labels nodes fluxID)) \<and>
     l UnschedulableLabel = None \<and> l job_completion_index_label = Some (itoa (int i))"

definition ex_job_pod :: "int pod" where
  "ex_job_pod = (ex_labelled [])\<lparr>pod_Meta := \<lparr>om_Name = ''j-1'', om_Namespace = ''ns'',
     om_Labels = Some ([job_completion_index_label \<mapsto> itoa (int 1)] ++ map_of (node_labels [''n0'', ''n1''] 7)),
     om_CreationTimestamp = None\<rparr>\<rparr>"

definition ex_one_db :: db where
  "ex_one_db = \<lparr>db_pending = [enqueue_row (ex_job ''a'') 3], db_reservations = [], db_now = 4\<rparr>"

definition ex_wrapped :: "jobWrapped \<Rightarrow> string \<Rightarrow> fluxJob" where
  "ex_wrapped ty n = \<lparr>fj_Name = GetJobName ty n, fj_Namespace = ''ns'',
     fj_Spec = \<lparr>fs_JobSpec = ''spec'', fs_Type = ty, fs_Name = n, fs_Object = [], fs_Duration = 0, fs_Reservation = False,
                fs_Nodes = 1, fs_Resources = []\<rparr>, fj_Status = []\<rparr>"

section \<open>Properties that span components\<close>

text \<open>C10: the pods of an unsuspended job run on the nodes Fluxion allocated, one per node: the scheduler
  plugin assigns the pod with completion index \<open>i\<close> the node at position \<open>i\<close> of the
  allocation, and different indices get different nodes.\<close>
theorem job_pods_run_on_allocated_nodes:
  assumes "parseNodes allocation = Inr nodes" "\<forall>n \<in> set nodes. CHR ''_'' \<notin> set n" "length nodes \<le> 2 ^ 63"
    and "job_pod nodes fluxID i l p" "i < length nodes"
  shows "PreFilter p = Ret (Some {nodes ! i}, \<lparr>st_Code = Success, st_Message = ''Fluxion scheduler assigned node''\<rparr>) \<and>
    (\<forall>j < length nodes. nodes ! j = nodes ! i \<longrightarrow> j = i)"
proof
  have "distinct nodes" using assms(1) by (auto simp: parseNodes_def parse_nodes_loop_nodes split: sum.splits)
  then show "\<forall>j < length nodes. nodes ! j = nodes ! i \<longrightarrow> j = i"
    using assms(5) by (auto simp: nth_eq_iff_index_eq)
  show "PreFilter p = Ret (Some {nodes ! i}, \<lparr>st_Code = Success, st_Message = ''Fluxion scheduler assigned node''\<rparr>)"
    using assms(2-5) by (intro PreFilter_assigns) (auto simp: job_pod_def map_add_def)
qed

theorem job_pods_run_on_allocated_nodes_witness:
  "\<exists>st. PreFilter ex_job_pod = Ret (Some {''n1''}, st)"
proof -
  have "job_pod [''n0'', ''n1''] 7 1 [job_completion_index_label \<mapsto> itoa (int 1)] ex_job_pod"
    by (simp add: job_pod_def ex_job_pod_def job_completion_index_label_def UnschedulableLabel_def)
  from job_pods_run_on_allocated_nodes[OF ex_nodes(1) _ _ this] show ?thesis by simp
qed

text \<open>The flux job id makes the round trip: when a pod that was ungated with an id is deleted, the
  cleanup job that is inserted makes the cleanup worker cancel exactly that id in Fluxion.\<close>

lemma deleted_pod_cancels_its_job:
  assumes "0 \<le> i" "i < 2 ^ 63" "ft_insertMany f = None"
  shows "\<exists>a. DeleteFunc f (easy_queue depth) (DeletedPod (ungated_pod (node_labels nodes i) p)) s =
      Ret (s\<lparr>s_river := s_river s @ [cleanup_job i]\<rparr>) \<and>
    im_Args (cleanup_job i) = ACleanup a \<and>
    snd (CleanupWorker_Work (log_fluxion resp cancel) a calls) = calls @ [CCancel i]"
proof -
  have "parseInt (itoa i) 64 = (i, None)" using assms(1,2) by (intro parseInt_itoa) auto
  moreover have "label_get (pod_Labels (ungated_pod (node_labels nodes i) p)) FluxJobIdLabel = Some (itoa i)"
    by (simp add: node_labels_def)
  ultimately have "DeleteFunc f (easy_queue depth) (DeletedPod (ungated_pod (node_labels nodes i) p)) s =
      Ret (s\<lparr>s_river := s_river s @ [cleanup_job i]\<rparr>)"
    using assms(3) by (simp add: DeleteFunc_def queue_Cleanup_easy)
  then show ?thesis
    using assms(1) by (auto simp: cleanup_job_def CleanupWorker_Work_def Cleanup_def deleteFluxion_def log_fluxion_def
        split: option.splits)
qed

text \<open>C40: a job that Fluxion cannot place is retried and never rejected: for every reservation depth, the
  jobs that the webhook submitted carry no reservation when they reach the worker, so without an
  allocation the work fails with an ordinary error and the wrapped object is not marked unschedulable.\<close>
theorem submitted_jobs_never_rejected:
  assumes "\<forall>r \<in> set (db_pending d). \<exists>ty n ns nodes j now. submitted ty n ns nodes j \<and> r = enqueue_row j now"
    and "easy_Schedule f d depth = Inr batch" "q \<in> set batch" "im_Args q = AJob args"
    and "fo_NewClient X = None"
    and "fo_Match X \<lparr>mr_Jobspec = ja_Jobspec args, mr_Reservation = False\<rparr> (w_fluxion w) = (Inr resp, x)"
    and "mp_Allocation resp = []"
  shows "\<exists>m w'. JobWorker_Work K X wfs args w = (Some (Errorf m), w') \<and> w_kube w' = w_kube w"
proof -
  obtain r where "r \<in> set (db_pending d)" "args = row_jobArgs r"
    using assms(2-4) by (auto simp: easy_Schedule_eq pending.sel_set split: option.splits)
  with assms(1) have "ja_Reservation args = 0"
    by (auto simp: row_jobArgs_def enqueue_row_def submitted_def)
  with assms(5-7) show ?thesis by (simp add: JobWorker_Work_def Let_def)
qed

theorem submitted_jobs_never_rejected_witness:
  "\<exists>batch q args m w'. easy_Schedule no_faults ex_one_db 1 = Inr batch \<and> q \<in> set batch \<and> im_Args q = AJob args \<and>
     JobWorker_Work ex_kube (ex_fluxion []) no_workerFaults args ex_world = (Some (Errorf m), w') \<and>
     w_kube w' = []"
proof -
  let ?r = "enqueue_row (ex_job ''a'') 3"
  let ?q = "\<lparr>im_Args = AJob (row_jobArgs ?r), im_Opts = easy_insertOpts\<rparr>"
  have run: "easy_Schedule no_faults ex_one_db 1 = Inr [?q]"
    by (simp add: easy_Schedule_eq no_faults_def ex_one_db_def SelectPendingByCreation_def)
  have rows: "\<forall>r \<in> set (db_pending ex_one_db). \<exists>ty n ns nodes j now. submitted ty n ns nodes j \<and> r = enqueue_row j now"
    by (auto simp: ex_one_db_def submitted_def ex_job_def intro!: exI[of _ "ex_job ''a''"])
  have "\<exists>m w'. JobWorker_Work ex_kube (ex_fluxion []) no_workerFaults (row_jobArgs ?r) ex_world =
      (Some (Errorf m), w') \<and> w_kube w' = w_kube ex_world"
    by (rule submitted_jobs_never_rejected[OF rows run, of ?q, where resp = "ex_resp []"
          and x = "[CMatch \<lparr>mr_Jobspec = ja_Jobspec (row_jobArgs ?r), mr_Reservation = False\<rparr>]"])
       (simp_all add: ex_fluxion_def log_fluxion_def ex_resp_def ex_world_def)
  then show ?thesis using run by (auto simp: ex_world_def)
qed



text \<open>Two objects of different kinds with one name in a namespace have different FluxJobs, but only the
  first is queued: the pending table is keyed by the original name, so enqueueing the second fails.\<close>

lemma same_name_other_kind_refused:
  assumes "submitted ty1 n ns sz1 j1" "submitted ty2 n ns sz2 j2" "known_type ty1" "known_type ty2" "ty1 \<noteq> ty2"
    and "Enqueue no_faults j1 s = ((JobEnqueueSuccess, None), s1)"
  shows "fj_Name j1 \<noteq> fj_Name j2 \<and> Enqueue no_faults j2 s1 = ((Unknown, Some (UniqueViolation ''pending_index'')), s1)"
proof -
  have "GetJobName ty1 n \<noteq> GetJobName ty2 n" using GetJobName_inject[OF assms(3,4)] assms(5) by blast
  moreover have "(ns, n) \<in> set (map row_key (db_pending (s_db s1)))"
    using assms(1,6) by (auto simp: Enqueue_eq no_faults_def submitted_def enqueue_row_def row_key_def split: if_splits)
  ultimately show ?thesis using assms(1,2) by (simp add: Enqueue_eq no_faults_def submitted_def)
qed

end
